theory Spec2Isabelle
  imports Complex_Main
begin

section \<open>Vectors and element selection\<close>

text \<open>
  An \<open>arma::vec\<close> is modelled as a list of reals (double arithmetic is idealised to
  exact real arithmetic), an \<open>arma::uvec\<close> of indices as a list of naturals.
\<close>

type_synonym vec = "real list"
type_synonym uvec = "nat list"

text \<open>\<open>arma::find(cond)\<close>: the indices at which a boolean vector holds, ascending.\<close>

definition find_idx :: "bool list \<Rightarrow> uvec" where
  "find_idx bs = filter (\<lambda>i. bs ! i) [0..<length bs]"

text \<open>\<open>x.elem(idx)\<close> read as a value.\<close>

definition elem :: "'a list \<Rightarrow> uvec \<Rightarrow> 'a list" where
  "elem x idx = map (\<lambda>i. x ! i) idx"

text \<open>\<open>y.elem(idx) = vals\<close>: the assignment through an index vector, one slot at a time.\<close>

fun set_elem :: "'a list \<Rightarrow> uvec \<Rightarrow> 'a list \<Rightarrow> 'a list" where
  "set_elem y (i # is) (v # vs) = set_elem (y[i := v]) is vs"
| "set_elem y _ _ = y"

definition zeros :: "nat \<Rightarrow> vec" where
  "zeros n = replicate n 0"

section \<open>Matrices\<close>

text \<open>
  An \<open>arma::mat\<close> is its two dimensions and its entries. Operations whose operands
  have incompatible sizes, or an index out of range, raise Armadillo's
  \<open>std::logic_error\<close>; a failed factorisation or solve raises \<open>std::runtime_error\<close>.
  The source has no \<open>throw\<close> or \<open>Rcpp::stop\<close> of its own: every failure of a run is
  one of these. \<open>NotFinite\<close> is not an exception: it marks a run in which a division
  by zero has produced a value that is not a real number (see the slice sampler).
\<close>

record mat =
  n_rows :: nat
  n_cols :: nat
  entry :: "nat \<Rightarrow> nat \<Rightarrow> real"

datatype error =
    IncompatibleDims | IncompatibleLayout | IndexOutOfBounds | EmptyObject | BadSize
  | DecompositionFailed | SolveFailed | NotFinite

text \<open>\<open>A * B\<close> for two matrices.\<close>

definition mat_mul :: "mat \<Rightarrow> mat \<Rightarrow> error + mat" where
  "mat_mul A B =
     (if n_cols A = n_rows B
      then Inr \<lparr>n_rows = n_rows A, n_cols = n_cols B,
                entry = (\<lambda>i j. sum_list (map (\<lambda>k. entry A i k * entry B k j) [0..<n_cols A]))\<rparr>
      else Inl IncompatibleDims)"

text \<open>An elementwise function of a matrix, such as \<open>1.0/(1.0 + exp(-M))\<close>.\<close>

definition mat_map :: "(real \<Rightarrow> real) \<Rightarrow> mat \<Rightarrow> mat" where
  "mat_map f M = M\<lparr>entry := (\<lambda>i j. f (entry M i j))\<rparr>"

text \<open>
  \<open>arma::vec m = arma::mean(M, 1)\<close>: the mean of every row. For a matrix without columns
  the library returns a matrix without columns, which a column vector accepts only when
  it has no rows either.
\<close>

definition mean_rows :: "mat \<Rightarrow> error + vec" where
  "mean_rows M =
     (if n_cols M = 0
      then (if n_rows M = 0 then Inr [] else Inl IncompatibleLayout)
      else Inr (map (\<lambda>i. sum_list (map (\<lambda>j. entry M i j) [0..<n_cols M]) / real (n_cols M))
                  [0..<n_rows M]))"

section \<open>Prediction for the logistic fits\<close>

text \<open>
  The fields of the result of \<open>predict_fast_logit\<close> that the classification rule
  involves; the credible limits, median and standard deviation are reductions of the
  same \<open>pred_prob\<close> by library calls and are left out.
\<close>

record prediction =
  pred_class :: "nat list"
  pred_mean :: vec

definition ones :: "nat \<Rightarrow> nat list" where
  "ones n = replicate n 1"

definition predict_fast_logit :: "mat \<Rightarrow> mat \<Rightarrow> real \<Rightarrow> real \<Rightarrow> error + prediction" where
  "predict_fast_logit betacoef X_test alpha cutoff =
     (case mat_mul X_test betacoef of
        Inl e \<Rightarrow> Inl e
      | Inr pred_mu \<Rightarrow>
          (let pred_prob = mat_map (\<lambda>v. 1 / (1 + exp (- v))) pred_mu in
           case mean_rows pred_prob of
             Inl e \<Rightarrow> Inl e
           | Inr pmean \<Rightarrow>
               (let pclass = replicate (length pmean) (0::nat);
                    idx = find_idx (map (\<lambda>v. v > cutoff) pmean);
                    pclass = set_elem pclass idx (ones (length idx))
                in Inr \<lparr>pred_class = pclass, pred_mean = pmean\<rparr>)))"

text \<open>
  Two stored draws \<open>(ln 3, 0)\<close> of one coefficient and three test rows \<open>1\<close>, \<open>0\<close>, \<open>-1\<close>:
  the probabilities are \<open>(3/4, 1/2)\<close>, \<open>(1/2, 1/2)\<close> and \<open>(1/4, 1/2)\<close>, the means
  \<open>5/8\<close>, \<open>1/2\<close> and \<open>3/8\<close>, and with the cutoff \<open>1/2\<close> the classes 1, 0 and 0.
\<close>

definition B_example :: mat where
  "B_example = \<lparr>n_rows = 1, n_cols = 2, entry = (\<lambda>k j. if j = 0 then ln 3 else 0)\<rparr>"

definition X_test_example :: mat where
  "X_test_example =
     \<lparr>n_rows = 3, n_cols = 1, entry = (\<lambda>i k. if i = 0 then 1 else if i = 1 then 0 else - 1)\<rparr>"

section \<open>Checked vector and matrix operations\<close>

definition vadd :: "vec \<Rightarrow> vec \<Rightarrow> error + vec" where
  "vadd a b = (if length a = length b then Inr (map2 (\<lambda>x y. x + y) a b) else Inl IncompatibleDims)"

definition vsub :: "vec \<Rightarrow> vec \<Rightarrow> error + vec" where
  "vsub a b = (if length a = length b then Inr (map2 (\<lambda>x y. x - y) a b) else Inl IncompatibleDims)"

text \<open>The elementwise product \<open>a % b\<close> and quotient \<open>a / b\<close>.\<close>

definition vmul :: "vec \<Rightarrow> vec \<Rightarrow> error + vec" where
  "vmul a b = (if length a = length b then Inr (map2 (\<lambda>x y. x * y) a b) else Inl IncompatibleDims)"

definition vdiv :: "vec \<Rightarrow> vec \<Rightarrow> error + vec" where
  "vdiv a b = (if length a = length b then Inr (map2 (\<lambda>x y. x / y) a b) else Inl IncompatibleDims)"

text \<open>A scalar times a vector, a scalar plus a vector, a scalar over a vector.\<close>

definition smul :: "real \<Rightarrow> vec \<Rightarrow> vec" where
  "smul c a = map (\<lambda>x. c * x) a"

definition sadd :: "real \<Rightarrow> vec \<Rightarrow> vec" where
  "sadd c a = map (\<lambda>x. c + x) a"

definition sdiv :: "real \<Rightarrow> vec \<Rightarrow> vec" where
  "sdiv c a = map (\<lambda>x. c / x) a"

definition vsqrt :: "vec \<Rightarrow> vec" where
  "vsqrt a = map sqrt a"

text \<open>\<open>arma::accu\<close>, and \<open>a % a\<close> for one vector with itself (sizes always agree).\<close>

definition accu :: "vec \<Rightarrow> real" where
  "accu a = sum_list a"

definition vsq :: "vec \<Rightarrow> vec" where
  "vsq a = map (\<lambda>x. x * x) a"

definition mat_t :: "mat \<Rightarrow> mat" where
  "mat_t A = \<lparr>n_rows = n_cols A, n_cols = n_rows A, entry = (\<lambda>i j. entry A j i)\<rparr>"

definition mat_smul :: "real \<Rightarrow> mat \<Rightarrow> mat" where
  "mat_smul c A = A\<lparr>entry := (\<lambda>i j. c * entry A i j)\<rparr>"

text \<open>\<open>A * v\<close> for a matrix and a column vector.\<close>

definition mat_vec :: "mat \<Rightarrow> vec \<Rightarrow> error + vec" where
  "mat_vec A v =
     (if n_cols A = length v
      then Inr (map (\<lambda>i. sum_list (map (\<lambda>k. entry A i k * v ! k) [0..<n_cols A])) [0..<n_rows A])
      else Inl IncompatibleDims)"

text \<open>\<open>M.zeros(r, c)\<close>, \<open>M.col(j) = v\<close> and \<open>v(i) = x\<close>.\<close>

definition mat_zeros :: "nat \<Rightarrow> nat \<Rightarrow> mat" where
  "mat_zeros r c = \<lparr>n_rows = r, n_cols = c, entry = (\<lambda>i j. 0)\<rparr>"

definition set_col :: "mat \<Rightarrow> nat \<Rightarrow> vec \<Rightarrow> error + mat" where
  "set_col M j v =
     (if \<not> j < n_cols M then Inl IndexOutOfBounds
      else if length v \<noteq> n_rows M then Inl IncompatibleDims
      else Inr (M\<lparr>entry := (\<lambda>i k. if k = j then v ! i else entry M i k)\<rparr>))"

definition set_at :: "vec \<Rightarrow> nat \<Rightarrow> real \<Rightarrow> error + vec" where
  "set_at v i x = (if i < length v then Inr (v[i := x]) else Inl IndexOutOfBounds)"

definition col :: "mat \<Rightarrow> nat \<Rightarrow> vec" where
  "col M j = map (\<lambda>i. entry M i j) [0..<n_rows M]"

text \<open>\<open>arma::mean\<close> of a vector; the library rejects an object without elements.\<close>

definition mean_vec :: "vec \<Rightarrow> error + real" where
  "mean_vec v = (if v = [] then Inl EmptyObject else Inr (sum_list v / real (length v)))"

section \<open>Random draws, kernel entries and failures as an observable run\<close>

text \<open>
  The source draws from one global generator. The generator is a state of some type
  \<open>'g\<close>, and the library's samplers are functions of it, collected in a record: nothing
  is assumed about them beyond their types. \<open>randg_dbl shape scale\<close> is
  \<open>randg<double>(distr_param(shape, scale))\<close>; a Gamma distribution of rate \<open>r\<close> is the
  one of scale \<open>1 / r\<close>. \<open>pgdraw\<close> is the Polya-Gamma sampler of the R package, \<open>pgamma\<close>
  and \<open>qgamma\<close> the Gamma distribution function and quantile function of R.
\<close>

record 'g sampler =
  randn_vec :: "nat \<Rightarrow> 'g \<Rightarrow> vec \<times> 'g"
  randu_vec :: "nat \<Rightarrow> 'g \<Rightarrow> vec \<times> 'g"
  randu_dbl :: "'g \<Rightarrow> real \<times> 'g"
  randg_dbl :: "real \<Rightarrow> real \<Rightarrow> 'g \<Rightarrow> real \<times> 'g"
  randg_vec :: "nat \<Rightarrow> real \<Rightarrow> real \<Rightarrow> 'g \<Rightarrow> vec \<times> 'g"
  pgdraw :: "real \<Rightarrow> vec \<Rightarrow> 'g \<Rightarrow> vec \<times> 'g"
  pgamma :: "real \<Rightarrow> real \<Rightarrow> real \<Rightarrow> real"
  qgamma :: "real \<Rightarrow> real \<Rightarrow> real \<Rightarrow> real"

text \<open>
  The factorisations and solves of the linear-algebra library, and its elementwise
  \<open>arma::expm1\<close> and \<open>arma::log1p\<close> on one element. The library computes these two in
  floating point: \<open>expm1 x\<close> is close to \<open>exp x - 1\<close> and \<open>log1p x\<close> to \<open>ln (1 + x)\<close>, but
  neither is that real number in general, and the source chooses between them for their
  rounding. They are therefore functions of the library like the rest, with nothing
  assumed about them.
\<close>

record linalg =
  svd_econ :: "mat \<Rightarrow> mat \<times> vec \<times> mat"
  chol :: "mat \<Rightarrow> error + mat"
  solve :: "mat \<Rightarrow> vec \<Rightarrow> error + vec"
  expm1 :: "real \<Rightarrow> real"
  log1p :: "real \<Rightarrow> real"

section \<open>Numerically stable log transforms\<close>

text \<open>The macro \<open>LOG2\<close> of the source, a decimal truncation of \<open>ln 2\<close>.\<close>

definition LOG2 :: real where
  "LOG2 = 693147180559945 / 1000000000000000"

text \<open>
  A floating-point result that may fail to be a real number. \<open>arma::log\<close> returns minus
  infinity at zero and not-a-number at a negative argument.
\<close>

datatype dbl = Finite real | Minus_infinity | Not_a_number

definition arma_log :: "real \<Rightarrow> dbl" where
  "arma_log v = (if 0 < v then Finite (ln v) else if v = 0 then Minus_infinity else Not_a_number)"

definition log1mexpm :: "linalg \<Rightarrow> vec \<Rightarrow> dbl list" where
  "log1mexpm L x =
     (let idx1 = find_idx (map (\<lambda>v. v \<le> LOG2) x);
          idx0 = find_idx (map (\<lambda>v. v > LOG2) x);
          y = replicate (length x) (Finite 0);
          y = set_elem y idx1 (map (\<lambda>v. arma_log (0 - expm1 L (0 - v))) (elem x idx1));
          y = set_elem y idx0 (map (\<lambda>v. Finite (log1p L (0 - exp (0 - v)))) (elem x idx0))
      in y)"

definition log1pexp :: "linalg \<Rightarrow> vec \<Rightarrow> vec" where
  "log1pexp L x =
     (let idx0 = find_idx (map (\<lambda>v. v \<le> - 37) x);
          idx1 = find_idx (map (\<lambda>v. v > - 37 \<and> v \<le> 18) x);
          idx2 = find_idx (map (\<lambda>v. v > 18 \<and> v \<le> 333 / 10) x);
          idx3 = find_idx (map (\<lambda>v. v > 333 / 10) x);
          y = zeros (length x);
          y = set_elem y idx0 (map (\<lambda>v. exp v) (elem x idx0));
          y = set_elem y idx1 (map (\<lambda>v. log1p L (exp v)) (elem x idx1));
          y = set_elem y idx2 (map2 (\<lambda>a b. a + b) (elem x idx2) (map (\<lambda>v. exp (0 - v)) (elem x idx2)));
          y = set_elem y idx3 (elem x idx3)
      in y)"

datatype request =
    Randn nat | Randu nat | Randu1 | Randg real real | RandgVec nat real real | PGdraw real vec

datatype kernel_id =
    Normal_big_p | Normal_big_n | Logit_normal_big_n | Logit_normal_big_p
  | Logit_horseshoe_big_n | Logit_horseshoe_big_p
  | Hs_big_p | Hs_big_n | Hs_update | Hs_slice_sampler

datatype event = Enter kernel_id | Draw request

text \<open>
  What a run can be observed to do: the generator state, and the sequence of kernel
  entries and of draws requested so far. The trace is not a variable of the source; it
  records which of its statements have run.
\<close>

record 'g world =
  gen :: 'g
  trace :: "event list"

text \<open>
  A computation reads and advances the world and either fails or returns a value; the
  world survives a failure, as the generator survives a C++ exception.
\<close>

type_synonym ('a, 'g) run = "'g world \<Rightarrow> (error + 'a) \<times> 'g world"

definition ret :: "'a \<Rightarrow> ('a, 'g) run" where
  "ret x w = (Inr x, w)"

definition lift :: "error + 'a \<Rightarrow> ('a, 'g) run" where
  "lift r w = (r, w)"

definition and_then :: "('a, 'g) run \<Rightarrow> ('a \<Rightarrow> ('b, 'g) run) \<Rightarrow> ('b, 'g) run" where
  "and_then m f w = (case m w of (Inl e, w') \<Rightarrow> (Inl e, w') | (Inr x, w') \<Rightarrow> f x w')"

definition enter :: "kernel_id \<Rightarrow> (unit, 'g) run" where
  "enter k w = (Inr (), w\<lparr>trace := trace w @ [Enter k]\<rparr>)"

definition draw_randn :: "'g sampler \<Rightarrow> nat \<Rightarrow> (vec, 'g) run" where
  "draw_randn S k w =
     (case randn_vec S k (gen w) of
        (v, g') \<Rightarrow> (Inr v, \<lparr>gen = g', trace = trace w @ [Draw (Randn k)]\<rparr>))"

definition draw_randu :: "'g sampler \<Rightarrow> nat \<Rightarrow> (vec, 'g) run" where
  "draw_randu S k w =
     (case randu_vec S k (gen w) of
        (v, g') \<Rightarrow> (Inr v, \<lparr>gen = g', trace = trace w @ [Draw (Randu k)]\<rparr>))"

definition draw_randu1 :: "'g sampler \<Rightarrow> (real, 'g) run" where
  "draw_randu1 S w =
     (case randu_dbl S (gen w) of
        (v, g') \<Rightarrow> (Inr v, \<lparr>gen = g', trace = trace w @ [Draw Randu1]\<rparr>))"

definition draw_randg :: "'g sampler \<Rightarrow> real \<Rightarrow> real \<Rightarrow> (real, 'g) run" where
  "draw_randg S shape scale w =
     (case randg_dbl S shape scale (gen w) of
        (v, g') \<Rightarrow> (Inr v, \<lparr>gen = g', trace = trace w @ [Draw (Randg shape scale)]\<rparr>))"

definition draw_randg_vec :: "'g sampler \<Rightarrow> nat \<Rightarrow> real \<Rightarrow> real \<Rightarrow> (vec, 'g) run" where
  "draw_randg_vec S k shape scale w =
     (case randg_vec S k shape scale (gen w) of
        (v, g') \<Rightarrow> (Inr v, \<lparr>gen = g', trace = trace w @ [Draw (RandgVec k shape scale)]\<rparr>))"

definition draw_pg :: "'g sampler \<Rightarrow> real \<Rightarrow> vec \<Rightarrow> (vec, 'g) run" where
  "draw_pg S b c w =
     (case pgdraw S b c (gen w) of
        (v, g') \<Rightarrow> (Inr v, \<lparr>gen = g', trace = trace w @ [Draw (PGdraw b c)]\<rparr>))"

text \<open>\<open>for (int i = 0; i < k; i++) body;\<close> on a state.\<close>

primrec repeat :: "nat \<Rightarrow> ('s \<Rightarrow> ('s, 'g) run) \<Rightarrow> 's \<Rightarrow> ('s, 'g) run" where
  "repeat 0 body s = ret s"
| "repeat (Suc k) body s = and_then (body s) (repeat k body)"

text \<open>
  The sampling loop that every fitting function writes out:
  \<open>for (iter = 0; iter < mcmc_sample; iter++) { for (j = 0; j < thinning; j++) kernel; store(iter); }\<close>.
  The first argument counts the iterations that remain, \<open>iter\<close> is the loop variable,
  \<open>c\<close> the chain state and \<open>l\<close> the lists of stored draws.
\<close>

primrec sampling_loop ::
  "nat \<Rightarrow> nat \<Rightarrow> ('s \<Rightarrow> ('s, 'g) run) \<Rightarrow> (nat \<Rightarrow> 's \<Rightarrow> 'l \<Rightarrow> error + 'l) \<Rightarrow> nat
     \<Rightarrow> 's \<times> 'l \<Rightarrow> ('s \<times> 'l, 'g) run" where
  "sampling_loop 0 thinning step store iter cl = ret cl"
| "sampling_loop (Suc m) thinning step store iter cl =
     and_then (repeat thinning step (fst cl)) (\<lambda>c.
     and_then (lift (store iter c (snd cl))) (\<lambda>l.
     sampling_loop m thinning step store (Suc iter) (c, l)))"

text \<open>The kernel invocations of a trace, in order.\<close>

fun entered :: "event \<Rightarrow> kernel_id list" where
  "entered (Enter k) = [k]"
| "entered (Draw r) = []"

definition kernel_entries :: "event list \<Rightarrow> kernel_id list" where
  "kernel_entries tr = concat (map entered tr)"

text \<open>A computation that invokes no kernel, and one that invokes the kernels \<open>ks\<close> when it returns.\<close>

definition silent :: "('a, 'g) run \<Rightarrow> bool" where
  "silent m = (\<forall>w. kernel_entries (trace (snd (m w))) = kernel_entries (trace w))"

definition invokes :: "kernel_id list \<Rightarrow> ('a, 'g) run \<Rightarrow> bool" where
  "invokes ks m =
     (\<forall>w x w'. m w = (Inr x, w') \<longrightarrow> kernel_entries (trace w') = kernel_entries (trace w) @ ks)"

section \<open>Gaussian regression with the normal prior\<close>

text \<open>
  The variables that the kernels update through their reference parameters. A fitting
  function that has no \<open>sigma2_eps\<close>, \<open>lambda\<close>, \<open>b_lambda\<close> or \<open>omega\<close> never
  reads or writes that field.
\<close>

record chain =
  betacoef :: vec
  sigma2_eps :: real
  tau2 :: real
  b_tau :: real
  lambda :: vec
  b_lambda :: vec
  omega :: vec
  mu :: vec

definition one_step_update_big_p ::
  "'g sampler \<Rightarrow> chain \<Rightarrow> vec \<Rightarrow> mat \<Rightarrow> vec \<Rightarrow> vec \<Rightarrow> vec \<Rightarrow> mat
     \<Rightarrow> real \<Rightarrow> real \<Rightarrow> real \<Rightarrow> nat \<Rightarrow> nat \<Rightarrow> (chain, 'g) run" where
  "one_step_update_big_p S c ys V d d2 y X A2 a_sigma b_sigma p n =
     and_then (enter Normal_big_p) (\<lambda>_.
     and_then (draw_randn S p) (\<lambda>z1.
     let alpha_1 = smul (sqrt (sigma2_eps c * tau2 c)) z1 in
     and_then (draw_randn S n) (\<lambda>z2.
     let alpha_2 = smul (sqrt (sigma2_eps c)) z2 in
     and_then (lift (mat_vec (mat_t V) alpha_1)) (\<lambda>Vt_alpha_1.
     and_then (lift (vmul d Vt_alpha_1)) (\<lambda>d_Vt_alpha_1.
     and_then (lift (vsub ys d_Vt_alpha_1)) (\<lambda>t1.
     and_then (lift (vsub t1 alpha_2)) (\<lambda>t2.
     and_then (lift (vmul t2 d)) (\<lambda>t3.
     and_then (lift (vdiv t3 (sadd 1 (smul (tau2 c) d2)))) (\<lambda>beta_s.
     and_then (lift (mat_vec (mat_smul (tau2 c) V) beta_s)) (\<lambda>tau2_V_beta_s.
     and_then (lift (vadd alpha_1 tau2_V_beta_s)) (\<lambda>betacoef'.
     and_then (lift (mat_vec X betacoef')) (\<lambda>mu'.
     and_then (lift (vsub y mu')) (\<lambda>eps.
     let sum_eps2 = accu (vsq eps);
         sum_beta2 = accu (vsq betacoef') in
     and_then (draw_randg S ((1 + real p) / 2) (1 / (b_tau c + 0.5 * sum_beta2 / sigma2_eps c))) (\<lambda>inv_tau2.
     and_then (draw_randg S 1 (1 / (1 / A2 + inv_tau2))) (\<lambda>b_tau'.
     let tau2' = 1 / inv_tau2 in
     and_then (draw_randg S (a_sigma + real (n + p) / 2)
                 (1 / (b_sigma + 0.5 * sum_beta2 * inv_tau2 + 0.5 * sum_eps2))) (\<lambda>inv_sigma2_eps.
     ret (c\<lparr>betacoef := betacoef', mu := mu', b_tau := b_tau', tau2 := tau2',
              sigma2_eps := 1 / inv_sigma2_eps\<rparr>)))))))))))))))))"

definition one_step_update_big_n ::
  "'g sampler \<Rightarrow> chain \<Rightarrow> vec \<Rightarrow> mat \<Rightarrow> vec \<Rightarrow> vec \<Rightarrow> vec \<Rightarrow> mat
     \<Rightarrow> real \<Rightarrow> real \<Rightarrow> real \<Rightarrow> nat \<Rightarrow> nat \<Rightarrow> (chain, 'g) run" where
  "one_step_update_big_n S c ys V d d2 y X A2 a_sigma b_sigma p n =
     and_then (enter Normal_big_n) (\<lambda>_.
     let inv_tau2 = 1 / tau2 c in
     and_then (draw_randn S p) (\<lambda>z1.
     and_then (lift (vmul z1 (vsqrt (sdiv (sigma2_eps c) (sadd inv_tau2 d2))))) (\<lambda>alpha_1.
     and_then (lift (vmul d ys)) (\<lambda>d_ys.
     and_then (lift (vdiv d_ys (sadd inv_tau2 d2))) (\<lambda>t1.
     and_then (lift (vadd t1 alpha_1)) (\<lambda>beta_s.
     and_then (lift (mat_vec V beta_s)) (\<lambda>betacoef'.
     and_then (lift (vmul d beta_s)) (\<lambda>mu'.
     and_then (lift (vsub ys mu')) (\<lambda>eps.
     let sum_eps2 = accu (vsq eps);
         sum_beta2 = accu (vsq beta_s) in
     and_then (draw_randg S ((1 + real p) / 2) (1 / (b_tau c + 0.5 * sum_beta2 / sigma2_eps c))) (\<lambda>inv_tau2.
     and_then (draw_randg S 1 (1 / (1 / A2 + inv_tau2))) (\<lambda>b_tau'.
     let tau2' = 1 / inv_tau2 in
     and_then (draw_randg S (a_sigma + real p)
                 (1 / (b_sigma + 0.5 * sum_beta2 * inv_tau2 + 0.5 * sum_eps2))) (\<lambda>inv_sigma2_eps.
     ret (c\<lparr>betacoef := betacoef', mu := mu', b_tau := b_tau', tau2 := tau2',
              sigma2_eps := 1 / inv_sigma2_eps\<rparr>)))))))))))))"

text \<open>The three lists of stored draws of \<open>fast_normal_lm\<close>, and the statements that store draw \<open>iter\<close>.\<close>

record lm_lists =
  betacoef_list :: mat
  sigma2_eps_list :: vec
  tau2_list :: vec

definition lm_store :: "nat \<Rightarrow> chain \<Rightarrow> lm_lists \<Rightarrow> error + lm_lists" where
  "lm_store iter c l =
     (case set_col (betacoef_list l) iter (betacoef c) of
        Inl e \<Rightarrow> Inl e
      | Inr bl' \<Rightarrow>
     (case set_at (sigma2_eps_list l) iter (sigma2_eps c) of
        Inl e \<Rightarrow> Inl e
      | Inr sl' \<Rightarrow>
     (case set_at (tau2_list l) iter (tau2 c) of
        Inl e \<Rightarrow> Inl e
      | Inr tl' \<Rightarrow> Inr \<lparr>betacoef_list = bl', sigma2_eps_list = sl', tau2_list = tl'\<rparr>)))"

record lm_post_mean =
  pm_mu :: vec
  pm_betacoef :: vec
  pm_sigma2_eps :: real
  pm_tau2 :: real

text \<open>The returned list: \<open>post_mean\<close> and \<open>mcmc\<close>; the elapsed wall time is not modelled.\<close>

record lm_fit =
  post_mean :: lm_post_mean
  mcmc :: lm_lists

text \<open>
  \<open>fast_normal_lm\<close>. The counts are C++ \<open>int\<close>s: a loop bounded by a negative count
  does not run, and a list cannot be allocated with a negative number of columns.
\<close>

definition fast_normal_lm ::
  "'g sampler \<Rightarrow> linalg \<Rightarrow> vec \<Rightarrow> mat \<Rightarrow> int \<Rightarrow> int \<Rightarrow> int \<Rightarrow> real \<Rightarrow> real \<Rightarrow> real
     \<Rightarrow> (lm_fit, 'g) run" where
  "fast_normal_lm S L y X mcmc_sample burnin thinning a_sigma b_sigma A_tau =
     (case svd_econ L X of (U, d, V) \<Rightarrow>
     let p = n_cols X;
         n = n_rows X;
         sigma2_eps0 = b_sigma / a_sigma;
         A2 = A_tau * A_tau;
         b_tau0 = A2;
         tau20 = b_tau0 in
     and_then (lift (vmul d d)) (\<lambda>d2.
     and_then (lift (mat_vec (mat_t U) y)) (\<lambda>ys.
     let c0 = \<lparr>betacoef = [], sigma2_eps = sigma2_eps0, tau2 = tau20, b_tau = b_tau0,
                lambda = [], b_lambda = [], omega = [], mu = []\<rparr> in
     and_then (lift (if mcmc_sample < 0 then Inl BadSize
                     else Inr \<lparr>betacoef_list = mat_zeros p (nat mcmc_sample),
                               sigma2_eps_list = zeros (nat mcmc_sample),
                               tau2_list = zeros (nat mcmc_sample)\<rparr>)) (\<lambda>l0.
     and_then
       (if p < n
        then and_then
               (repeat (nat burnin)
                  (\<lambda>c. one_step_update_big_n S c ys V d d2 y X A2 a_sigma b_sigma p n) c0) (\<lambda>c.
             sampling_loop (nat mcmc_sample) (nat thinning)
                  (\<lambda>c. one_step_update_big_n S c ys V d d2 y X A2 a_sigma b_sigma p n)
                  lm_store 0 (c, l0))
        else and_then
               (repeat (nat burnin)
                  (\<lambda>c. one_step_update_big_p S c ys V d d2 y X A2 a_sigma b_sigma p n) c0) (\<lambda>c.
             sampling_loop (nat mcmc_sample) (nat thinning)
                  (\<lambda>c. one_step_update_big_p S c ys V d d2 y X A2 a_sigma b_sigma p n)
                  lm_store 0 (c, l0))) (\<lambda>cl.
     let l = snd cl in
     and_then (lift (mean_rows (betacoef_list l))) (\<lambda>betacoef_m.
     and_then (lift (mean_vec (sigma2_eps_list l))) (\<lambda>sigma2_eps_m.
     and_then (lift (mean_vec (tau2_list l))) (\<lambda>tau2_m.
     and_then (lift (mat_vec X betacoef_m)) (\<lambda>mu_m.
     ret \<lparr>post_mean = \<lparr>pm_mu = mu_m, pm_betacoef = betacoef_m,
                         pm_sigma2_eps = sigma2_eps_m, pm_tau2 = tau2_m\<rparr>,
           mcmc = l\<rparr>)))))))))"

text \<open>
  The kernel that a run of \<open>fast_normal_lm\<close> iterates and the chain it starts from, used
  to say which chain state a stored column is.
\<close>

definition lm_kernel ::
  "'g sampler \<Rightarrow> vec \<Rightarrow> mat \<Rightarrow> vec \<Rightarrow> vec \<Rightarrow> vec \<Rightarrow> mat
     \<Rightarrow> real \<Rightarrow> real \<Rightarrow> real \<Rightarrow> nat \<Rightarrow> nat \<Rightarrow> chain \<Rightarrow> (chain, 'g) run" where
  "lm_kernel S ys V d d2 y X A2 a_sigma b_sigma p n =
     (if p < n then (\<lambda>c. one_step_update_big_n S c ys V d d2 y X A2 a_sigma b_sigma p n)
      else (\<lambda>c. one_step_update_big_p S c ys V d d2 y X A2 a_sigma b_sigma p n))"

definition lm_init :: "real \<Rightarrow> real \<Rightarrow> real \<Rightarrow> chain" where
  "lm_init a_sigma b_sigma A_tau =
     \<lparr>betacoef = [], sigma2_eps = b_sigma / a_sigma, tau2 = A_tau * A_tau, b_tau = A_tau * A_tau,
      lambda = [], b_lambda = [], omega = [], mu = []\<rparr>"

definition lm_regime :: "mat \<Rightarrow> kernel_id" where
  "lm_regime X = (if n_cols X < n_rows X then Normal_big_n else Normal_big_p)"

section \<open>A small concrete problem\<close>

text \<open>
  One observation, one predictor: \<open>X = (1)\<close>, \<open>y = (1)\<close>, with the singular value
  decomposition \<open>X = (1) (1) (1)\<close>, and a deterministic sampler that returns zeros for the
  normal, one half for the uniform and ones for the Gamma and Polya-Gamma variates. The
  library of the example solves diagonal systems and computes \<open>expm1\<close> and \<open>log1p\<close>
  exactly.
\<close>

definition X_one :: mat where
  "X_one = \<lparr>n_rows = 1, n_cols = 1, entry = (\<lambda>i j. 1)\<rparr>"

definition const_sampler :: "unit sampler" where
  "const_sampler =
     \<lparr>randn_vec = (\<lambda>k g. (replicate k 0, g)),
      randu_vec = (\<lambda>k g. (replicate k (1 / 2), g)),
      randu_dbl = (\<lambda>g. (1 / 2, g)),
      randg_dbl = (\<lambda>shape scale g. (1, g)),
      randg_vec = (\<lambda>k shape scale g. (replicate k 1, g)),
      pgdraw = (\<lambda>b c g. (replicate (length c) 1, g)),
      pgamma = (\<lambda>q shape rate. 1 / 2),
      qgamma = (\<lambda>p shape rate. 1)\<rparr>"

definition svd_one :: linalg where
  "svd_one =
     \<lparr>svd_econ = (\<lambda>X. (X_one, [1], X_one)),
      chol = (\<lambda>A. Inr A),
      solve = (\<lambda>A b. Inr (map (\<lambda>i. b ! i / entry A i i) [0..<length b])),
      expm1 = (\<lambda>x. exp x - 1),
      log1p = (\<lambda>x. ln (1 + x))\<rparr>"

definition w_start :: "unit world" where
  "w_start = \<lparr>gen = (), trace = []\<rparr>"

text \<open>
  Two observations, one predictor: \<open>X = (1, 0)\<^sup>T\<close> with \<open>U = (1, 0)\<^sup>T\<close>, \<open>d = (1)\<close>,
  \<open>V = (1)\<close>, so that \<open>U\<^sup>T y = (1)\<close> for \<open>y = (1, 1)\<close>.
\<close>

definition X_two :: mat where
  "X_two = \<lparr>n_rows = 2, n_cols = 1, entry = (\<lambda>i j. if i = 0 then 1 else 0)\<rparr>"

section \<open>The truncated normal generator\<close>

text \<open>
  \<open>y.subvec(first, last) = vals\<close> and \<open>idx.subvec(first, last)\<close> as a value. The bounds are
  C++ \<open>int\<close> expressions such as \<open>m - 1\<close>; a bound that is negative or past the end is an
  index out of range.
\<close>

definition set_subvec :: "'a list \<Rightarrow> int \<Rightarrow> int \<Rightarrow> 'a list \<Rightarrow> error + 'a list" where
  "set_subvec y lo hi vals =
     (if 0 \<le> lo \<and> lo \<le> hi \<and> hi < int (length y)
      then (if int (length vals) = hi - lo + 1
            then Inr (take (nat lo) y @ vals @ drop (nat hi + 1) y)
            else Inl IncompatibleDims)
      else Inl IndexOutOfBounds)"

definition subvec :: "'a list \<Rightarrow> int \<Rightarrow> int \<Rightarrow> error + 'a list" where
  "subvec x lo hi =
     (if 0 \<le> lo \<and> lo \<le> hi \<and> hi < int (length x)
      then Inr (take (nat (hi - lo + 1)) (drop (nat lo) x))
      else Inl IndexOutOfBounds)"






text \<open>The statements after the first batch: \<open>m += idx.n_elem\<close> and the first fill of \<open>y\<close>.\<close>

definition first_fill :: "int \<Rightarrow> vec \<Rightarrow> vec \<Rightarrow> uvec \<Rightarrow> error + vec \<times> int" where
  "first_fill n y z idx =
     (let m = int (length idx) in
      if length idx > 0
      then (if m \<le> n
            then (case set_subvec y 0 (m - 1) (elem z idx) of
                    Inl e \<Rightarrow> Inl e | Inr y' \<Rightarrow> Inr (y', m))
            else (case subvec idx 0 (n - 1) of
                    Inl e \<Rightarrow> Inl e | Inr idx' \<Rightarrow> Inr (elem z idx', m)))
      else Inr (y, m))"

text \<open>The body of the \<open>while (m < n)\<close> loop after its batch is drawn.\<close>

definition next_fill :: "int \<Rightarrow> vec \<Rightarrow> int \<Rightarrow> vec \<Rightarrow> uvec \<Rightarrow> error + vec \<times> int" where
  "next_fill n y m z idx =
     (if length idx > 0
      then (if m + int (length idx) \<le> n
            then (case set_subvec y m (m + int (length idx) - 1) (elem z idx) of
                    Inl e \<Rightarrow> Inl e | Inr y' \<Rightarrow> Inr (y', m + int (length idx)))
            else (case subvec idx 0 (n - m - 1) of
                    Inl e \<Rightarrow> Inl e
                  | Inr idx' \<Rightarrow>
                      (case set_subvec y m (n - 1) (elem z idx') of
                         Inl e \<Rightarrow> Inl e | Inr y' \<Rightarrow> Inr (y', m + int (length idx)))))
      else Inr (y, m))"

text \<open>
  \<open>while (m < n) { batch; fill; }\<close>. Nothing bounds the number of rejected batches, so
  the loop is given a number of iterations it may use: \<open>None\<close> is a loop still running
  when they are used up.
\<close>

primrec fill_loop ::
  "nat \<Rightarrow> (int \<Rightarrow> (vec \<times> uvec, 'g) run) \<Rightarrow> int \<Rightarrow> vec \<Rightarrow> int \<Rightarrow> 'g world
     \<Rightarrow> ((error + vec) \<times> 'g world) option" where
  "fill_loop 0 batch n y m w = (if m < n then None else Some (Inr y, w))"
| "fill_loop (Suc fuel) batch n y m w =
     (if m < n
      then (case batch (n - m) w of
              (Inl e, w') \<Rightarrow> Some (Inl e, w')
            | (Inr (z, idx), w') \<Rightarrow>
                (case next_fill n y m z idx of
                   Inl e \<Rightarrow> Some (Inl e, w')
                 | Inr (y', m') \<Rightarrow> fill_loop fuel batch n y' m' w'))
      else Some (Inr y, w))"

definition truncnorm_with ::
  "nat \<Rightarrow> (int \<Rightarrow> (vec \<times> uvec, 'g) run) \<Rightarrow> int \<Rightarrow> vec \<Rightarrow> 'g world
     \<Rightarrow> ((error + vec) \<times> 'g world) option" where
  "truncnorm_with fuel batch n y w =
     (case batch n w of
        (Inl e, w') \<Rightarrow> Some (Inl e, w')
      | (Inr (z, idx), w') \<Rightarrow>
          (case first_fill n y z idx of
             Inl e \<Rightarrow> Some (Inl e, w')
           | Inr (y', m) \<Rightarrow> fill_loop fuel batch n y' m w'))"




text \<open>
  A batch whose accepted indices are indices of its proposals, at proposals that have the
  property \<open>P\<close>; and an output whose first \<open>min m n\<close> slots hold values with \<open>P\<close>.
\<close>

definition good_batch :: "(real \<Rightarrow> bool) \<Rightarrow> (int \<Rightarrow> (vec \<times> uvec, 'g) run) \<Rightarrow> bool" where
  "good_batch P batch =
     (\<forall>k w z idx w'. batch k w = (Inr (z, idx), w') \<longrightarrow> (\<forall>i \<in> set idx. i < length z \<and> P (z ! i)))"

definition filled :: "(real \<Rightarrow> bool) \<Rightarrow> int \<Rightarrow> vec \<Rightarrow> int \<Rightarrow> bool" where
  "filled P n y m = (length y = nat n \<and> 0 \<le> m \<and> (\<forall>i. int i < min m n \<longrightarrow> P (y ! i)))"



section \<open>Further matrix operations of the kernels\<close>

text \<open>\<open>for (int j = 0; j < k; j++) body(j);\<close> with a body that can fail.\<close>

primrec for_upto :: "nat \<Rightarrow> (nat \<Rightarrow> 'a \<Rightarrow> error + 'a) \<Rightarrow> 'a \<Rightarrow> error + 'a" where
  "for_upto 0 body a = Inr a"
| "for_upto (Suc k) body a =
     (case for_upto k body a of Inl e \<Rightarrow> Inl e | Inr a' \<Rightarrow> body k a')"

text \<open>\<open>M.col(j) %= v\<close> and \<open>M.row(i) %= v.t()\<close>.\<close>

definition col_times :: "vec \<Rightarrow> nat \<Rightarrow> mat \<Rightarrow> error + mat" where
  "col_times v j M =
     (if \<not> j < n_cols M then Inl IndexOutOfBounds
      else if length v \<noteq> n_rows M then Inl IncompatibleDims
      else Inr (M\<lparr>entry := (\<lambda>i k. if k = j then entry M i k * v ! i else entry M i k)\<rparr>))"

definition row_times :: "vec \<Rightarrow> nat \<Rightarrow> mat \<Rightarrow> error + mat" where
  "row_times v i M =
     (if \<not> i < n_rows M then Inl IndexOutOfBounds
      else if length v \<noteq> n_cols M then Inl IncompatibleDims
      else Inr (M\<lparr>entry := (\<lambda>k j. if k = i then entry M k j * v ! j else entry M k j)\<rparr>))"

text \<open>\<open>M.each_col() /= v\<close>.\<close>

definition each_col_div :: "mat \<Rightarrow> vec \<Rightarrow> error + mat" where
  "each_col_div M v =
     (if length v = n_rows M then Inr (M\<lparr>entry := (\<lambda>i j. entry M i j / v ! i)\<rparr>)
      else Inl IncompatibleDims)"

text \<open>\<open>M.diag() += c\<close> for a scalar and \<open>M.diag() += v\<close> for a vector.\<close>

definition diag_add :: "real \<Rightarrow> mat \<Rightarrow> mat" where
  "diag_add c M = M\<lparr>entry := (\<lambda>i j. if i = j then entry M i j + c else entry M i j)\<rparr>"

definition diag_add_vec :: "vec \<Rightarrow> mat \<Rightarrow> error + mat" where
  "diag_add_vec v M =
     (if length v = min (n_rows M) (n_cols M)
      then Inr (M\<lparr>entry := (\<lambda>i j. if i = j then entry M i j + v ! i else entry M i j)\<rparr>)
      else Inl IncompatibleDims)"

text \<open>\<open>v / c\<close> for a scalar \<open>c\<close>, and \<open>arma::ones<arma::vec>(k)\<close>.\<close>

definition vscale_div :: "vec \<Rightarrow> real \<Rightarrow> vec" where
  "vscale_div a c = map (\<lambda>x. x / c) a"

definition vones :: "nat \<Rightarrow> vec" where
  "vones k = replicate k 1"

section \<open>Logistic regression with the normal prior\<close>

definition one_step_logit_normal_big_n ::
  "'g sampler \<Rightarrow> linalg \<Rightarrow> chain \<Rightarrow> vec \<Rightarrow> vec \<Rightarrow> mat \<Rightarrow> real \<Rightarrow> nat \<Rightarrow> nat
     \<Rightarrow> (chain, 'g) run" where
  "one_step_logit_normal_big_n S L c y_s Xty_s X A2_tau p n =
     and_then (enter Logit_normal_big_n) (\<lambda>_.
     let inv_tau2 = 1 / tau2 c in
     and_then (lift (for_upto p (col_times (omega c)) X)) (\<lambda>OmegaX.
     and_then (lift (mat_mul (mat_t X) OmegaX)) (\<lambda>XtX.
     let XtX = diag_add inv_tau2 XtX in
     and_then (lift (chol L XtX)) (\<lambda>R.
     and_then (lift (solve L (mat_t R) Xty_s)) (\<lambda>b.
     and_then (draw_randn S p) (\<lambda>alpha.
     and_then (lift (vadd alpha b)) (\<lambda>alpha_b.
     and_then (lift (solve L R alpha_b)) (\<lambda>betacoef'.
     and_then (lift (mat_vec X betacoef')) (\<lambda>mu'.
     and_then (draw_pg S 1 mu') (\<lambda>omega'.
     let sum_beta2 = accu (vsq betacoef') in
     and_then (draw_randg S ((1 + real p) / 2) (1 / (b_tau c + 0.5 * sum_beta2))) (\<lambda>inv_tau2.
     and_then (draw_randg S 1 (1 / (1 / A2_tau + inv_tau2))) (\<lambda>b_tau'.
     ret (c\<lparr>betacoef := betacoef', mu := mu', omega := omega', b_tau := b_tau',
              tau2 := 1 / inv_tau2\<rparr>)))))))))))))"

definition one_step_logit_normal_big_p ::
  "'g sampler \<Rightarrow> linalg \<Rightarrow> chain \<Rightarrow> vec \<Rightarrow> mat \<Rightarrow> mat \<Rightarrow> real \<Rightarrow> nat \<Rightarrow> nat
     \<Rightarrow> (chain, 'g) run" where
  "one_step_logit_normal_big_p S L c y_s XXt X A2_tau p n =
     and_then (enter Logit_normal_big_p) (\<lambda>_.
     let inv_omega = sdiv 1 (omega c) in
     and_then (draw_randn S p) (\<lambda>z1.
     let alpha1 = smul (sqrt (tau2 c)) z1 in
     and_then (draw_randn S n) (\<lambda>z2.
     and_then (lift (vmul z2 (vsqrt inv_omega))) (\<lambda>alpha2.
     let Omega0 = mat_smul (tau2 c) XXt in
     and_then (lift (diag_add_vec inv_omega Omega0)) (\<lambda>Omega0.
     and_then (lift (vmul y_s inv_omega)) (\<lambda>t1.
     and_then (lift (mat_vec X alpha1)) (\<lambda>X_alpha1.
     and_then (lift (vsub t1 X_alpha1)) (\<lambda>t2.
     and_then (lift (vsub t2 alpha2)) (\<lambda>t3.
     and_then (lift (solve L Omega0 t3)) (\<lambda>beta_s.
     and_then (lift (mat_vec (mat_smul (tau2 c) (mat_t X)) beta_s)) (\<lambda>tau2_Xt_beta_s.
     and_then (lift (vadd alpha1 tau2_Xt_beta_s)) (\<lambda>betacoef'.
     and_then (lift (mat_vec X betacoef')) (\<lambda>mu'.
     and_then (draw_pg S 1 mu') (\<lambda>omega'.
     let sum_beta2 = accu (vsq betacoef') in
     and_then (draw_randg S ((1 + real p) / 2) (1 / (b_tau c + 0.5 * sum_beta2))) (\<lambda>inv_tau2.
     and_then (draw_randg S 1 (1 / (1 / A2_tau + inv_tau2))) (\<lambda>b_tau'.
     ret (c\<lparr>betacoef := betacoef', mu := mu', omega := omega', b_tau := b_tau',
              tau2 := 1 / inv_tau2\<rparr>)))))))))))))))))"

text \<open>The stored draws of \<open>fast_normal_logit\<close>; its \<open>mu_list\<close> is allocated and never written.\<close>

record logit_lists =
  lg_betacoef_list :: mat
  lg_tau2_list :: vec

definition logit_store :: "nat \<Rightarrow> chain \<Rightarrow> logit_lists \<Rightarrow> error + logit_lists" where
  "logit_store iter c l =
     (case set_col (lg_betacoef_list l) iter (betacoef c) of
        Inl e \<Rightarrow> Inl e
      | Inr bl' \<Rightarrow>
     (case set_at (lg_tau2_list l) iter (tau2 c) of
        Inl e \<Rightarrow> Inl e
      | Inr tl' \<Rightarrow> Inr \<lparr>lg_betacoef_list = bl', lg_tau2_list = tl'\<rparr>))"

record logit_post_mean =
  lg_betacoef :: vec
  lg_tau2 :: real
  lg_mu :: vec
  lg_prob :: vec

record logit_fit =
  lg_post_mean :: logit_post_mean
  lg_mcmc :: logit_lists

definition fast_normal_logit ::
  "'g sampler \<Rightarrow> linalg \<Rightarrow> vec \<Rightarrow> mat \<Rightarrow> int \<Rightarrow> int \<Rightarrow> int \<Rightarrow> real \<Rightarrow> (logit_fit, 'g) run" where
  "fast_normal_logit S L y X mcmc_sample burnin thinning A_tau =
     (let p = n_cols X;
          n = n_rows X;
          A2_tau = A_tau * A_tau;
          b_tau0 = A2_tau;
          tau20 = b_tau0 in
     and_then (lift (vsub y (smul 0.5 (vones n)))) (\<lambda>y_s.
     and_then (draw_pg S 1 (zeros n)) (\<lambda>omega0.
     let c0 = \<lparr>betacoef = zeros p, sigma2_eps = 1, tau2 = tau20, b_tau = b_tau0,
                lambda = [], b_lambda = [], omega = omega0, mu = zeros n\<rparr> in
     and_then (lift (if mcmc_sample < 0 then Inl BadSize
                     else Inr \<lparr>lg_betacoef_list = mat_zeros p (nat mcmc_sample),
                               lg_tau2_list = zeros (nat mcmc_sample)\<rparr>)) (\<lambda>l0.
     and_then
       (if p < n
        then and_then (lift (mat_vec (mat_t X) y_s)) (\<lambda>Xty_s.
             and_then
               (repeat (nat burnin)
                  (\<lambda>c. one_step_logit_normal_big_n S L c y_s Xty_s X A2_tau p n) c0) (\<lambda>c.
             sampling_loop (nat mcmc_sample) (nat thinning)
                  (\<lambda>c. one_step_logit_normal_big_n S L c y_s Xty_s X A2_tau p n)
                  logit_store 0 (c, l0)))
        else and_then (lift (mat_mul X (mat_t X))) (\<lambda>XXt.
             and_then
               (repeat (nat burnin)
                  (\<lambda>c. one_step_logit_normal_big_p S L c y_s XXt X A2_tau p n) c0) (\<lambda>c.
             sampling_loop (nat mcmc_sample) (nat thinning)
                  (\<lambda>c. one_step_logit_normal_big_p S L c y_s XXt X A2_tau p n)
                  logit_store 0 (c, l0)))) (\<lambda>cl.
     let l = snd cl in
     and_then (lift (mean_rows (lg_betacoef_list l))) (\<lambda>betacoef_m.
     and_then (lift (mean_vec (lg_tau2_list l))) (\<lambda>tau2_m.
     and_then (lift (mat_vec X betacoef_m)) (\<lambda>mu_m.
     ret \<lparr>lg_post_mean = \<lparr>lg_betacoef = betacoef_m, lg_tau2 = tau2_m, lg_mu = mu_m,
                            lg_prob = map (\<lambda>v. 1 / (1 + exp (- v))) mu_m\<rparr>,
           lg_mcmc = l\<rparr>))))))))"

section \<open>Logistic regression with the horseshoe prior\<close>

text \<open>
  The update of the local scales that the horseshoe kernels share, written out in each
  of them in the source: \<open>inv_lambda2 = randg(p) / (b_lambda + 0.5 * betacoef2 / scale)\<close>
  and \<open>b_lambda = randg(p) / (1 / A2_lambda + inv_lambda2)\<close>, where \<open>scale\<close> is
  \<open>tau2\<close> or \<open>tau2 * sigma2_eps\<close> after the divisions of the source.
\<close>

definition one_step_logit_horseshoe_big_n ::
  "'g sampler \<Rightarrow> linalg \<Rightarrow> chain \<Rightarrow> vec \<Rightarrow> vec \<Rightarrow> mat \<Rightarrow> real \<Rightarrow> real \<Rightarrow> nat \<Rightarrow> nat
     \<Rightarrow> (chain, 'g) run" where
  "one_step_logit_horseshoe_big_n S L c y_s Xty_s X A2_tau A2_lambda p n =
     and_then (enter Logit_horseshoe_big_n) (\<lambda>_.
     let inv_tau2 = 1 / tau2 c;
         inv_lambda2 = sdiv 1 (vsq (lambda c)) in
     and_then (lift (for_upto p (col_times (omega c)) X)) (\<lambda>OmegaX.
     and_then (lift (mat_mul (mat_t X) OmegaX)) (\<lambda>XtX.
     and_then (lift (diag_add_vec (smul inv_tau2 inv_lambda2) XtX)) (\<lambda>XtX.
     and_then (lift (chol L XtX)) (\<lambda>R.
     and_then (lift (solve L (mat_t R) Xty_s)) (\<lambda>b.
     and_then (draw_randn S p) (\<lambda>alpha.
     and_then (lift (vadd alpha b)) (\<lambda>alpha_b.
     and_then (lift (solve L R alpha_b)) (\<lambda>betacoef'.
     and_then (lift (mat_vec X betacoef')) (\<lambda>mu'.
     and_then (draw_pg S 1 mu') (\<lambda>omega'.
     let betacoef2 = vsq betacoef' in
     and_then (lift (vmul betacoef2 inv_lambda2)) (\<lambda>b2l.
     let sum_beta2_inv_lambda2 = accu b2l in
     and_then (draw_randg S ((1 + real p) / 2) (1 / (b_tau c + 0.5 * sum_beta2_inv_lambda2))) (\<lambda>inv_tau2.
     and_then (draw_randg S 1 (1 / (1 / A2_tau + inv_tau2))) (\<lambda>b_tau'.
     let tau2' = 1 / inv_tau2 in
     and_then (draw_randg_vec S p 1 1) (\<lambda>g1.
     and_then (lift (vadd (b_lambda c) (vscale_div (smul 0.5 betacoef2) tau2'))) (\<lambda>den.
     and_then (lift (vdiv g1 den)) (\<lambda>inv_lambda2.
     and_then (draw_randg_vec S p 1 1) (\<lambda>g2.
     and_then (lift (vdiv g2 (sadd (1 / A2_lambda) inv_lambda2))) (\<lambda>b_lambda'.
     ret (c\<lparr>betacoef := betacoef', mu := mu', omega := omega', b_tau := b_tau', tau2 := tau2',
              b_lambda := b_lambda', lambda := vsqrt (sdiv 1 inv_lambda2)\<rparr>))))))))))))))))))))"

definition one_step_logit_horseshoe_big_p ::
  "'g sampler \<Rightarrow> linalg \<Rightarrow> chain \<Rightarrow> vec \<Rightarrow> mat \<Rightarrow> real \<Rightarrow> real \<Rightarrow> nat \<Rightarrow> nat
     \<Rightarrow> (chain, 'g) run" where
  "one_step_logit_horseshoe_big_p S L c y_s X A2_tau A2_lambda p n =
     and_then (enter Logit_horseshoe_big_p) (\<lambda>_.
     let inv_omega = sdiv 1 (omega c) in
     and_then (draw_randn S p) (\<lambda>z1.
     and_then (lift (vmul (smul (sqrt (tau2 c)) z1) (lambda c))) (\<lambda>alpha1.
     and_then (draw_randn S n) (\<lambda>z2.
     and_then (lift (vmul z2 (vsqrt inv_omega))) (\<lambda>alpha2.
     and_then (lift (for_upto n (row_times (lambda c)) X)) (\<lambda>XLambda.
     and_then (lift (mat_mul XLambda (mat_t XLambda))) (\<lambda>Omega0.
     and_then (lift (diag_add_vec (vscale_div inv_omega (tau2 c)) Omega0)) (\<lambda>Omega0.
     and_then (lift (vmul y_s inv_omega)) (\<lambda>t1.
     and_then (lift (mat_vec X alpha1)) (\<lambda>X_alpha1.
     and_then (lift (vsub t1 X_alpha1)) (\<lambda>t2.
     and_then (lift (vsub t2 alpha2)) (\<lambda>t3.
     and_then (lift (solve L Omega0 t3)) (\<lambda>beta_s.
     and_then (lift (mat_vec (mat_t XLambda) beta_s)) (\<lambda>XLt_beta_s.
     and_then (lift (vmul (lambda c) XLt_beta_s)) (\<lambda>t4.
     and_then (lift (vadd alpha1 t4)) (\<lambda>betacoef'.
     and_then (lift (mat_vec X betacoef')) (\<lambda>mu'.
     and_then (draw_pg S 1 mu') (\<lambda>omega'.
     let inv_lambda2 = sdiv 1 (vsq (lambda c));
         betacoef2 = vsq betacoef' in
     and_then (lift (vmul betacoef2 inv_lambda2)) (\<lambda>b2l.
     let sum_beta2_inv_lambda2 = accu b2l in
     and_then (draw_randg S ((1 + real p) / 2) (1 / (b_tau c + 0.5 * sum_beta2_inv_lambda2))) (\<lambda>inv_tau2.
     and_then (draw_randg S 1 (1 / (1 / A2_tau + inv_tau2))) (\<lambda>b_tau'.
     let tau2' = 1 / inv_tau2 in
     and_then (draw_randg_vec S p 1 1) (\<lambda>g1.
     and_then (lift (vadd (b_lambda c) (vscale_div (smul 0.5 betacoef2) tau2'))) (\<lambda>den.
     and_then (lift (vdiv g1 den)) (\<lambda>inv_lambda2.
     and_then (draw_randg_vec S p 1 1) (\<lambda>g2.
     and_then (lift (vdiv g2 (sadd (1 / A2_lambda) inv_lambda2))) (\<lambda>b_lambda'.
     ret (c\<lparr>betacoef := betacoef', mu := mu', omega := omega', b_tau := b_tau', tau2 := tau2',
              b_lambda := b_lambda', lambda := vsqrt (sdiv 1 inv_lambda2)\<rparr>)))))))))))))))))))))))))))"

record hs_logit_lists =
  hl_betacoef_list :: mat
  hl_lambda_list :: mat
  hl_tau2_list :: vec

definition hs_logit_store :: "nat \<Rightarrow> chain \<Rightarrow> hs_logit_lists \<Rightarrow> error + hs_logit_lists" where
  "hs_logit_store iter c l =
     (case set_col (hl_betacoef_list l) iter (betacoef c) of
        Inl e \<Rightarrow> Inl e
      | Inr bl' \<Rightarrow>
     (case set_col (hl_lambda_list l) iter (lambda c) of
        Inl e \<Rightarrow> Inl e
      | Inr ll' \<Rightarrow>
     (case set_at (hl_tau2_list l) iter (tau2 c) of
        Inl e \<Rightarrow> Inl e
      | Inr tl' \<Rightarrow> Inr \<lparr>hl_betacoef_list = bl', hl_lambda_list = ll', hl_tau2_list = tl'\<rparr>)))"

text \<open>The \<open>lambda\<close> of the posterior means is the last state of the chain, not a mean.\<close>

record hs_logit_post_mean =
  hl_betacoef :: vec
  hl_tau2 :: real
  hl_lambda :: vec
  hl_mu :: vec
  hl_prob :: vec

record hs_logit_fit =
  hl_post_mean :: hs_logit_post_mean
  hl_mcmc :: hs_logit_lists

definition fast_horseshoe_logit ::
  "'g sampler \<Rightarrow> linalg \<Rightarrow> vec \<Rightarrow> mat \<Rightarrow> int \<Rightarrow> int \<Rightarrow> int \<Rightarrow> real \<Rightarrow> real
     \<Rightarrow> (hs_logit_fit, 'g) run" where
  "fast_horseshoe_logit S L y X mcmc_sample burnin thinning A_tau A_lambda =
     (let p = n_cols X;
          n = n_rows X;
          A2_tau = A_tau * A_tau;
          b_tau0 = A2_tau;
          tau20 = b_tau0;
          A2_lambda = A_lambda * A_lambda in
     and_then (lift (vsub y (smul 0.5 (vones n)))) (\<lambda>y_s.
     and_then (draw_pg S 1 (zeros n)) (\<lambda>omega0.
     let c0 = \<lparr>betacoef = zeros p, sigma2_eps = 1, tau2 = tau20, b_tau = b_tau0,
                lambda = vones p, b_lambda = vones p, omega = omega0, mu = zeros n\<rparr> in
     and_then (lift (if mcmc_sample < 0 then Inl BadSize
                     else Inr \<lparr>hl_betacoef_list = mat_zeros p (nat mcmc_sample),
                               hl_lambda_list = mat_zeros p (nat mcmc_sample),
                               hl_tau2_list = zeros (nat mcmc_sample)\<rparr>)) (\<lambda>l0.
     and_then
       (if p < n
        then and_then (lift (mat_vec (mat_t X) y_s)) (\<lambda>Xty_s.
             and_then
               (repeat (nat burnin)
                  (\<lambda>c. one_step_logit_horseshoe_big_n S L c y_s Xty_s X A2_tau A2_lambda p n) c0) (\<lambda>c.
             sampling_loop (nat mcmc_sample) (nat thinning)
                  (\<lambda>c. one_step_logit_horseshoe_big_n S L c y_s Xty_s X A2_tau A2_lambda p n)
                  hs_logit_store 0 (c, l0)))
        else (let c0 = c0\<lparr>tau2 := 1 / real p\<rparr> in
             and_then
               (repeat (nat burnin)
                  (\<lambda>c. one_step_logit_horseshoe_big_p S L c y_s X A2_tau A2_lambda p n) c0) (\<lambda>c.
             sampling_loop (nat mcmc_sample) (nat thinning)
                  (\<lambda>c. one_step_logit_horseshoe_big_p S L c y_s X A2_tau A2_lambda p n)
                  hs_logit_store 0 (c, l0)))) (\<lambda>cl.
     let l = snd cl in
     and_then (lift (mean_rows (hl_betacoef_list l))) (\<lambda>betacoef_m.
     and_then (lift (mean_vec (hl_tau2_list l))) (\<lambda>tau2_m.
     and_then (lift (mat_vec X betacoef_m)) (\<lambda>mu_m.
     ret \<lparr>hl_post_mean = \<lparr>hl_betacoef = betacoef_m, hl_tau2 = tau2_m, hl_lambda = lambda (fst cl),
                            hl_mu = mu_m, hl_prob = map (\<lambda>v. 1 / (1 + exp (- v))) mu_m\<rparr>,
           hl_mcmc = l\<rparr>))))))))"

section \<open>Gaussian regression with the horseshoe prior\<close>

text \<open>
  In the draws of the noise precision below, \<open>(p + n) / 2\<close> is a division of C++
  \<open>int\<close>s and rounds down.
\<close>

definition hs_one_step_update_big_p ::
  "'g sampler \<Rightarrow> linalg \<Rightarrow> chain \<Rightarrow> vec \<Rightarrow> mat \<Rightarrow> vec \<Rightarrow> vec \<Rightarrow> vec \<Rightarrow> mat \<Rightarrow> mat
     \<Rightarrow> real \<Rightarrow> real \<Rightarrow> real \<Rightarrow> real \<Rightarrow> nat \<Rightarrow> nat \<Rightarrow> (chain, 'g) run" where
  "hs_one_step_update_big_p S L c ys V d d2 y X VD A2_tau A2_lambda a_sigma b_sigma p n =
     and_then (enter Hs_big_p) (\<lambda>_.
     let lambda2 = vsq (lambda c);
         sigma_eps = sqrt (sigma2_eps c);
         tau = sqrt (tau2 c);
         inv_tau2 = 1 / tau2 c in
     and_then (draw_randn S p) (\<lambda>z1.
     and_then (lift (vmul z1 (lambda c))) (\<lambda>z1_lambda.
     let alpha_1 = smul tau (smul sigma_eps z1_lambda) in
     and_then (draw_randn S n) (\<lambda>z2.
     let alpha_2 = smul sigma_eps z2 in
     and_then (lift (for_upto n (col_times (lambda c)) VD)) (\<lambda>LambdaVD.
     and_then (lift (mat_mul (mat_t LambdaVD) LambdaVD)) (\<lambda>Z.
     let Z = diag_add inv_tau2 Z in
     and_then (lift (mat_vec (mat_t VD) alpha_1)) (\<lambda>VDt_alpha_1.
     and_then (lift (vsub ys VDt_alpha_1)) (\<lambda>t1.
     and_then (lift (vsub t1 alpha_2)) (\<lambda>t2.
     and_then (lift (solve L Z t2)) (\<lambda>beta_s.
     and_then (lift (mat_vec VD beta_s)) (\<lambda>VD_beta_s.
     and_then (lift (vmul lambda2 VD_beta_s)) (\<lambda>t3.
     and_then (lift (vadd alpha_1 t3)) (\<lambda>betacoef'.
     let betacoef2 = vsq betacoef' in
     and_then (draw_randg_vec S p 1 1) (\<lambda>g1.
     and_then (lift (vadd (b_lambda c)
                 (vscale_div (vscale_div (smul 0.5 betacoef2) (tau2 c)) (sigma2_eps c)))) (\<lambda>den.
     and_then (lift (vdiv g1 den)) (\<lambda>inv_lambda2.
     and_then (draw_randg_vec S p 1 1) (\<lambda>g2.
     and_then (lift (vdiv g2 (sadd (1 / A2_lambda) inv_lambda2))) (\<lambda>b_lambda'.
     let lambda' = vsqrt (sdiv 1 inv_lambda2) in
     and_then (lift (vmul betacoef2 inv_lambda2)) (\<lambda>b2l.
     let sum_beta2_inv_lambda2 = accu b2l in
     and_then (draw_randg S ((1 + real p) / 2)
                 (1 / (b_tau c + 0.5 * sum_beta2_inv_lambda2 / sigma2_eps c))) (\<lambda>inv_tau2.
     and_then (draw_randg S 1 (1 / (1 / A2_tau + inv_tau2))) (\<lambda>b_tau'.
     let tau2' = 1 / inv_tau2 in
     and_then (lift (mat_vec X betacoef')) (\<lambda>mu'.
     and_then (lift (vsub y mu')) (\<lambda>eps.
     let sum_eps2 = accu (vsq eps) in
     and_then (draw_randg S (a_sigma + real ((p + n) div 2))
                 (1 / (b_sigma + 0.5 * sum_beta2_inv_lambda2 * inv_tau2 + 0.5 * sum_eps2))) (\<lambda>inv_sigma2_eps.
     ret (c\<lparr>betacoef := betacoef', lambda := lambda', b_lambda := b_lambda', b_tau := b_tau',
              tau2 := tau2', mu := mu', sigma2_eps := 1 / inv_sigma2_eps\<rparr>)))))))))))))))))))))))))"

definition hs_one_step_update_big_n ::
  "'g sampler \<Rightarrow> linalg \<Rightarrow> chain \<Rightarrow> vec \<Rightarrow> mat \<Rightarrow> vec \<Rightarrow> vec \<Rightarrow> mat
     \<Rightarrow> real \<Rightarrow> real \<Rightarrow> real \<Rightarrow> real \<Rightarrow> nat \<Rightarrow> nat \<Rightarrow> (chain, 'g) run" where
  "hs_one_step_update_big_n S L c dys V d2 y X A2 A2_lambda a_sigma b_sigma p n =
     and_then (enter Hs_big_n) (\<lambda>_.
     let sigma_eps = sqrt (sigma2_eps c);
         lambda_tau = smul (sqrt (tau2 c)) (lambda c) in
     and_then (lift (each_col_div V lambda_tau)) (\<lambda>V_d_lambda.
     and_then (lift (mat_mul (mat_t V_d_lambda) V_d_lambda)) (\<lambda>VtV.
     and_then (lift (diag_add_vec d2 VtV)) (\<lambda>VtV.
     and_then (lift (chol L VtV)) (\<lambda>R.
     and_then (lift (solve L (mat_t R) (vscale_div dys sigma_eps))) (\<lambda>b.
     and_then (draw_randn S p) (\<lambda>alpha.
     and_then (lift (vadd alpha b)) (\<lambda>alpha_b.
     and_then (lift (solve L R alpha_b)) (\<lambda>s.
     and_then (lift (mat_vec (mat_smul sigma_eps V) s)) (\<lambda>betacoef'.
     let betacoef2 = vsq betacoef' in
     and_then (draw_randg_vec S p 1 1) (\<lambda>g1.
     and_then (lift (vadd (b_lambda c)
                 (vscale_div (vscale_div (smul 0.5 betacoef2) (tau2 c)) (sigma2_eps c)))) (\<lambda>den.
     and_then (lift (vdiv g1 den)) (\<lambda>inv_lambda2.
     let lambda' = vsqrt (sdiv 1 inv_lambda2) in
     and_then (draw_randg_vec S p 1 1) (\<lambda>g2.
     and_then (lift (vdiv g2 (sadd (1 / A2_lambda) inv_lambda2))) (\<lambda>b_lambda'.
     and_then (lift (mat_vec X betacoef')) (\<lambda>mu'.
     and_then (lift (vsub y mu')) (\<lambda>eps.
     let sum_eps2 = accu (vsq eps) in
     and_then (lift (vmul betacoef2 inv_lambda2)) (\<lambda>b2l.
     let sum_beta2_inv_lambda2 = accu b2l in
     and_then (draw_randg S ((1 + real p) / 2)
                 (1 / (b_tau c + 0.5 * sum_beta2_inv_lambda2 / sigma2_eps c))) (\<lambda>inv_tau2.
     and_then (draw_randg S 1 (1 / (1 / A2 + inv_tau2))) (\<lambda>b_tau'.
     let tau2' = 1 / inv_tau2 in
     and_then (draw_randg S (a_sigma + real ((p + n) div 2))
                 (1 / (b_sigma + 0.5 * sum_beta2_inv_lambda2 * inv_tau2 + 0.5 * sum_eps2))) (\<lambda>inv_sigma2_eps.
     ret (c\<lparr>betacoef := betacoef', lambda := lambda', b_lambda := b_lambda', mu := mu',
              b_tau := b_tau', tau2 := tau2', sigma2_eps := 1 / inv_sigma2_eps\<rparr>))))))))))))))))))))))"

definition hs_one_step_update ::
  "'g sampler \<Rightarrow> linalg \<Rightarrow> chain \<Rightarrow> vec \<Rightarrow> mat
     \<Rightarrow> real \<Rightarrow> real \<Rightarrow> real \<Rightarrow> real \<Rightarrow> nat \<Rightarrow> nat \<Rightarrow> (chain, 'g) run" where
  "hs_one_step_update S L c y X A2 A2_lambda a_sigma b_sigma p n =
     and_then (enter Hs_update) (\<lambda>_.
     let sigma_eps = sqrt (sigma2_eps c);
         tau = sqrt (tau2 c);
         inv_tau2 = 1 / tau2 c in
     and_then (draw_randn S p) (\<lambda>z1.
     and_then (lift (vmul z1 (lambda c))) (\<lambda>z1_lambda.
     let alpha_1 = smul tau (smul sigma_eps z1_lambda) in
     and_then (draw_randn S n) (\<lambda>z2.
     let alpha_2 = smul sigma_eps z2 in
     and_then (lift (for_upto n (row_times (lambda c)) X)) (\<lambda>XLambda.
     and_then (lift (mat_mul XLambda (mat_t XLambda))) (\<lambda>Z.
     let Z = diag_add inv_tau2 Z in
     and_then (lift (mat_vec X alpha_1)) (\<lambda>X_alpha_1.
     and_then (lift (vsub y X_alpha_1)) (\<lambda>t1.
     and_then (lift (vsub t1 alpha_2)) (\<lambda>t2.
     and_then (lift (solve L Z t2)) (\<lambda>beta_s.
     and_then (lift (mat_vec (mat_t XLambda) beta_s)) (\<lambda>XLt_beta_s.
     and_then (lift (vmul (lambda c) XLt_beta_s)) (\<lambda>t3.
     and_then (lift (vadd alpha_1 t3)) (\<lambda>betacoef'.
     let betacoef2 = vsq betacoef' in
     and_then (draw_randg_vec S p 1 1) (\<lambda>g1.
     and_then (lift (vadd (b_lambda c)
                 (vscale_div (vscale_div (smul 0.5 betacoef2) (tau2 c)) (sigma2_eps c)))) (\<lambda>den.
     and_then (lift (vdiv g1 den)) (\<lambda>inv_lambda2.
     and_then (draw_randg_vec S p 1 1) (\<lambda>g2.
     and_then (lift (vdiv g2 (sadd (1 / A2_lambda) inv_lambda2))) (\<lambda>b_lambda'.
     let lambda' = vsqrt (sdiv 1 inv_lambda2) in
     and_then (lift (mat_vec X betacoef')) (\<lambda>mu'.
     and_then (lift (vsub y mu')) (\<lambda>eps.
     let sum_eps2 = accu (vsq eps) in
     and_then (lift (vmul betacoef2 inv_lambda2)) (\<lambda>b2l.
     let sum_beta2_inv_lambda2 = accu b2l in
     and_then (draw_randg S (a_sigma + real ((p + n) div 2))
                 (1 / (b_sigma + 0.5 * sum_beta2_inv_lambda2 * inv_tau2 + 0.5 * sum_eps2))) (\<lambda>inv_sigma2_eps.
     and_then (draw_randg S ((1 + real p) / 2)
                 (1 / (b_tau c + 0.5 * sum_beta2_inv_lambda2 * inv_sigma2_eps))) (\<lambda>inv_tau2.
     and_then (draw_randg S 1 (1 / (1 / A2 + inv_tau2))) (\<lambda>b_tau'.
     ret (c\<lparr>betacoef := betacoef', lambda := lambda', b_lambda := b_lambda', mu := mu',
              sigma2_eps := 1 / inv_sigma2_eps, b_tau := b_tau', tau2 := 1 / inv_tau2\<rparr>)))))))))))))))))))))))))"

text \<open>
  The quotient \<open>- log1p(...) / B\<close> of the slice sampler. \<open>B\<close> is \<open>0.5 * betacoef\<^sup>2 / tau2 /
  sigma2_eps\<close> and has a zero entry where a coefficient is zero; the source divides
  without a test, and the quotient there is \<open>0 / 0\<close>, not a number (a nonzero numerator
  would give an infinity). Every value the source computes from it afterwards,
  \<open>lambda\<close>, \<open>tau2\<close>, \<open>sigma2_eps\<close> and all the later draws, is not a number
  either. The run has left the real numbers at this point, and is ended here with
  \<open>NotFinite\<close>.
\<close>

definition vdiv_finite :: "vec \<Rightarrow> vec \<Rightarrow> error + vec" where
  "vdiv_finite a b =
     (if length a \<noteq> length b then Inl IncompatibleDims
      else if 0 \<in> set b then Inl NotFinite
      else Inr (map2 (\<lambda>x y. x / y) a b))"

text \<open>
  The slice sampler. Its reference parameters \<open>u_tau\<close> and \<open>u_lambda\<close> are bound by the
  caller to the variables \<open>b_tau\<close> and \<open>b_lambda\<close>.
\<close>

definition hs_one_step_update_slice_sampler ::
  "'g sampler \<Rightarrow> linalg \<Rightarrow> chain \<Rightarrow> vec \<Rightarrow> mat
     \<Rightarrow> real \<Rightarrow> real \<Rightarrow> real \<Rightarrow> real \<Rightarrow> nat \<Rightarrow> nat \<Rightarrow> (chain, 'g) run" where
  "hs_one_step_update_slice_sampler S L c y X A2_tau A2_lambda a_sigma b_sigma p n =
     and_then (enter Hs_slice_sampler) (\<lambda>_.
     let sigma_eps = sqrt (sigma2_eps c);
         tau = sqrt (tau2 c);
         inv_tau2 = 1 / tau2 c in
     and_then (draw_randn S p) (\<lambda>z1.
     and_then (lift (vmul z1 (lambda c))) (\<lambda>z1_lambda.
     let alpha_1 = smul tau (smul sigma_eps z1_lambda) in
     and_then (draw_randn S n) (\<lambda>z2.
     let alpha_2 = smul sigma_eps z2 in
     and_then (lift (for_upto n (row_times (lambda c)) X)) (\<lambda>XLambda.
     and_then (lift (mat_mul XLambda (mat_t XLambda))) (\<lambda>Z.
     let Z = diag_add inv_tau2 Z in
     and_then (lift (mat_vec X alpha_1)) (\<lambda>X_alpha_1.
     and_then (lift (vsub y X_alpha_1)) (\<lambda>t1.
     and_then (lift (vsub t1 alpha_2)) (\<lambda>t2.
     and_then (lift (solve L Z t2)) (\<lambda>beta_s.
     and_then (lift (mat_vec (mat_t XLambda) beta_s)) (\<lambda>XLt_beta_s.
     and_then (lift (vmul (lambda c) XLt_beta_s)) (\<lambda>t3.
     and_then (lift (vadd alpha_1 t3)) (\<lambda>betacoef'.
     let betacoef2 = vsq betacoef';
         B = vscale_div (vscale_div (smul 0.5 betacoef2) (tau2 c)) (sigma2_eps c);
         inv_lambda2 = sdiv 1 (vsq (lambda c)) in
     and_then (draw_randu S p) (\<lambda>r1.
     and_then (lift (vmul r1 (sdiv A2_lambda (sadd 1 (smul A2_lambda inv_lambda2))))) (\<lambda>u_lambda.
     and_then (draw_randu S p) (\<lambda>upsilon.
     let C = map (\<lambda>u. 1 / u - 1 / A2_lambda) u_lambda in
     and_then (lift (vmul (map uminus B) C)) (\<lambda>mBC.
     and_then (lift (vmul (map uminus upsilon) (map (\<lambda>x. 1 - exp x) mBC))) (\<lambda>t4.
     and_then (lift (vdiv_finite (map (\<lambda>x. - log1p L x) t4) B)) (\<lambda>inv_lambda2.
     let lambda' = vsqrt (sdiv 1 inv_lambda2) in
     and_then (lift (vmul betacoef2 inv_lambda2)) (\<lambda>b2l.
     let sum_beta2_inv_lambda2 = accu b2l;
         B_tau = 0.5 * sum_beta2_inv_lambda2 / sigma2_eps c in
     and_then (draw_randu1 S) (\<lambda>r2.
     let u_tau = r2 * (A2_tau / (1 + A2_tau * inv_tau2));
         C_tau = 1 / u_tau - 1 / A2_tau;
         F_C_tau = pgamma S C_tau ((real p + 1) / 2) B_tau in
     and_then (draw_randu1 S) (\<lambda>r3.
     let inv_tau2 = qgamma S (r3 * F_C_tau) ((real p + 1) / 2) B_tau;
         tau2' = 1 / inv_tau2 in
     and_then (lift (mat_vec X betacoef')) (\<lambda>mu'.
     and_then (lift (vsub y mu')) (\<lambda>eps.
     let sum_eps2 = accu (vsq eps) in
     and_then (draw_randg S (a_sigma + real ((p + n) div 2))
                 (1 / (b_sigma + 0.5 * sum_beta2_inv_lambda2 * inv_tau2 + 0.5 * sum_eps2))) (\<lambda>inv_sigma2_eps.
     ret (c\<lparr>betacoef := betacoef', b_lambda := u_lambda, lambda := lambda', b_tau := u_tau,
              tau2 := tau2', mu := mu', sigma2_eps := 1 / inv_sigma2_eps\<rparr>))))))))))))))))))))))))))"

text \<open>The four lists of stored draws of the horseshoe Gaussian fits.\<close>

record hs_lists =
  hs_betacoef_list :: mat
  hs_lambda_list :: mat
  hs_sigma2_eps_list :: vec
  hs_tau2_list :: vec

definition hs_store :: "nat \<Rightarrow> chain \<Rightarrow> hs_lists \<Rightarrow> error + hs_lists" where
  "hs_store iter c l =
     (case set_col (hs_betacoef_list l) iter (betacoef c) of
        Inl e \<Rightarrow> Inl e
      | Inr bl' \<Rightarrow>
     (case set_col (hs_lambda_list l) iter (lambda c) of
        Inl e \<Rightarrow> Inl e
      | Inr ll' \<Rightarrow>
     (case set_at (hs_sigma2_eps_list l) iter (sigma2_eps c) of
        Inl e \<Rightarrow> Inl e
      | Inr sl' \<Rightarrow>
     (case set_at (hs_tau2_list l) iter (tau2 c) of
        Inl e \<Rightarrow> Inl e
      | Inr tl' \<Rightarrow> Inr \<lparr>hs_betacoef_list = bl', hs_lambda_list = ll',
                         hs_sigma2_eps_list = sl', hs_tau2_list = tl'\<rparr>))))"

definition hs_lists_zeros :: "nat \<Rightarrow> int \<Rightarrow> error + hs_lists" where
  "hs_lists_zeros p mcmc_sample =
     (if mcmc_sample < 0 then Inl BadSize
      else Inr \<lparr>hs_betacoef_list = mat_zeros p (nat mcmc_sample),
                hs_lambda_list = mat_zeros p (nat mcmc_sample),
                hs_sigma2_eps_list = zeros (nat mcmc_sample),
                hs_tau2_list = zeros (nat mcmc_sample)\<rparr>)"

record hs_post_mean =
  hs_mu :: vec
  hs_betacoef :: vec
  hs_lambda :: vec
  hs_sigma2_eps :: real
  hs_tau2 :: real

record hs_fit =
  hs_post_mean :: hs_post_mean
  hs_mcmc :: hs_lists

text \<open>The statements after the loops, the same in the three horseshoe Gaussian fits.\<close>

definition hs_summary :: "mat \<Rightarrow> hs_lists \<Rightarrow> (hs_fit, 'g) run" where
  "hs_summary X l =
     and_then (lift (mean_rows (hs_betacoef_list l))) (\<lambda>betacoef_m.
     and_then (lift (mean_rows (hs_lambda_list l))) (\<lambda>lambda_m.
     and_then (lift (mean_vec (hs_sigma2_eps_list l))) (\<lambda>sigma2_eps_m.
     and_then (lift (mean_vec (hs_tau2_list l))) (\<lambda>tau2_m.
     and_then (lift (mat_vec X betacoef_m)) (\<lambda>mu_m.
     ret \<lparr>hs_post_mean = \<lparr>hs_mu = mu_m, hs_betacoef = betacoef_m, hs_lambda = lambda_m,
                            hs_sigma2_eps = sigma2_eps_m, hs_tau2 = tau2_m\<rparr>,
           hs_mcmc = l\<rparr>)))))"

text \<open>
  The initial values of the three fits: \<open>double sigma2_eps = 1; if (a_sigma != 0.0)
  sigma2_eps = b_sigma / a_sigma;\<close>, \<open>b_tau = 1\<close>, \<open>tau2 = 1.0 / p\<close>, \<open>lambda\<close> and
  \<open>b_lambda\<close> vectors of ones, \<open>betacoef\<close> and \<open>mu\<close> empty.
\<close>

definition fast_horseshoe_lm_init :: "real \<Rightarrow> real \<Rightarrow> nat \<Rightarrow> chain" where
  "fast_horseshoe_lm_init a_sigma b_sigma p =
     \<lparr>betacoef = [], sigma2_eps = (if a_sigma \<noteq> 0 then b_sigma / a_sigma else 1),
      tau2 = 1 / real p, b_tau = 1, lambda = vones p, b_lambda = vones p, omega = [], mu = []\<rparr>"

definition fast_horseshoe_ss_lm_init :: "real \<Rightarrow> real \<Rightarrow> nat \<Rightarrow> chain" where
  "fast_horseshoe_ss_lm_init a_sigma b_sigma p =
     \<lparr>betacoef = [], sigma2_eps = (if a_sigma \<noteq> 0 then b_sigma / a_sigma else 1),
      tau2 = 1 / real p, b_tau = 1, lambda = vones p, b_lambda = vones p, omega = [], mu = []\<rparr>"

definition fast_horseshoe_hd_lm_init :: "real \<Rightarrow> real \<Rightarrow> nat \<Rightarrow> chain" where
  "fast_horseshoe_hd_lm_init a_sigma b_sigma p =
     \<lparr>betacoef = [], sigma2_eps = (if a_sigma \<noteq> 0 then b_sigma / a_sigma else 1),
      tau2 = 1 / real p, b_tau = 1, lambda = vones p, b_lambda = vones p, omega = [], mu = []\<rparr>"

definition fast_horseshoe_lm ::
  "'g sampler \<Rightarrow> linalg \<Rightarrow> vec \<Rightarrow> mat \<Rightarrow> int \<Rightarrow> int \<Rightarrow> int \<Rightarrow> real \<Rightarrow> real \<Rightarrow> real \<Rightarrow> real
     \<Rightarrow> (hs_fit, 'g) run" where
  "fast_horseshoe_lm S L y X mcmc_sample burnin thinning a_sigma b_sigma A_tau A_lambda =
     (case svd_econ L X of (U, d, V) \<Rightarrow>
     let p = n_cols X;
         n = n_rows X;
         c0 = fast_horseshoe_lm_init a_sigma b_sigma p;
         A2 = A_tau * A_tau;
         A2_lambda = A_lambda * A_lambda in
     and_then (lift (vmul d d)) (\<lambda>d2.
     and_then (lift (mat_vec (mat_t U) y)) (\<lambda>ys.
     and_then (lift (vmul d ys)) (\<lambda>dys.
     and_then (lift (hs_lists_zeros p mcmc_sample)) (\<lambda>l0.
     and_then
       (if p < n
        then and_then
               (repeat (nat burnin)
                  (\<lambda>c. hs_one_step_update_big_n S L c dys V d2 y X A2 A2_lambda a_sigma b_sigma p n)
                  c0) (\<lambda>c.
             sampling_loop (nat mcmc_sample) (nat thinning)
                  (\<lambda>c. hs_one_step_update_big_n S L c dys V d2 y X A2 A2_lambda a_sigma b_sigma p n)
                  hs_store 0 (c, l0))
        else and_then (lift (for_upto p (row_times d) V)) (\<lambda>VD.
             and_then
               (repeat (nat burnin)
                  (\<lambda>c. hs_one_step_update_big_p S L c ys V d d2 y X VD A2 A2_lambda a_sigma b_sigma p n)
                  c0) (\<lambda>c.
             sampling_loop (nat mcmc_sample) (nat thinning)
                  (\<lambda>c. hs_one_step_update_big_p S L c ys V d d2 y X VD A2 A2_lambda a_sigma b_sigma p n)
                  hs_store 0 (c, l0)))) (\<lambda>cl.
     hs_summary X (snd cl)))))))"

definition fast_horseshoe_ss_lm ::
  "'g sampler \<Rightarrow> linalg \<Rightarrow> vec \<Rightarrow> mat \<Rightarrow> int \<Rightarrow> int \<Rightarrow> int \<Rightarrow> real \<Rightarrow> real \<Rightarrow> real \<Rightarrow> real
     \<Rightarrow> (hs_fit, 'g) run" where
  "fast_horseshoe_ss_lm S L y X mcmc_sample burnin thinning a_sigma b_sigma A_tau A_lambda =
     (let p = n_cols X;
          n = n_rows X;
          c0 = fast_horseshoe_ss_lm_init a_sigma b_sigma p;
          A2 = A_tau * A_tau;
          A2_lambda = A_lambda * A_lambda in
     and_then (lift (hs_lists_zeros p mcmc_sample)) (\<lambda>l0.
     and_then
       (if p < n
        then (case svd_econ L X of (U, d, V) \<Rightarrow>
             and_then (lift (vmul d d)) (\<lambda>d2.
             and_then (lift (mat_vec (mat_t U) y)) (\<lambda>Uty.
             and_then (lift (vmul d Uty)) (\<lambda>dys.
             and_then
               (repeat (nat burnin)
                  (\<lambda>c. hs_one_step_update_big_n S L c dys V d2 y X A2 A2_lambda a_sigma b_sigma p n)
                  c0) (\<lambda>c.
             sampling_loop (nat mcmc_sample) (nat thinning)
                  (\<lambda>c. hs_one_step_update_big_n S L c dys V d2 y X A2 A2_lambda a_sigma b_sigma p n)
                  hs_store 0 (c, l0))))))
        else and_then
               (repeat (nat burnin)
                  (\<lambda>c. hs_one_step_update_slice_sampler S L c y X A2 A2_lambda a_sigma b_sigma p n)
                  c0) (\<lambda>c.
             sampling_loop (nat mcmc_sample) (nat thinning)
                  (\<lambda>c. hs_one_step_update_slice_sampler S L c y X A2 A2_lambda a_sigma b_sigma p n)
                  hs_store 0 (c, l0))) (\<lambda>cl.
     hs_summary X (snd cl))))"

definition fast_horseshoe_hd_lm ::
  "'g sampler \<Rightarrow> linalg \<Rightarrow> vec \<Rightarrow> mat \<Rightarrow> int \<Rightarrow> int \<Rightarrow> int \<Rightarrow> real \<Rightarrow> real \<Rightarrow> real \<Rightarrow> real
     \<Rightarrow> (hs_fit, 'g) run" where
  "fast_horseshoe_hd_lm S L y X mcmc_sample burnin thinning a_sigma b_sigma A_tau A_lambda =
     (let p = n_cols X;
          n = n_rows X;
          c0 = fast_horseshoe_hd_lm_init a_sigma b_sigma p;
          A2 = A_tau * A_tau;
          A2_lambda = A_lambda * A_lambda in
     and_then (lift (hs_lists_zeros p mcmc_sample)) (\<lambda>l0.
     and_then
       (if p < n
        then (case svd_econ L X of (U, d, V) \<Rightarrow>
             and_then (lift (vmul d d)) (\<lambda>d2.
             and_then (lift (mat_vec (mat_t U) y)) (\<lambda>Uty.
             and_then (lift (vmul d Uty)) (\<lambda>dys.
             and_then
               (repeat (nat burnin)
                  (\<lambda>c. hs_one_step_update_big_n S L c dys V d2 y X A2 A2_lambda a_sigma b_sigma p n)
                  c0) (\<lambda>c.
             sampling_loop (nat mcmc_sample) (nat thinning)
                  (\<lambda>c. hs_one_step_update_big_n S L c dys V d2 y X A2 A2_lambda a_sigma b_sigma p n)
                  hs_store 0 (c, l0))))))
        else and_then
               (repeat (nat burnin)
                  (\<lambda>c. hs_one_step_update S L c y X A2 A2_lambda a_sigma b_sigma p n)
                  c0) (\<lambda>c.
             sampling_loop (nat mcmc_sample) (nat thinning)
                  (\<lambda>c. hs_one_step_update S L c y X A2 A2_lambda a_sigma b_sigma p n)
                  hs_store 0 (c, l0))) (\<lambda>cl.
     hs_summary X (snd cl))))"

section \<open>The regime of a run\<close>

text \<open>
  The kernel variant that each fitting function selects from the shape of \<open>X\<close>, and the
  property of a computation that every kernel it invokes, whether it returns or fails,
  is the variant \<open>K\<close>.
\<close>

definition logit_regime :: "mat \<Rightarrow> kernel_id" where
  "logit_regime X = (if n_cols X < n_rows X then Logit_normal_big_n else Logit_normal_big_p)"

definition hs_logit_regime :: "mat \<Rightarrow> kernel_id" where
  "hs_logit_regime X =
     (if n_cols X < n_rows X then Logit_horseshoe_big_n else Logit_horseshoe_big_p)"

definition hs_lm_regime :: "mat \<Rightarrow> kernel_id" where
  "hs_lm_regime X = (if n_cols X < n_rows X then Hs_big_n else Hs_big_p)"

definition hs_ss_regime :: "mat \<Rightarrow> kernel_id" where
  "hs_ss_regime X = (if n_cols X < n_rows X then Hs_big_n else Hs_slice_sampler)"

definition hs_hd_regime :: "mat \<Rightarrow> kernel_id" where
  "hs_hd_regime X = (if n_cols X < n_rows X then Hs_big_n else Hs_update)"

definition only :: "kernel_id \<Rightarrow> ('a, 'g) run \<Rightarrow> bool" where
  "only K m =
     (\<forall>w. \<exists>k. kernel_entries (trace (snd (m w))) = kernel_entries (trace w) @ replicate k K)"

text \<open>A second decomposition of \<open>X_two\<close>, for the functions that take it from the library.\<close>

definition svd_two :: linalg where
  "svd_two =
     \<lparr>svd_econ = (\<lambda>X. (X_two, [1], X_one)),
      chol = (\<lambda>A. Inr A),
      solve = (\<lambda>A b. Inr (map (\<lambda>i. b ! i / entry A i i) [0..<length b])),
      expm1 = (\<lambda>x. exp x - 1),
      log1p = (\<lambda>x. ln (1 + x))\<rparr>"

section \<open>Positivity of the variance components\<close>

text \<open>
  A sampler whose Gamma and Polya-Gamma variates are strictly positive; a chain whose noise
  variance, global scale, local scales and Polya-Gamma weights are strictly positive; and
  a chain whose auxiliary rates \<open>b_lambda\<close> are.
\<close>

definition positive_sampler :: "'g sampler \<Rightarrow> bool" where
  "positive_sampler S =
     ((\<forall>shape scale g. 0 < fst (randg_dbl S shape scale g))
    \<and> (\<forall>k shape scale g. list_all (\<lambda>v. 0 < v) (fst (randg_vec S k shape scale g)))
    \<and> (\<forall>b c g. list_all (\<lambda>v. 0 < v) (fst (pgdraw S b c g))))"

definition positive_state :: "chain \<Rightarrow> bool" where
  "positive_state c =
     (0 < sigma2_eps c \<and> 0 < tau2 c \<and> list_all (\<lambda>v. 0 < v) (lambda c)
      \<and> list_all (\<lambda>v. 0 < v) (omega c))"

definition positive_rates :: "chain \<Rightarrow> bool" where
  "positive_rates c = list_all (\<lambda>v. 0 < v) (b_lambda c)"

text \<open>
  The kernels that draw every variance component from Gamma variates (and the weights
  from the Polya-Gamma sampler): all the kernels of the source but the slice sampler.
  \<open>A2_lambda\<close> is the square of a scale \<open>A_lambda\<close> that is not zero.
\<close>

inductive_set gamma_kernels :: "'g sampler \<Rightarrow> linalg \<Rightarrow> (chain \<Rightarrow> (chain, 'g) run) set"
  for S :: "'g sampler" and L :: linalg where
  normal_big_p:
    "(\<lambda>c. one_step_update_big_p S c ys V d d2 y X A2 a_sigma b_sigma p n) \<in> gamma_kernels S L"
| normal_big_n:
    "(\<lambda>c. one_step_update_big_n S c ys V d d2 y X A2 a_sigma b_sigma p n) \<in> gamma_kernels S L"
| logit_normal_big_n:
    "(\<lambda>c. one_step_logit_normal_big_n S L c y_s Xty_s X A2_tau p n) \<in> gamma_kernels S L"
| logit_normal_big_p:
    "(\<lambda>c. one_step_logit_normal_big_p S L c y_s XXt X A2_tau p n) \<in> gamma_kernels S L"
| logit_horseshoe_big_n:
    "0 < A2_lambda \<Longrightarrow>
     (\<lambda>c. one_step_logit_horseshoe_big_n S L c y_s Xty_s X A2_tau A2_lambda p n)
       \<in> gamma_kernels S L"
| logit_horseshoe_big_p:
    "0 < A2_lambda \<Longrightarrow>
     (\<lambda>c. one_step_logit_horseshoe_big_p S L c y_s X A2_tau A2_lambda p n) \<in> gamma_kernels S L"
| hs_big_p:
    "0 < A2_lambda \<Longrightarrow>
     (\<lambda>c. hs_one_step_update_big_p S L c ys V d d2 y X VD A2_tau A2_lambda a_sigma b_sigma p n)
       \<in> gamma_kernels S L"
| hs_big_n:
    "0 < A2_lambda \<Longrightarrow>
     (\<lambda>c. hs_one_step_update_big_n S L c dys V d2 y X A2 A2_lambda a_sigma b_sigma p n)
       \<in> gamma_kernels S L"
| hs_update:
    "0 < A2_lambda \<Longrightarrow>
     (\<lambda>c. hs_one_step_update S L c y X A2 A2_lambda a_sigma b_sigma p n) \<in> gamma_kernels S L"

text \<open>
  Stored draws: the first \<open>k\<close> entries of a list of scalars, and the first \<open>k\<close> columns of a
  list of vectors, are strictly positive.
\<close>

definition pos_vec_upto :: "nat \<Rightarrow> vec \<Rightarrow> bool" where
  "pos_vec_upto k v = list_all (\<lambda>x. 0 < x) (take k v)"

definition pos_cols_upto :: "nat \<Rightarrow> mat \<Rightarrow> bool" where
  "pos_cols_upto k M = list_all (\<lambda>j. list_all (\<lambda>x. 0 < x) (col M j)) [0..<k]"

definition pos_lm_lists :: "nat \<Rightarrow> lm_lists \<Rightarrow> bool" where
  "pos_lm_lists k l = (pos_vec_upto k (sigma2_eps_list l) \<and> pos_vec_upto k (tau2_list l))"

definition pos_logit_lists :: "nat \<Rightarrow> logit_lists \<Rightarrow> bool" where
  "pos_logit_lists k l = pos_vec_upto k (lg_tau2_list l)"

definition pos_hs_logit_lists :: "nat \<Rightarrow> hs_logit_lists \<Rightarrow> bool" where
  "pos_hs_logit_lists k l = (pos_cols_upto k (hl_lambda_list l) \<and> pos_vec_upto k (hl_tau2_list l))"

definition pos_hs_lists :: "nat \<Rightarrow> hs_lists \<Rightarrow> bool" where
  "pos_hs_lists k l =
     (pos_cols_upto k (hs_lambda_list l) \<and> pos_vec_upto k (hs_sigma2_eps_list l)
      \<and> pos_vec_upto k (hs_tau2_list l))"

text \<open>
  The same for lists of exactly \<open>N\<close> draws, as the sampling loop keeps them while it
  fills them; and a list of vectors all of whose columns are strictly positive.
\<close>

definition lm_lists_inv :: "nat \<Rightarrow> nat \<Rightarrow> lm_lists \<Rightarrow> bool" where
  "lm_lists_inv N k l =
     (pos_lm_lists k l \<and> length (sigma2_eps_list l) = N \<and> length (tau2_list l) = N)"

definition logit_lists_inv :: "nat \<Rightarrow> nat \<Rightarrow> logit_lists \<Rightarrow> bool" where
  "logit_lists_inv N k l = (pos_logit_lists k l \<and> length (lg_tau2_list l) = N)"

definition hs_logit_lists_inv :: "nat \<Rightarrow> nat \<Rightarrow> hs_logit_lists \<Rightarrow> bool" where
  "hs_logit_lists_inv N k l =
     (pos_hs_logit_lists k l \<and> n_cols (hl_lambda_list l) = N \<and> length (hl_tau2_list l) = N)"

definition hs_lists_inv :: "nat \<Rightarrow> nat \<Rightarrow> hs_lists \<Rightarrow> bool" where
  "hs_lists_inv N k l =
     (pos_hs_lists k l \<and> n_cols (hs_lambda_list l) = N
      \<and> length (hs_sigma2_eps_list l) = N \<and> length (hs_tau2_list l) = N)"

definition pos_cols :: "mat \<Rightarrow> bool" where
  "pos_cols M = pos_cols_upto (n_cols M) M"

section \<open>Facts about element selection\<close>

lemma length_set_elem: "length (set_elem y idx vs) = length y"
  by (induction y idx vs rule: set_elem.induct) simp_all

lemma set_elem_map_nth:
  "j < length y \<Longrightarrow> set_elem y idx (map g idx) ! j = (if j \<in> set idx then g j else y ! j)"
proof (induction idx arbitrary: y)
  case Nil
  then show ?case by simp
next
  case (Cons i idx)
  have "set_elem (y[i := g i]) idx (map g idx) ! j
          = (if j \<in> set idx then g j else y[i := g i] ! j)"
    using Cons.prems by (intro Cons.IH) simp
  then show ?case using Cons.prems by (auto simp: nth_list_update)
qed

lemma set_find_idx: "set (find_idx (map P x)) = {i. i < length x \<and> P (x ! i)}"
  by (auto simp: find_idx_def)

lemma set_elem_find:
  assumes "length y = length x" and "j < length x"
  shows "set_elem y (find_idx (map P x)) (map f (elem x (find_idx (map P x)))) ! j
           = (if P (x ! j) then f (x ! j) else y ! j)"
proof -
  have "map f (elem x (find_idx (map P x))) = map (\<lambda>i. f (x ! i)) (find_idx (map P x))"
    by (simp add: elem_def)
  then show ?thesis
    using assms by (simp add: set_elem_map_nth set_find_idx)
qed

lemma length_log1mexpm: "length (log1mexpm L x) = length x"
  by (simp add: log1mexpm_def Let_def length_set_elem)

lemma log1mexpm_nth:
  assumes "i < length x"
  shows "log1mexpm L x ! i =
           (if x ! i \<le> LOG2 then arma_log (0 - expm1 L (0 - x ! i))
            else Finite (log1p L (0 - exp (0 - x ! i))))"
  using assms
  by (simp add: log1mexpm_def Let_def set_elem_find length_set_elem)

text \<open>
  What \<open>log1mexpm\<close> returns, for every input and every library: a vector of the length
  of its input whose entry \<open>i\<close> is \<open>log(-expm1(-x i))\<close> when \<open>x i \<le> LOG2\<close> and
  \<open>log1p(-exp(-x i))\<close> when \<open>x i > LOG2\<close>, with the macro \<open>LOG2\<close> of the source as the
  threshold.
\<close>

lemma log1mexpm_branches:
  "log1mexpm L x =
     map (\<lambda>v. if v \<le> LOG2 then arma_log (- expm1 L (- v)) else Finite (log1p L (- exp (- v)))) x"
  by (rule nth_equalityI) (simp_all add: length_log1mexpm log1mexpm_nth)

text \<open>
  The input \<open>0.6931471805599452\<close> lies above \<open>LOG2\<close> and not above \<open>ln 2\<close>: its
  exponential is at most 2. The bound is computed from the first terms of the
  exponential series at \<open>0.6931471805599452 / 1024\<close> by squaring ten times, rounding up
  to thirty decimal places after each step.
\<close>

lemma exp_small_bound:
  "exp (1732867951399863 / 2560000000000000000 :: real) \<le> 1000677130693066356571514861581 / 1000000000000000000000000000000"
proof -
  define y :: real where "y = 1732867951399863 / 2560000000000000000"
  obtain t where t: "\<bar>t\<bar> \<le> \<bar>y\<bar>"
    and e: "exp y = (\<Sum>m<6. y ^ m / fact m) + exp t / fact 6 * y ^ 6"
    using Maclaurin_exp_le [of y 6] by blast
  have "t \<le> 1" using t by (simp add: y_def)
  then have "exp t \<le> exp 1" by simp
  then have t3: "exp t \<le> 3" using exp_le by linarith
  have "exp t / fact 6 * y ^ 6 \<le> 3 / fact 6 * y ^ 6"
    using t3 by (intro mult_right_mono divide_right_mono) (simp_all add: y_def)
  moreover have "(\<Sum>m<6. y ^ m / fact m) + 3 / fact 6 * y ^ 6 \<le> 1000677130693066356571514861581 / 1000000000000000000000000000000"
    by (simp add: y_def eval_nat_numeral lessThan_Suc fact_reduce)
  ultimately show ?thesis using e by (simp add: y_def)
qed

lemma exp_double_bound:
  fixes z a b :: real
  assumes "exp z \<le> a" and "a * a \<le> b"
  shows "exp (2 * z) \<le> b"
proof -
  have "exp (2 * z) = exp z * exp z" by (simp add: exp_add [symmetric])
  also have "\<dots> \<le> a * a"
  proof -
    have "0 \<le> a" using assms(1) exp_ge_zero [of z] by linarith
    then show ?thesis using assms(1) by (intro mult_mono) simp_all
  qed
  finally show ?thesis using assms(2) by simp
qed

lemma exp_below_ln2_input:
  "exp (1732867951399863 / 2500000000000000 :: real) \<le> 2"
proof -
  note b0 = exp_small_bound
  have b1: "exp (1732867951399863 / 1280000000000000000 :: real) \<le> 100135471989210820566742123749 / 100000000000000000000000000000"
    using exp_double_bound [OF b0, of "100135471989210820566742123749 / 100000000000000000000000000000"] by simp
  have b2: "exp (1732867951399863 / 640000000000000000 :: real) \<le> 1002711275050202485003246652063 / 1000000000000000000000000000000"
    using exp_double_bound [OF b1, of "1002711275050202485003246652063 / 1000000000000000000000000000000"] by simp
  have b3: "exp (1732867951399863 / 320000000000000000 :: real) \<le> 25135747527820070512351698719 / 25000000000000000000000000000"
    using exp_double_bound [OF b2, of "25135747527820070512351698719 / 25000000000000000000000000000"] by simp
  have b4: "exp (1732867951399863 / 160000000000000000 :: real) \<le> 101088928605170045829646749393 / 100000000000000000000000000000"
    using exp_double_bound [OF b3, of "101088928605170045829646749393 / 100000000000000000000000000000"] by simp
  have b5: "exp (1732867951399863 / 80000000000000000 :: real) \<le> 1021897148654116674749050539911 / 1000000000000000000000000000000"
    using exp_double_bound [OF b4, of "1021897148654116674749050539911 / 1000000000000000000000000000000"] by simp
  have b6: "exp (1732867951399863 / 40000000000000000 :: real) \<le> 1044273782427413833198465349071 / 1000000000000000000000000000000"
    using exp_double_bound [OF b5, of "1044273782427413833198465349071 / 1000000000000000000000000000000"] by simp
  have b7: "exp (1732867951399863 / 20000000000000000 :: real) \<le> 1090507732665257644329239718151 / 1000000000000000000000000000000"
    using exp_double_bound [OF b6, of "1090507732665257644329239718151 / 1000000000000000000000000000000"] by simp
  have b8: "exp (1732867951399863 / 10000000000000000 :: real) \<le> 1189207115002721034268851465989 / 1000000000000000000000000000000"
    using exp_double_bound [OF b7, of "1189207115002721034268851465989 / 1000000000000000000000000000000"] by simp
  have b9: "exp (1732867951399863 / 5000000000000000 :: real) \<le> 1414213562373094971625361376493 / 1000000000000000000000000000000"
    using exp_double_bound [OF b8, of "1414213562373094971625361376493 / 1000000000000000000000000000000"] by simp
  have b10: "exp (1732867951399863 / 2500000000000000 :: real) \<le> 1999999999999999781712382341427 / 1000000000000000000000000000000"
    using exp_double_bound [OF b9, of "1999999999999999781712382341427 / 1000000000000000000000000000000"] by simp
  show ?thesis using b10 by simp
qed

text \<open>
  C6. The claim puts the switch between the two formulas at \<open>ln 2\<close>; the source puts it
  at its macro \<open>LOG2 = 0.693147180559945\<close>, the first fifteen decimal places of
  \<open>ln 2 = 0.69314718055994530...\<close>. For an input between the two, such as
  \<open>0.6931471805599452\<close>, the claim names \<open>log(-expm1(-x))\<close> and the source returns
  \<open>log1p(-exp(-x))\<close>, whatever the library computes for \<open>expm1\<close> and \<open>log1p\<close>.
\<close>

theorem log1mexpm_between_LOG2_and_ln2:
  "LOG2 < 6931471805599452 / 10000000000000000
   \<and> 6931471805599452 / 10000000000000000 \<le> ln (2 :: real)
   \<and> log1mexpm L [6931471805599452 / 10000000000000000]
       = [Finite (log1p L (- exp (- (6931471805599452 / 10000000000000000))))]"
proof (intro conjI)
  show above: "LOG2 < 6931471805599452 / 10000000000000000"
    by (simp add: LOG2_def)
  show "6931471805599452 / 10000000000000000 \<le> ln (2 :: real)"
    using exp_below_ln2_input by (subst ln_ge_iff) simp_all
  show "log1mexpm L [6931471805599452 / 10000000000000000]
       = [Finite (log1p L (- exp (- (6931471805599452 / 10000000000000000))))]"
    using above by (simp add: log1mexpm_branches)
qed

lemma length_log1pexp: "length (log1pexp L x) = length x"
  by (simp add: log1pexp_def Let_def length_set_elem zeros_def)

lemma map2_elem_add:
  "map2 (\<lambda>a b. a + b) (elem x idx) (map (\<lambda>v. exp (0 - v)) (elem x idx))
     = map (\<lambda>v. v + exp (0 - v)) (elem x idx)"
  by (simp add: elem_def map2_map_map)

lemma elem_as_map: "elem x idx = map (\<lambda>v. v) (elem x idx)"
  by simp

lemma log1pexp_nth:
  assumes "i < length x"
  shows "log1pexp L x ! i =
           (if x ! i \<le> - 37 then exp (x ! i)
            else if x ! i \<le> 18 then log1p L (exp (x ! i))
            else if x ! i \<le> 333 / 10 then x ! i + exp (0 - x ! i)
            else x ! i)"
proof -
  let ?P0 = "\<lambda>v::real. v \<le> - 37"
  let ?P1 = "\<lambda>v::real. v > - 37 \<and> v \<le> 18"
  let ?P2 = "\<lambda>v::real. v > 18 \<and> v \<le> 333 / 10"
  let ?P3 = "\<lambda>v::real. v > 333 / 10"
  define y0 where "y0 = set_elem (zeros (length x)) (find_idx (map ?P0 x))
                          (map (\<lambda>v. exp v) (elem x (find_idx (map ?P0 x))))"
  define y1 where "y1 = set_elem y0 (find_idx (map ?P1 x))
                          (map (\<lambda>v. log1p L (exp v)) (elem x (find_idx (map ?P1 x))))"
  define y2 where "y2 = set_elem y1 (find_idx (map ?P2 x))
                          (map (\<lambda>v. v + exp (0 - v)) (elem x (find_idx (map ?P2 x))))"
  define y3 where "y3 = set_elem y2 (find_idx (map ?P3 x))
                          (map (\<lambda>v. v) (elem x (find_idx (map ?P3 x))))"
  have res: "log1pexp L x = y3"
    unfolding log1pexp_def Let_def y3_def y2_def y1_def y0_def map2_elem_add
    by (subst (3) elem_as_map) (rule refl)
  have l0: "length y0 = length x" by (simp add: y0_def length_set_elem zeros_def)
  have l1: "length y1 = length x" by (simp add: y1_def length_set_elem l0)
  have l2: "length y2 = length x" by (simp add: y2_def length_set_elem l1)
  have n0: "y0 ! i = (if ?P0 (x ! i) then exp (x ! i) else 0)"
    unfolding y0_def using assms by (subst set_elem_find) (simp_all add: zeros_def)
  have n1: "y1 ! i = (if ?P1 (x ! i) then log1p L (exp (x ! i)) else y0 ! i)"
    unfolding y1_def using assms l0 by (subst set_elem_find) simp_all
  have n2: "y2 ! i = (if ?P2 (x ! i) then x ! i + exp (0 - x ! i) else y1 ! i)"
    unfolding y2_def using assms l1 by (subst set_elem_find) simp_all
  have n3: "y3 ! i = (if ?P3 (x ! i) then x ! i else y2 ! i)"
    unfolding y3_def using assms l2 by (subst set_elem_find) simp_all
  show ?thesis
    unfolding res n3 n2 n1 n0 by auto
qed

text \<open>
  C7. \<open>log1pexp\<close> returns at index \<open>i\<close>: \<open>exp (x i)\<close> when \<open>x i \<le> -37\<close>;
  \<open>log1p (exp (x i))\<close> when \<open>-37 < x i \<le> 18\<close>; \<open>x i + exp (- x i)\<close> when
  \<open>18 < x i \<le> 33.3\<close>; and \<open>x i\<close> itself when \<open>x i > 33.3\<close>, in particular for every
  \<open>x i > 40\<close>.
\<close>

theorem log1pexp_spec:
  "log1pexp L x =
     map (\<lambda>v. if v \<le> - 37 then exp v
              else if v \<le> 18 then log1p L (exp v)
              else if v \<le> 333 / 10 then v + exp (- v)
              else v) x
   \<and> (\<forall>i < length x. 40 < x ! i \<longrightarrow> log1pexp L x ! i = x ! i)"
proof
  show "log1pexp L x =
     map (\<lambda>v. if v \<le> - 37 then exp v
              else if v \<le> 18 then log1p L (exp v)
              else if v \<le> 333 / 10 then v + exp (- v)
              else v) x"
    by (rule nth_equalityI) (simp_all add: length_log1pexp log1pexp_nth)
  show "\<forall>i < length x. 40 < x ! i \<longrightarrow> log1pexp L x ! i = x ! i"
    by (simp add: log1pexp_nth)
qed

theorem log1pexp_spec_witness:
  "0 < length [41::real] \<and> 40 < [41::real] ! 0 \<and> log1pexp svd_one [41] ! 0 = 41"
  using log1pexp_spec [of svd_one "[41]"] by simp

lemma ones_as_map: "ones (length idx) = map (\<lambda>i. 1) idx"
  by (simp add: ones_def map_replicate_const)

lemma classify_nth:
  assumes "j < length pmean"
  shows "set_elem (replicate (length pmean) (0::nat)) (find_idx (map P pmean))
             (ones (length (find_idx (map P pmean)))) ! j
           = (if P (pmean ! j) then 1 else 0)"
  using assms by (simp add: ones_as_map set_elem_map_nth set_find_idx)

lemma predict_fast_logit_Inr:
  assumes "predict_fast_logit B X_test alpha cutoff = Inr r"
  shows "n_cols X_test = n_rows B"
    and "mean_rows (mat_map (\<lambda>v. 1 / (1 + exp (- v)))
            \<lparr>n_rows = n_rows X_test, n_cols = n_cols B,
               entry = (\<lambda>i j. sum_list (map (\<lambda>k. entry X_test i k * entry B k j)
                                          [0..<n_cols X_test]))\<rparr>) = Inr (pred_mean r)"
    and "pred_class r = set_elem (replicate (length (pred_mean r)) (0::nat))
                 (find_idx (map (\<lambda>v. v > cutoff) (pred_mean r)))
                 (ones (length (find_idx (map (\<lambda>v. v > cutoff) (pred_mean r)))))"
  using assms
  by (auto simp: predict_fast_logit_def mat_mul_def Let_def split: sum.splits if_splits)

lemma mean_rows_Inr:
  assumes "mean_rows M = Inr m"
  shows "m = map (\<lambda>i. sum_list (map (\<lambda>j. entry M i j) [0..<n_cols M]) / real (n_cols M))
               [0..<n_rows M]"
  using assms by (auto simp: mean_rows_def split: if_splits)

text \<open>
  C10. When \<open>predict_fast_logit\<close> returns, the mean of row \<open>i\<close> is the mean over the stored
  draws \<open>j\<close> of the probabilities \<open>1 / (1 + exp (- (X_test * betacoef) i j))\<close>, and the
  class of row \<open>i\<close> is 1 exactly when that mean is strictly greater than \<open>cutoff\<close>; a
  row whose mean equals \<open>cutoff\<close> gets class 0.
\<close>

theorem predict_fast_logit_class:
  assumes "predict_fast_logit B X_test alpha cutoff = Inr r"
  shows "pred_mean r
           = map (\<lambda>i. (\<Sum>j \<leftarrow> [0..<n_cols B].
                         1 / (1 + exp (- (\<Sum>k \<leftarrow> [0..<n_cols X_test]. entry X_test i k * entry B k j))))
                       / real (n_cols B))
               [0..<n_rows X_test]
       \<and> pred_class r = map (\<lambda>m. if m > cutoff then 1 else 0) (pred_mean r)"
proof
  show "pred_mean r
           = map (\<lambda>i. (\<Sum>j \<leftarrow> [0..<n_cols B].
                         1 / (1 + exp (- (\<Sum>k \<leftarrow> [0..<n_cols X_test]. entry X_test i k * entry B k j))))
                       / real (n_cols B))
               [0..<n_rows X_test]"
    using mean_rows_Inr [OF predict_fast_logit_Inr(2) [OF assms]]
    by (simp add: mat_map_def)
  show "pred_class r = map (\<lambda>m. if m > cutoff then 1 else 0) (pred_mean r)"
    unfolding predict_fast_logit_Inr(3) [OF assms]
    by (rule nth_equalityI) (simp_all add: length_set_elem classify_nth)
qed

lemma predict_example:
  "predict_fast_logit B_example X_test_example (95 / 100) (1 / 2)
     = Inr \<lparr>pred_class = [1, 0, 0], pred_mean = [5 / 8, 1 / 2, 3 / 8]\<rparr>"
  by (simp add: predict_fast_logit_def mat_mul_def mat_map_def mean_rows_def Let_def
      B_example_def X_test_example_def find_idx_def ones_def exp_minus
      upt_conv_Cons numeral_2_eq_2 numeral_3_eq_3)

theorem predict_fast_logit_class_witness:
  "predict_fast_logit B_example X_test_example (95 / 100) (1 / 2)
     = Inr \<lparr>pred_class = [1, 0, 0], pred_mean = [5 / 8, 1 / 2, 3 / 8]\<rparr>
   \<and> [5 / 8, 1 / 2, 3 / 8]
     = map (\<lambda>i. (\<Sum>j \<leftarrow> [0..<n_cols B_example].
            1 / (1 + exp (- (\<Sum>k \<leftarrow> [0..<n_cols X_test_example].
                              entry X_test_example i k * entry B_example k j))))
          / real (n_cols B_example)) [0..<n_rows X_test_example]
   \<and> [1, 0, 0 :: nat] = map (\<lambda>m. if m > 1 / 2 then 1 else 0) [5 / 8, 1 / 2, 3 / 8 :: real]"
proof (intro conjI)
  show "predict_fast_logit B_example X_test_example (95 / 100) (1 / 2)
     = Inr \<lparr>pred_class = [1, 0, 0], pred_mean = [5 / 8, 1 / 2, 3 / 8]\<rparr>"
    by (rule predict_example)
  show "[5 / 8, 1 / 2, 3 / 8]
     = map (\<lambda>i. (\<Sum>j \<leftarrow> [0..<n_cols B_example].
            1 / (1 + exp (- (\<Sum>k \<leftarrow> [0..<n_cols X_test_example].
                              entry X_test_example i k * entry B_example k j))))
          / real (n_cols B_example)) [0..<n_rows X_test_example]"
    using predict_fast_logit_class [OF predict_example, THEN conjunct1]
    by (simp only: prediction.select_convs)
  show "[1, 0, 0 :: nat] = map (\<lambda>m. if m > 1 / 2 then 1 else 0) [5 / 8, 1 / 2, 3 / 8 :: real]"
    using predict_fast_logit_class [OF predict_example, THEN conjunct2]
    by (simp only: prediction.select_convs)
qed

section \<open>Kernel invocations of a run\<close>

lemma kernel_entries_append [simp]:
  "kernel_entries (a @ b) = kernel_entries a @ kernel_entries b"
  by (simp add: kernel_entries_def)

lemma kernel_entries_simps [simp]:
  "kernel_entries [] = []"
  "kernel_entries [Enter k] = [k]"
  "kernel_entries [Draw r] = []"
  by (simp_all add: kernel_entries_def)

lemma silent_ret: "silent (ret x)"
  by (simp add: silent_def ret_def)

lemma silent_lift: "silent (lift r)"
  by (simp add: silent_def lift_def)

lemma silent_draws:
  "silent (draw_randn S k)" "silent (draw_randu S k)" "silent (draw_randu1 S)"
  "silent (draw_randg S a b)" "silent (draw_randg_vec S k a b)" "silent (draw_pg S a v)"
  by (simp_all add: silent_def draw_randn_def draw_randu_def draw_randu1_def draw_randg_def
      draw_randg_vec_def draw_pg_def split: prod.splits)

lemma silent_and_then:
  assumes "silent m" and "\<And>x. silent (f x)"
  shows "silent (and_then m f)"
  unfolding silent_def
proof
  fix w
  show "kernel_entries (trace (snd (and_then m f w))) = kernel_entries (trace w)"
  proof (cases "m w")
    case (Pair r w')
    have w': "kernel_entries (trace w') = kernel_entries (trace w)"
      using assms(1) Pair unfolding silent_def by (metis snd_conv)
    show ?thesis
    proof (cases r)
      case (Inl e)
      then show ?thesis using Pair w' by (simp add: and_then_def)
    next
      case (Inr x)
      have "kernel_entries (trace (snd (f x w'))) = kernel_entries (trace w')"
        using assms(2) unfolding silent_def by blast
      then show ?thesis using Pair Inr w' by (simp add: and_then_def)
    qed
  qed
qed

lemma invokesI:
  assumes "\<And>w x w'. m w = (Inr x, w') \<Longrightarrow> kernel_entries (trace w') = kernel_entries (trace w) @ ks"
  shows "invokes ks m"
  using assms unfolding invokes_def by blast

lemma invokesD:
  assumes "invokes ks m" and "m w = (Inr x, w')"
  shows "kernel_entries (trace w') = kernel_entries (trace w) @ ks"
  using assms unfolding invokes_def by blast

lemma silentD: "silent m \<Longrightarrow> m w = (r, w') \<Longrightarrow> kernel_entries (trace w') = kernel_entries (trace w)"
  unfolding silent_def by (metis snd_conv)

lemma and_then_Inr:
  assumes "and_then m f w = (Inr y, w')"
  obtains x w1 where "m w = (Inr x, w1)" and "f x w1 = (Inr y, w')"
  using assms unfolding and_then_def by (auto split: prod.splits sum.splits)

lemma invokes_enter:
  assumes "\<And>u. silent (f u)"
  shows "invokes [k] (and_then (enter k) f)"
proof (rule invokesI)
  fix w :: "'a world" and x w'
  assume "and_then (enter k) f w = (Inr x, w')"
  then have "f () (w\<lparr>trace := trace w @ [Enter k]\<rparr>) = (Inr x, w')"
    by (simp add: and_then_def enter_def)
  from silentD [OF assms this]
  show "kernel_entries (trace w') = kernel_entries (trace w) @ [k]" by simp
qed

lemma invokes_and_then:
  assumes "invokes ks m" and "\<And>x. invokes ls (f x)"
  shows "invokes (ks @ ls) (and_then m f)"
proof (rule invokesI)
  fix w y w'
  assume "and_then m f w = (Inr y, w')"
  then obtain x w1 where 1: "m w = (Inr x, w1)" and 2: "f x w1 = (Inr y, w')"
    by (rule and_then_Inr)
  show "kernel_entries (trace w') = kernel_entries (trace w) @ ks @ ls"
    using invokesD [OF assms(1) 1] invokesD [OF assms(2) 2] by simp
qed

lemma invokes_silent: "silent m \<Longrightarrow> invokes [] m"
  by (rule invokesI) (simp add: silentD)

lemma invokes_repeat:
  assumes "\<And>c. invokes [k] (body c)"
  shows "invokes (replicate n k) (repeat n body c)"
proof (induction n arbitrary: c)
  case 0
  show ?case by (simp add: invokes_silent silent_ret)
next
  case (Suc n)
  have "invokes ([k] @ replicate n k) (and_then (body c) (repeat n body))"
    by (rule invokes_and_then) (rule assms, rule Suc.IH)
  then show ?case by simp
qed

lemma invokes_sampling_loop:
  assumes "\<And>c. invokes [k] (step c)"
  shows "invokes (replicate (m * thinning) k) (sampling_loop m thinning step store iter cl)"
proof (induction m arbitrary: iter cl)
  case 0
  show ?case by (simp add: invokes_silent silent_ret)
next
  case (Suc m)
  have inner: "invokes ([] @ replicate (m * thinning) k)
                 (and_then (lift (store iter c (snd cl)))
                    (\<lambda>l. sampling_loop m thinning step store (Suc iter) (c, l)))" for c
    by (rule invokes_and_then) (rule invokes_silent, rule silent_lift, rule Suc.IH)
  have "invokes (replicate thinning k @ replicate (m * thinning) k)
          (and_then (repeat thinning step (fst cl)) (\<lambda>c.
             and_then (lift (store iter c (snd cl)))
               (\<lambda>l. sampling_loop m thinning step store (Suc iter) (c, l))))"
    apply (rule invokes_and_then)
     apply (rule invokes_repeat, rule assms)
    using inner by simp
  then show ?case by (simp add: replicate_add [symmetric])
qed

lemma invokes_one_step_update_big_p:
  "invokes [Normal_big_p] (one_step_update_big_p S c ys V d d2 y X A2 a_sigma b_sigma p n)"
  unfolding one_step_update_big_p_def Let_def
  by (intro invokes_enter silent_and_then silent_draws silent_lift silent_ret)

lemma invokes_one_step_update_big_n:
  "invokes [Normal_big_n] (one_step_update_big_n S c ys V d d2 y X A2 a_sigma b_sigma p n)"
  unfolding one_step_update_big_n_def Let_def
  by (intro invokes_enter silent_and_then silent_draws silent_lift silent_ret)

section \<open>Bookkeeping of the sampling loop\<close>

lemma and_then_assoc:
  "and_then (and_then m f) g = and_then m (\<lambda>x. and_then (f x) g)"
  by (rule ext) (simp add: and_then_def split: prod.splits sum.splits)

lemma and_then_ret: "and_then (ret x) f = f x"
  by (rule ext) (simp add: and_then_def ret_def)

lemma repeat_add: "repeat (a + b) body c = and_then (repeat a body c) (repeat b body)"
proof (induction a arbitrary: c)
  case 0
  show ?case by (simp add: and_then_ret)
next
  case (Suc a)
  have "repeat (a + b) body = (\<lambda>c. and_then (repeat a body c) (repeat b body))"
    by (rule ext) (rule Suc.IH)
  then show ?case by (simp add: and_then_assoc)
qed

lemma repeat_add_Inr:
  assumes "repeat a body c w = (Inr c1, w1)" and "repeat b body c1 w1 = r"
  shows "repeat (a + b) body c w = r"
  using assms by (simp add: repeat_add and_then_def)

lemma lift_Inr: "lift r w = (Inr x, w') \<Longrightarrow> r = Inr x \<and> w' = w"
  by (simp add: lift_def)

lemma ret_Inr: "ret x w = (Inr y, w') \<Longrightarrow> y = x \<and> w' = w"
  by (simp add: ret_def)

lemma col_set_col:
  assumes "set_col M j v = Inr M'"
  shows "n_cols M' = n_cols M" and "n_rows M' = n_rows M" and "j < n_cols M"
    and "col M' j = v" and "k \<noteq> j \<Longrightarrow> col M' k = col M k"
proof -
  have j: "j < n_cols M" and len: "length v = n_rows M"
    and M': "M' = M\<lparr>entry := (\<lambda>i k. if k = j then v ! i else entry M i k)\<rparr>"
    using assms by (auto simp: set_col_def split: if_splits)
  show "n_cols M' = n_cols M" "n_rows M' = n_rows M" "j < n_cols M"
    using j by (simp_all add: M')
  have "map (\<lambda>i. v ! i) [0..<length v] = v" by (rule map_nth)
  then show "col M' j = v" by (simp add: col_def M' len)
  show "k \<noteq> j \<Longrightarrow> col M' k = col M k" by (simp add: col_def M')
qed

lemma lm_store_Inr:
  assumes "lm_store iter c l = Inr l'"
  shows "n_cols (betacoef_list l') = n_cols (betacoef_list l)"
    and "iter < n_cols (betacoef_list l)"
    and "col (betacoef_list l') iter = betacoef c"
    and "k \<noteq> iter \<Longrightarrow> col (betacoef_list l') k = col (betacoef_list l) k"
proof -
  obtain bl where bl: "set_col (betacoef_list l) iter (betacoef c) = Inr bl"
    and l': "betacoef_list l' = bl"
    using assms by (auto simp: lm_store_def split: sum.splits)
  show "n_cols (betacoef_list l') = n_cols (betacoef_list l)"
    and "iter < n_cols (betacoef_list l)"
    and "col (betacoef_list l') iter = betacoef c"
    and "k \<noteq> iter \<Longrightarrow> col (betacoef_list l') k = col (betacoef_list l) k"
    using col_set_col [OF bl] by (simp_all add: l')
qed

text \<open>
  What the sampling loop of \<open>fast_normal_lm\<close> leaves behind: the chain after
  \<open>m * thinning\<close> kernel steps, a list of unchanged width, column \<open>iter + j\<close> holding
  the chain after \<open>(j + 1) * thinning\<close> steps, and the earlier columns untouched.
\<close>

lemma sampling_loop_lm_store:
  assumes "sampling_loop m thinning step lm_store iter (c, l) w = (Inr (c', l'), w')"
  shows "repeat (m * thinning) step c w = (Inr c', w')
       \<and> n_cols (betacoef_list l') = n_cols (betacoef_list l)
       \<and> (\<forall>j < m. \<exists>cj wj. repeat ((j + 1) * thinning) step c w = (Inr cj, wj)
                    \<and> col (betacoef_list l') (iter + j) = betacoef cj)
       \<and> (\<forall>k < iter. col (betacoef_list l') k = col (betacoef_list l) k)"
  using assms
proof (induction m arbitrary: iter c l w)
  case 0
  then show ?case by (auto simp: ret_def)
next
  case (Suc m)
  from Suc.prems obtain c1 w1 where
    r1: "repeat thinning step c w = (Inr c1, w1)" and
    rest: "and_then (lift (lm_store iter c1 l))
             (\<lambda>l. sampling_loop m thinning step lm_store (Suc iter) (c1, l)) w1 = (Inr (c', l'), w')"
    by (auto elim: and_then_Inr)
  from rest obtain l1 w2 where
    st: "lift (lm_store iter c1 l) w1 = (Inr l1, w2)" and
    loop: "sampling_loop m thinning step lm_store (Suc iter) (c1, l1) w2 = (Inr (c', l'), w')"
    by (rule and_then_Inr)
  from lift_Inr [OF st] have l1: "lm_store iter c1 l = Inr l1" and w2: "w2 = w1" by simp_all
  note IH = Suc.IH [OF loop [unfolded w2]]
  have final: "repeat (Suc m * thinning) step c w = (Inr c', w')"
    using repeat_add_Inr [OF r1, of "m * thinning"] IH by simp
  have width: "n_cols (betacoef_list l') = n_cols (betacoef_list l)"
    using IH lm_store_Inr(1) [OF l1] by simp
  have before: "\<forall>k < iter. col (betacoef_list l') k = col (betacoef_list l) k"
    using IH lm_store_Inr(4) [OF l1] by simp
  have cols: "\<exists>cj wj. repeat ((j + 1) * thinning) step c w = (Inr cj, wj)
                \<and> col (betacoef_list l') (iter + j) = betacoef cj" if "j < Suc m" for j
  proof (cases j)
    case 0
    have "col (betacoef_list l') iter = col (betacoef_list l1) iter"
      using IH by simp
    then show ?thesis
      using 0 r1 lm_store_Inr(3) [OF l1] by simp
  next
    case (Suc i)
    then have "i < m" using that by simp
    with IH obtain cj wj where
      a: "repeat ((i + 1) * thinning) step c1 w1 = (Inr cj, wj)" and
      b: "col (betacoef_list l') (Suc iter + i) = betacoef cj"
      by blast
    have "repeat (thinning + (i + 1) * thinning) step c w = (Inr cj, wj)"
      by (rule repeat_add_Inr [OF r1 a])
    then show ?thesis using b Suc by simp
  qed
  show ?case using final width before cols by blast
qed

lemma fast_normal_lm_Inr:
  assumes "fast_normal_lm S L y X mcmc_sample burnin thinning a_sigma b_sigma A_tau w = (Inr fit, w')"
  shows "\<exists>U d V d2 ys cb wb c'.
      svd_econ L X = (U, d, V) \<and> vmul d d = Inr d2 \<and> mat_vec (mat_t U) y = Inr ys
    \<and> 0 \<le> mcmc_sample
    \<and> repeat (nat burnin)
           (lm_kernel S ys V d d2 y X (A_tau * A_tau) a_sigma b_sigma (n_cols X) (n_rows X))
           (lm_init a_sigma b_sigma A_tau) w = (Inr cb, wb)
    \<and> sampling_loop (nat mcmc_sample) (nat thinning)
           (lm_kernel S ys V d d2 y X (A_tau * A_tau) a_sigma b_sigma (n_cols X) (n_rows X))
           lm_store 0
           (cb, \<lparr>betacoef_list = mat_zeros (n_cols X) (nat mcmc_sample),
                 sigma2_eps_list = zeros (nat mcmc_sample),
                 tau2_list = zeros (nat mcmc_sample)\<rparr>) wb = (Inr (c', mcmc fit), w')"
proof -
  obtain U d V where svd: "svd_econ L X = (U, d, V)"
    by (cases "svd_econ L X") auto
  show ?thesis
  proof (cases "n_cols X < n_rows X")
    case True
    show ?thesis
      using assms
      unfolding fast_normal_lm_def svd Let_def prod.case
      apply (simp only: True if_True)
      apply (elim and_then_Inr)
      apply (drule lift_Inr ret_Inr)+
      apply (auto simp: lm_kernel_def lm_init_def True split: if_splits)
      done
  next
    case False
    show ?thesis
      using assms
      unfolding fast_normal_lm_def svd Let_def prod.case
      apply (simp only: False if_False)
      apply (elim and_then_Inr)
      apply (drule lift_Inr ret_Inr)+
      apply (auto simp: lm_kernel_def lm_init_def False split: if_splits)
      done
  qed
qed

lemma invokes_lm_kernel:
  "invokes [lm_regime X]
     (lm_kernel S ys V d d2 y X A2 a_sigma b_sigma (n_cols X) (n_rows X) c)"
  by (simp add: lm_kernel_def lm_regime_def invokes_one_step_update_big_n
      invokes_one_step_update_big_p)

text \<open>
  C3. A call of \<open>fast_normal_lm\<close> with \<open>burnin \<ge> 0\<close>, \<open>mcmc_sample \<ge> 0\<close> and
  \<open>thinning \<ge> 1\<close> that returns has invoked the one-step kernel exactly
  \<open>burnin + mcmc_sample * thinning\<close> times; the returned \<open>betacoef\<close> matrix has exactly
  \<open>mcmc_sample\<close> columns, and column \<open>k\<close> is the coefficient vector of the chain after
  \<open>burnin + (k + 1) * thinning\<close> kernel steps: the retained draws in iteration order, none
  of them a burn-in draw.
\<close>

theorem fast_normal_lm_bookkeeping:
  assumes "0 \<le> burnin" and "0 \<le> mcmc_sample" and "1 \<le> thinning"
    and "fast_normal_lm S L y X mcmc_sample burnin thinning a_sigma b_sigma A_tau w = (Inr fit, w')"
  shows "kernel_entries (trace w')
           = kernel_entries (trace w) @ replicate (nat (burnin + mcmc_sample * thinning)) (lm_regime X)
       \<and> n_cols (betacoef_list (mcmc fit)) = nat mcmc_sample
       \<and> (\<exists>U d V d2 ys.
             svd_econ L X = (U, d, V) \<and> vmul d d = Inr d2 \<and> mat_vec (mat_t U) y = Inr ys
           \<and> (\<forall>k < nat mcmc_sample. \<exists>ck wk.
                 repeat (nat (burnin + (int k + 1) * thinning))
                   (lm_kernel S ys V d d2 y X (A_tau * A_tau) a_sigma b_sigma (n_cols X) (n_rows X))
                   (lm_init a_sigma b_sigma A_tau) w = (Inr ck, wk)
               \<and> col (betacoef_list (mcmc fit)) k = betacoef ck))"
proof -
  from fast_normal_lm_Inr [OF assms(4)] obtain U d V d2 ys cb wb c' where
    svd: "svd_econ L X = (U, d, V)" and d2: "vmul d d = Inr d2"
    and ys: "mat_vec (mat_t U) y = Inr ys"
    and burn: "repeat (nat burnin)
           (lm_kernel S ys V d d2 y X (A_tau * A_tau) a_sigma b_sigma (n_cols X) (n_rows X))
           (lm_init a_sigma b_sigma A_tau) w = (Inr cb, wb)"
    and loop: "sampling_loop (nat mcmc_sample) (nat thinning)
           (lm_kernel S ys V d d2 y X (A_tau * A_tau) a_sigma b_sigma (n_cols X) (n_rows X))
           lm_store 0
           (cb, \<lparr>betacoef_list = mat_zeros (n_cols X) (nat mcmc_sample),
                 sigma2_eps_list = zeros (nat mcmc_sample),
                 tau2_list = zeros (nat mcmc_sample)\<rparr>) wb = (Inr (c', mcmc fit), w')"
    by blast
  let ?step = "lm_kernel S ys V d d2 y X (A_tau * A_tau) a_sigma b_sigma (n_cols X) (n_rows X)"
  have N: "nat (burnin + mcmc_sample * thinning) = nat burnin + nat mcmc_sample * nat thinning"
    using assms(1-3) by (simp add: nat_add_distrib nat_mult_distrib)
  have e1: "kernel_entries (trace wb)
              = kernel_entries (trace w) @ replicate (nat burnin) (lm_regime X)"
    by (rule invokesD [OF invokes_repeat burn]) (rule invokes_lm_kernel)
  have e2: "kernel_entries (trace w')
              = kernel_entries (trace wb) @ replicate (nat mcmc_sample * nat thinning) (lm_regime X)"
    by (rule invokesD [OF invokes_sampling_loop loop]) (rule invokes_lm_kernel)
  have count: "kernel_entries (trace w')
           = kernel_entries (trace w) @ replicate (nat (burnin + mcmc_sample * thinning)) (lm_regime X)"
    unfolding N e2 e1 by (simp add: replicate_add)
  note sl = sampling_loop_lm_store [OF loop]
  have width: "n_cols (betacoef_list (mcmc fit)) = nat mcmc_sample"
    using sl by (simp add: mat_zeros_def)
  have cols: "\<exists>ck wk. repeat (nat (burnin + (int k + 1) * thinning)) ?step
                  (lm_init a_sigma b_sigma A_tau) w = (Inr ck, wk)
               \<and> col (betacoef_list (mcmc fit)) k = betacoef ck" if "k < nat mcmc_sample" for k
  proof -
    from sl that obtain ck wk where
      a: "repeat ((k + 1) * nat thinning) ?step cb wb = (Inr ck, wk)" and
      b: "col (betacoef_list (mcmc fit)) (0 + k) = betacoef ck"
      by blast
    have Nk: "nat (burnin + (int k + 1) * thinning) = nat burnin + (k + 1) * nat thinning"
      using assms(1,3) by (simp add: nat_add_distrib nat_mult_distrib)
    have "repeat (nat burnin + (k + 1) * nat thinning) ?step (lm_init a_sigma b_sigma A_tau) w
            = (Inr ck, wk)"
      by (rule repeat_add_Inr [OF burn a])
    then show ?thesis using b Nk by simp
  qed
  show ?thesis using count width svd d2 ys cols by blast
qed

lemmas run_defs = and_then_def lift_def ret_def enter_def draw_randn_def draw_randg_def
  vadd_def vsub_def vmul_def vdiv_def smul_def sadd_def sdiv_def vsqrt_def accu_def vsq_def
  mat_t_def mat_smul_def mat_vec_def

lemma X_one_simps: "n_rows X_one = Suc 0" "n_cols X_one = Suc 0" "entry X_one i j = 1"
  by (simp_all add: X_one_def)

lemma big_p_on_X_one:
  assumes "sigma2_eps c = 1" "tau2 c = 1" "b_tau c = 1"
  shows "one_step_update_big_p const_sampler c [1] X_one [1] [1] [1] X_one 1 1 1 (Suc 0) (Suc 0) w
       = (Inr (c\<lparr>betacoef := [1 / 2], mu := [1 / 2], b_tau := 1, tau2 := 1, sigma2_eps := 1\<rparr>),
          w\<lparr>trace := trace w @ [Enter Normal_big_p, Draw (Randn 1), Draw (Randn 1),
                Draw (Randg 1 (8 / 9)), Draw (Randg 1 (1 / 2)), Draw (Randg 2 (4 / 5))]\<rparr>)"
  using assms
  by (simp add: one_step_update_big_p_def run_defs X_one_simps const_sampler_def Let_def)

theorem fast_normal_lm_bookkeeping_witness:
  "(0::int) \<le> 1 \<and> (0::int) \<le> 2 \<and> (1::int) \<le> 1
   \<and> kernel_entries (trace (snd (fast_normal_lm const_sampler svd_one [1] X_one 2 1 1 1 1 1 w_start)))
       = replicate 3 Normal_big_p
   \<and> n_cols (betacoef_list (mcmc (projr (fst
         (fast_normal_lm const_sampler svd_one [1] X_one 2 1 1 1 1 1 w_start))))) = 2"
proof -
  have "\<exists>fit w'. fast_normal_lm const_sampler svd_one [1] X_one 2 1 1 1 1 1 w_start = (Inr fit, w')"
    by (simp add: fast_normal_lm_def svd_one_def big_p_on_X_one numeral_2_eq_2 and_then_def
        lift_def ret_def vmul_def mat_vec_def mat_t_def lm_store_def set_col_def set_at_def
        mat_zeros_def zeros_def mean_rows_def mean_vec_def X_one_simps Let_def upt_conv_Cons)
  then obtain fit w' where
    h: "fast_normal_lm const_sampler svd_one [1] X_one 2 1 1 1 1 1 w_start = (Inr fit, w')"
    by blast
  have "kernel_entries (trace w')
          = kernel_entries (trace w_start) @ replicate (nat (1 + 2 * 1)) (lm_regime X_one)"
    and "n_cols (betacoef_list (mcmc fit)) = nat 2"
    using fast_normal_lm_bookkeeping [OF _ _ _ h] by simp_all
  moreover have "kernel_entries (trace w_start) = []"
    by (simp add: w_start_def)
  ultimately show ?thesis
    by (simp add: h lm_regime_def X_one_simps)
qed

section \<open>The noise precision draw of the Gaussian kernels\<close>

lemma enter_Inr: "enter k w = (Inr u, w') \<Longrightarrow> w' = w\<lparr>trace := trace w @ [Enter k]\<rparr>"
  by (auto simp: enter_def)

lemma draw_randn_Inr:
  "draw_randn S k w = (Inr v, w')
     \<Longrightarrow> v = fst (randn_vec S k (gen w)) \<and> trace w' = trace w @ [Draw (Randn k)]"
  by (auto simp: draw_randn_def split: prod.splits)

lemma draw_randg_Inr:
  "draw_randg S a b w = (Inr v, w')
     \<Longrightarrow> v = fst (randg_dbl S a b (gen w)) \<and> trace w' = trace w @ [Draw (Randg a b)]"
  by (auto simp: draw_randg_def split: prod.splits)

lemma times_inverse_draw: "x * g = x / (1 / g)" for x g :: real
  by simp

lemma one_step_update_big_p_sigma:
  assumes "one_step_update_big_p S c ys V d d2 y X A2 a_sigma b_sigma p n w = (Inr c', w')"
  shows "\<exists>eps g.
           mat_vec X (betacoef c') = Inr (mu c') \<and> vsub y (mu c') = Inr eps
         \<and> last (trace w')
             = Draw (Randg (a_sigma + real (n + p) / 2)
                 (1 / (b_sigma + 0.5 * accu (vsq (betacoef c')) / tau2 c' + 0.5 * accu (vsq eps))))
         \<and> sigma2_eps c'
             = 1 / fst (randg_dbl S (a_sigma + real (n + p) / 2)
                 (1 / (b_sigma + 0.5 * accu (vsq (betacoef c')) / tau2 c' + 0.5 * accu (vsq eps))) g)"
  using assms
  unfolding one_step_update_big_p_def Let_def
  apply (elim and_then_Inr)
  apply (drule lift_Inr ret_Inr enter_Inr draw_randn_Inr draw_randg_Inr)+
  apply (elim conjE)
  apply (simp add: times_inverse_draw [symmetric])
  apply blast
  done

lemma one_step_update_big_n_sigma:
  assumes "one_step_update_big_n S c ys V d d2 y X A2 a_sigma b_sigma p n w = (Inr c', w')"
  shows "\<exists>beta_s eps g.
           mat_vec V beta_s = Inr (betacoef c') \<and> vmul d beta_s = Inr (mu c')
         \<and> vsub ys (mu c') = Inr eps
         \<and> last (trace w')
             = Draw (Randg (a_sigma + real p)
                 (1 / (b_sigma + 0.5 * accu (vsq beta_s) / tau2 c' + 0.5 * accu (vsq eps))))
         \<and> sigma2_eps c'
             = 1 / fst (randg_dbl S (a_sigma + real p)
                 (1 / (b_sigma + 0.5 * accu (vsq beta_s) / tau2 c' + 0.5 * accu (vsq eps))) g)"
  using assms
  unfolding one_step_update_big_n_def Let_def
  apply (elim and_then_Inr)
  apply (drule lift_Inr ret_Inr enter_Inr draw_randn_Inr draw_randg_Inr)+
  apply (elim conjE)
  apply (simp add: times_inverse_draw [symmetric])
  apply blast
  done

lemma X_two_simps:
  "n_rows X_two = Suc (Suc 0)" "n_cols X_two = Suc 0"
  "entry X_two 0 j = 1" "entry X_two (Suc i) j = 0"
  by (simp_all add: X_two_def)

lemma big_n_on_X_two:
  "one_step_update_big_n const_sampler (lm_init 1 1 1) [1] X_one [1] [1] [1, 1] X_two 1 1 1 1 2 w_start
     = (Inr ((lm_init 1 1 1)\<lparr>betacoef := [1 / 2], mu := [1 / 2], b_tau := 1, tau2 := 1,
                               sigma2_eps := 1\<rparr>),
        w_start\<lparr>trace := trace w_start @ [Enter Normal_big_n, Draw (Randn 1),
                Draw (Randg 1 (8 / 9)), Draw (Randg 1 (1 / 2)), Draw (Randg 2 (4 / 5))]\<rparr>)"
  by (simp add: one_step_update_big_n_def run_defs X_one_simps const_sampler_def Let_def
      lm_init_def)

text \<open>
  The draw of the noise precision that ends an iteration of each kernel of
  \<open>fast_normal_lm\<close>. The predictor-major kernel \<open>one_step_update_big_p\<close> draws
  \<open>1 / sigma2_eps\<close> from the Gamma distribution of shape \<open>a_sigma + (n + p) / 2\<close> and rate
  \<open>b_sigma + 0.5 * sum beta^2 / tau2 + 0.5 * sum eps^2\<close> with \<open>eps = y - X beta\<close> in the \<open>n\<close>
  observations. The observation-major kernel \<open>one_step_update_big_n\<close> draws it with shape
  \<open>a_sigma + p\<close> and the same form of rate taken in the rotated coordinates: \<open>beta_s\<close> with
  \<open>beta = V beta_s\<close> in place of \<open>beta\<close>, and \<open>eps = ys - d % beta_s\<close>, the residual of the
  \<open>p\<close> rotated observations \<open>ys = U\<^sup>T y\<close>.
\<close>

lemma noise_precision_draw:
  "(one_step_update_big_p S c ys V d d2 y X A2 a_sigma b_sigma p n w = (Inr c', w') \<longrightarrow>
      (\<exists>eps g.
           mat_vec X (betacoef c') = Inr (mu c') \<and> vsub y (mu c') = Inr eps
         \<and> last (trace w')
             = Draw (Randg (a_sigma + real (n + p) / 2)
                 (1 / (b_sigma + 0.5 * accu (vsq (betacoef c')) / tau2 c' + 0.5 * accu (vsq eps))))
         \<and> sigma2_eps c'
             = 1 / fst (randg_dbl S (a_sigma + real (n + p) / 2)
                 (1 / (b_sigma + 0.5 * accu (vsq (betacoef c')) / tau2 c' + 0.5 * accu (vsq eps))) g)))
   \<and> (one_step_update_big_n S c ys V d d2 y X A2 a_sigma b_sigma p n w = (Inr c', w') \<longrightarrow>
      (\<exists>beta_s eps g.
           mat_vec V beta_s = Inr (betacoef c') \<and> vmul d beta_s = Inr (mu c')
         \<and> vsub ys (mu c') = Inr eps
         \<and> last (trace w')
             = Draw (Randg (a_sigma + real p)
                 (1 / (b_sigma + 0.5 * accu (vsq beta_s) / tau2 c' + 0.5 * accu (vsq eps))))
         \<and> sigma2_eps c'
             = 1 / fst (randg_dbl S (a_sigma + real p)
                 (1 / (b_sigma + 0.5 * accu (vsq beta_s) / tau2 c' + 0.5 * accu (vsq eps))) g)))"
  by (intro conjI impI; erule one_step_update_big_p_sigma one_step_update_big_n_sigma)

text \<open>
  C1. The claim holds of the predictor-major kernel and fails of the observation-major
  one. \<open>one_step_update_big_n\<close> takes \<open>y\<close>, \<open>X\<close> and \<open>n\<close> and reads none of them: its result
  is the same for every \<open>y\<close>, \<open>X\<close> and \<open>n\<close>, so that neither the count \<open>n\<close> of observations
  nor the residual \<open>y - X beta\<close> can enter its draw. With \<open>n = 2\<close> observations \<open>y = (1, 1)\<close>
  of \<open>p = 1\<close> predictor \<open>X = (1, 0)\<^sup>T\<close> and \<open>a_sigma = b_sigma = 1\<close>, the kernel returns
  \<open>beta = (1/2)\<close> and requests a Gamma variate of shape \<open>a_sigma + p = 2\<close> and scale \<open>4/5\<close>;
  the claim asks for the shape \<open>a_sigma + (n + p) / 2 = 5/2\<close> and the rate
  \<open>1 + 0.5 * (1/4) / 1 + 0.5 * (1/4 + 1) = 7/4\<close> of the residual \<open>y - X beta = (1/2, 1)\<close>,
  which is what the sibling kernel \<open>one_step_update_big_p\<close> and the kernel
  \<open>hs_one_step_update_big_n\<close> of the same regime compute.
\<close>

theorem noise_precision_big_n_divergence:
  "one_step_update_big_n const_sampler (lm_init 1 1 1) [1] X_one [1] [1] [1, 1] X_two 1 1 1 1 2 w_start
     = (Inr ((lm_init 1 1 1)\<lparr>betacoef := [1 / 2], mu := [1 / 2], b_tau := 1, tau2 := 1,
                               sigma2_eps := 1\<rparr>),
        w_start\<lparr>trace := trace w_start @ [Enter Normal_big_n, Draw (Randn 1),
                Draw (Randg 1 (8 / 9)), Draw (Randg 1 (1 / 2)), Draw (Randg 2 (4 / 5))]\<rparr>)
   \<and> mat_vec X_two [1 / 2] = Inr [1 / 2, 0]
   \<and> vsub [1, 1] [1 / 2, 0] = Inr [1 / 2, 1]
   \<and> Draw (Randg 2 (4 / 5))
       \<noteq> Draw (Randg (1 + real (2 + 1) / 2)
                (1 / (1 + 0.5 * accu (vsq [1 / 2]) / 1 + 0.5 * accu (vsq [1 / 2, 1]))))
   \<and> one_step_update_big_n S c ys V d d2 y X A2 a_sigma b_sigma p n
       = one_step_update_big_n S c ys V d d2 y' X' A2 a_sigma b_sigma p n'"
  using big_n_on_X_two
  by (simp add: mat_vec_def vsub_def accu_def vsq_def X_two_simps upt_conv_Cons numeral_2_eq_2
      one_step_update_big_n_def)

section \<open>The truncated normal generator fills every slot with an accepted draw\<close>

lemma set_subvec_Inr:
  assumes "set_subvec y lo hi vals = Inr y'"
  shows "0 \<le> lo" and "lo \<le> hi" and "hi < int (length y)"
    and "int (length vals) = hi - lo + 1"
    and "y' = take (nat lo) y @ vals @ drop (nat hi + 1) y"
  using assms by (auto simp: set_subvec_def split: if_splits)

lemma subvec_0_Inr:
  assumes "subvec x 0 hi = Inr x'"
  shows "0 \<le> hi" and "hi < int (length x)" and "x' = take (nat (hi + 1)) x"
  using assms by (auto simp: subvec_def split: if_splits)

lemma elem_all:
  assumes "\<forall>i \<in> set idx. i < length z \<and> P (z ! i)"
  shows "\<forall>v \<in> set (elem z idx). P v"
  using assms by (auto simp: elem_def)

lemma length_elem [simp]: "length (elem z idx) = length idx"
  by (simp add: elem_def)

lemma nth_fill:
  assumes "\<forall>i < a. P (y ! i)" and "\<forall>v \<in> set vals. P v" and "a \<le> length y"
    and "i < a + length vals"
  shows "P ((take a y @ vals @ rest) ! i)"
proof (cases "i < a")
  case True
  then show ?thesis using assms(1,3) by (simp add: nth_append)
next
  case False
  then have "i - a < length vals" using assms(4) by simp
  then have "P (vals ! (i - a))" using assms(2) by simp
  then show ?thesis
    using False assms(3) \<open>i - a < length vals\<close> by (simp add: nth_append min_absorb2)
qed

lemma filled_after_write:
  assumes f: "filled P n y m" and mn: "m < n"
    and vals: "\<forall>v \<in> set vals. P v" and k: "0 < length vals"
    and fit: "m + int (length vals) \<le> n"
    and w: "set_subvec y m (m + int (length vals) - 1) vals = Inr y'"
  shows "filled P n y' (m + int (length vals))"
proof -
  have len: "length y = nat n" and m0: "0 \<le> m" and old: "\<forall>i < nat m. P (y ! i)"
    using f mn by (auto simp: filled_def)
  have y': "y' = take (nat m) y @ vals @ drop (nat (m + int (length vals) - 1) + 1) y"
    using set_subvec_Inr(5) [OF w] .
  have d: "nat (m + int (length vals) - 1) + 1 = nat m + length vals"
    using m0 k by linarith
  have "length y' = nat n"
    unfolding y' d using len m0 fit by (simp add: min_absorb2 nat_le_iff)
  moreover have "P (y' ! i)" if "int i < min (m + int (length vals)) n" for i
  proof -
    have i: "i < nat m + length vals" using that m0 by linarith
    have "nat m \<le> length y" using len mn m0 by linarith
    then show ?thesis
      unfolding y' by (rule nth_fill [OF old vals _ i])
  qed
  ultimately show ?thesis using m0 by (simp add: filled_def)
qed

lemma filled_after_last_write:
  assumes f: "filled P n y m" and mn: "m < n"
    and vals: "\<forall>v \<in> set vals. P v" and k: "int (length vals) = n - m"
    and w: "set_subvec y m (n - 1) vals = Inr y'" and m': "n \<le> m'"
  shows "filled P n y' m'"
proof -
  have len: "length y = nat n" and m0: "0 \<le> m" and old: "\<forall>i < nat m. P (y ! i)"
    using f mn by (auto simp: filled_def)
  have y': "y' = take (nat m) y @ vals @ drop (nat (n - 1) + 1) y"
    using set_subvec_Inr(5) [OF w] .
  have lv: "length vals = nat n - nat m" using k m0 mn by linarith
  have "length y' = nat n"
    unfolding y' using len m0 mn lv by (simp add: min_absorb2)
  moreover have "P (y' ! i)" if "int i < min m' n" for i
  proof -
    have i: "i < nat m + length vals" using that m0 mn lv m' by linarith
    have "nat m \<le> length y" using len mn m0 by linarith
    then show ?thesis
      unfolding y' by (rule nth_fill [OF old vals _ i])
  qed
  ultimately show ?thesis using m0 m' mn by (simp add: filled_def)
qed

lemma take_idx_good:
  assumes "\<forall>i \<in> set idx. i < length z \<and> P (z ! i)"
  shows "\<forall>i \<in> set (take j idx). i < length z \<and> P (z ! i)"
  using assms by (meson in_set_takeD)

lemma next_fill_filled:
  assumes f: "filled P n y m" and mn: "m < n"
    and good: "\<forall>i \<in> set idx. i < length z \<and> P (z ! i)"
    and nf: "next_fill n y m z idx = Inr (y', m')"
  shows "filled P n y' m'"
proof (cases "length idx > 0")
  case False
  then show ?thesis using nf f by (simp add: next_fill_def)
next
  case True
  show ?thesis
  proof (cases "m + int (length idx) \<le> n")
    case fits: True
    from nf True fits obtain
      w: "set_subvec y m (m + int (length (elem z idx)) - 1) (elem z idx) = Inr y'"
      and m': "m' = m + int (length (elem z idx))"
      by (auto simp: next_fill_def split: sum.splits)
    show ?thesis
      unfolding m'
      by (rule filled_after_write [OF f mn elem_all [OF good] _ _ w]) (use True fits in simp_all)
  next
    case over: False
    from nf True over obtain idx' where
      s: "subvec idx 0 (n - m - 1) = Inr idx'"
      and w: "set_subvec y m (n - 1) (elem z idx') = Inr y'"
      and m': "m' = m + int (length idx)"
      by (auto simp: next_fill_def split: sum.splits)
    have idx': "idx' = take (nat (n - m)) idx"
      using subvec_0_Inr(3) [OF s] by simp
    have good': "\<forall>i \<in> set idx'. i < length z \<and> P (z ! i)"
      unfolding idx' by (rule take_idx_good [OF good])
    have k: "int (length (elem z idx')) = n - m"
      using over mn by (simp add: idx' min_absorb2)
    show ?thesis
      by (rule filled_after_last_write [OF f mn elem_all [OF good'] k w]) (use over m' in simp)
  qed
qed

lemma first_fill_filled:
  assumes n: "0 \<le> n" and len: "length y = nat n"
    and good: "\<forall>i \<in> set idx. i < length z \<and> P (z ! i)"
    and ff: "first_fill n y z idx = Inr (y', m)"
  shows "filled P n y' m"
proof (cases "length idx > 0")
  case False
  then show ?thesis using ff len by (simp add: first_fill_def filled_def)
next
  case True
  have f0: "filled P n y 0" using len by (simp add: filled_def)
  show ?thesis
  proof (cases "int (length idx) \<le> n")
    case fits: True
    from ff True fits obtain
      w: "set_subvec y 0 (0 + int (length (elem z idx)) - 1) (elem z idx) = Inr y'"
      and m: "m = 0 + int (length (elem z idx))"
      by (auto simp: first_fill_def Let_def split: sum.splits)
    have "0 < n" using True fits by linarith
    show ?thesis
      unfolding m
      by (rule filled_after_write [OF f0 \<open>0 < n\<close> elem_all [OF good] _ _ w])
        (use True fits in simp_all)
  next
    case over: False
    from ff True over obtain idx' where
      s: "subvec idx 0 (n - 1) = Inr idx'" and y': "y' = elem z idx'"
      and m: "m = int (length idx)"
      by (auto simp: first_fill_def Let_def split: sum.splits)
    have idx': "idx' = take (nat n) idx"
      using subvec_0_Inr(3) [OF s] by simp
    have good': "\<forall>i \<in> set idx'. i < length z \<and> P (z ! i)"
      unfolding idx' by (rule take_idx_good [OF good])
    have "length y' = nat n" using over n by (simp add: y' idx' min_absorb2)
    moreover have "P (y' ! i)" if "int i < min m n" for i
    proof -
      have "i < length idx'" using that over n m by (simp add: idx')
      then have "idx' ! i \<in> set idx'" by simp
      then show ?thesis using good' \<open>i < length idx'\<close> by (simp add: y' elem_def)
    qed
    ultimately show ?thesis using m by (simp add: filled_def)
  qed
qed

lemma filled_done:
  assumes "filled P n y m" and "\<not> m < n"
  shows "length y = nat n \<and> (\<forall>v \<in> set y. P v)"
proof -
  have len: "length y = nat n" and all: "\<forall>i. int i < n \<longrightarrow> P (y ! i)"
    using assms by (auto simp: filled_def min_def)
  have "P v" if "v \<in> set y" for v
  proof -
    from that obtain i where i: "i < length y" and v: "y ! i = v"
      by (auto simp: in_set_conv_nth)
    have "int i < n" using i len by linarith
    then show ?thesis using all v by blast
  qed
  then show ?thesis using len by blast
qed

lemma fill_loop_filled:
  assumes "good_batch P batch" and "filled P n y m"
    and "fill_loop fuel batch n y m w = Some (Inr y', w')"
  shows "length y' = nat n \<and> (\<forall>v \<in> set y'. P v)"
  using assms(2,3)
proof (induction fuel arbitrary: y m w)
  case 0
  from 0(2) have "\<not> m < n" and "y' = y" by (auto split: if_splits)
  then show ?case using filled_done [OF 0(1)] by simp
next
  case (Suc fuel)
  show ?case
  proof (cases "m < n")
    case False
    with Suc.prems(2) have "y' = y" by simp
    then show ?thesis using filled_done [OF Suc.prems(1) False] by simp
  next
    case True
    from Suc.prems(2) True obtain z idx w1 y1 m1 where
      b: "batch (n - m) w = (Inr (z, idx), w1)" and
      nf: "next_fill n y m z idx = Inr (y1, m1)" and
      rest: "fill_loop fuel batch n y1 m1 w1 = Some (Inr y', w')"
      by (auto split: prod.splits sum.splits)
    have good: "\<forall>i \<in> set idx. i < length z \<and> P (z ! i)"
      using assms(1) b unfolding good_batch_def by blast
    show ?thesis
      by (rule Suc.IH [OF next_fill_filled [OF Suc.prems(1) True good nf] rest])
  qed
qed

lemma truncnorm_with_filled:
  assumes "good_batch P batch" and "0 \<le> n" and "length y = nat n"
    and "truncnorm_with fuel batch n y w = Some (Inr y', w')"
  shows "length y' = nat n \<and> (\<forall>v \<in> set y'. P v)"
proof -
  from assms(4) obtain z idx w1 y1 m1 where
    b: "batch n w = (Inr (z, idx), w1)" and
    ff: "first_fill n y z idx = Inr (y1, m1)" and
    rest: "fill_loop fuel batch n y1 m1 w1 = Some (Inr y', w')"
    by (auto simp: truncnorm_with_def split: prod.splits sum.splits)
  have good: "\<forall>i \<in> set idx. i < length z \<and> P (z ! i)"
    using assms(1) b unfolding good_batch_def by blast
  show ?thesis
    by (rule fill_loop_filled [OF assms(1) first_fill_filled [OF assms(2,3) good ff] rest])
qed













section \<open>Rounding to a double, and two runs of the tilted regime\<close>

















section \<open>One kernel variant per run\<close>

lemma only_silent: "silent m \<Longrightarrow> only K m"
  unfolding only_def silent_def
  by (metis append_Nil2 replicate_0)

lemma only_and_then:
  assumes "only K m" and "\<And>x. only K (f x)"
  shows "only K (and_then m f)"
  unfolding only_def
proof
  fix w
  obtain r w1 where mw: "m w = (r, w1)" by (cases "m w")
  from assms(1) obtain k1 where
    k1: "kernel_entries (trace w1) = kernel_entries (trace w) @ replicate k1 K"
    unfolding only_def using mw by (metis snd_conv)
  show "\<exists>k. kernel_entries (trace (snd (and_then m f w)))
              = kernel_entries (trace w) @ replicate k K"
  proof (cases r)
    case (Inl e)
    then show ?thesis using mw k1 by (auto simp: and_then_def)
  next
    case (Inr x)
    from assms(2) obtain k2 where
      "kernel_entries (trace (snd (f x w1))) = kernel_entries (trace w1) @ replicate k2 K"
      unfolding only_def by blast
    then have "kernel_entries (trace (snd (and_then m f w)))
                 = kernel_entries (trace w) @ replicate (k1 + k2) K"
      using mw Inr k1 by (simp add: and_then_def replicate_add)
    then show ?thesis by blast
  qed
qed

lemma only_enter:
  assumes "\<And>u. silent (f u)"
  shows "only K (and_then (enter K) f)"
proof (rule only_and_then)
  show "only K (enter K :: (unit, 'a) run)"
    unfolding only_def
  proof
    fix w :: "'a world"
    have "kernel_entries (trace (snd (enter K w))) = kernel_entries (trace w) @ replicate 1 K"
      by (simp add: enter_def)
    then show "\<exists>k. kernel_entries (trace (snd (enter K w)))
                 = kernel_entries (trace w) @ replicate k K" by blast
  qed
  show "only K (f x)" for x by (rule only_silent) (rule assms)
qed

lemma only_repeat:
  assumes "\<And>c. only K (body c)"
  shows "only K (repeat n body c)"
proof (induction n arbitrary: c)
  case 0
  show ?case by (simp add: only_silent silent_ret)
next
  case (Suc n)
  show ?case by (simp, rule only_and_then) (rule assms, rule Suc.IH)
qed

lemma only_sampling_loop:
  assumes "\<And>c. only K (step c)"
  shows "only K (sampling_loop m thinning step store iter cl)"
proof (induction m arbitrary: iter cl)
  case 0
  show ?case by (simp add: only_silent silent_ret)
next
  case (Suc m)
  show ?case
    by (simp, intro only_and_then only_repeat assms only_silent silent_lift Suc.IH)
qed

lemmas silent_rules = silent_and_then silent_draws silent_lift silent_ret

lemma only_kernels:
  "only Normal_big_p (one_step_update_big_p S c ys V d d2 y X A2 a_sigma b_sigma p n)"
  "only Normal_big_n (one_step_update_big_n S c ys V d d2 y X A2 a_sigma b_sigma p n)"
  "only Logit_normal_big_n (one_step_logit_normal_big_n S L c y_s Xty_s X A2_tau p n)"
  "only Logit_normal_big_p (one_step_logit_normal_big_p S L c y_s XXt X A2_tau p n)"
  "only Logit_horseshoe_big_n (one_step_logit_horseshoe_big_n S L c y_s Xty_s X A2_tau A2_lambda p n)"
  "only Logit_horseshoe_big_p (one_step_logit_horseshoe_big_p S L c y_s X A2_tau A2_lambda p n)"
  "only Hs_big_p (hs_one_step_update_big_p S L c ys V d d2 y X VD A2_tau A2_lambda a_sigma b_sigma p n)"
  "only Hs_big_n (hs_one_step_update_big_n S L c dys V d2 y X A2 A2_lambda a_sigma b_sigma p n)"
  "only Hs_update (hs_one_step_update S L c y X A2 A2_lambda a_sigma b_sigma p n)"
  "only Hs_slice_sampler (hs_one_step_update_slice_sampler S L c y X A2_tau A2_lambda a_sigma b_sigma p n)"
  unfolding one_step_update_big_p_def one_step_update_big_n_def one_step_logit_normal_big_n_def
    one_step_logit_normal_big_p_def one_step_logit_horseshoe_big_n_def
    one_step_logit_horseshoe_big_p_def hs_one_step_update_big_p_def hs_one_step_update_big_n_def
    hs_one_step_update_def hs_one_step_update_slice_sampler_def Let_def
  by (intro only_enter silent_rules)+

lemma silent_hs_summary: "silent (hs_summary X l)"
  unfolding hs_summary_def by (intro silent_rules)

lemmas only_rules = only_and_then only_repeat only_sampling_loop only_kernels

lemma only_fast_normal_lm:
  "only (lm_regime X) (fast_normal_lm S L y X mcmc_sample burnin thinning a_sigma b_sigma A_tau)"
proof -
  obtain U d V where svd: "svd_econ L X = (U, d, V)" by (cases "svd_econ L X") auto
  show ?thesis
  proof (cases "n_cols X < n_rows X")
    case True
    show ?thesis
      unfolding fast_normal_lm_def svd Let_def prod.case lm_regime_def
      by (simp only: True if_True)
        (intro only_rules only_silent [OF silent_lift] only_silent [OF silent_ret])
  next
    case False
    show ?thesis
      unfolding fast_normal_lm_def svd Let_def prod.case lm_regime_def
      by (simp only: False if_False)
        (intro only_rules only_silent [OF silent_lift] only_silent [OF silent_ret])
  qed
qed

lemma only_fast_normal_logit:
  "only (logit_regime X) (fast_normal_logit S L y X mcmc_sample burnin thinning A_tau)"
proof (cases "n_cols X < n_rows X")
  case True
  show ?thesis
    unfolding fast_normal_logit_def Let_def logit_regime_def
    by (simp only: True if_True)
      (intro only_rules only_silent [OF silent_lift] only_silent [OF silent_ret]
        only_silent [OF silent_draws(6)])
next
  case False
  show ?thesis
    unfolding fast_normal_logit_def Let_def logit_regime_def
    by (simp only: False if_False)
      (intro only_rules only_silent [OF silent_lift] only_silent [OF silent_ret]
        only_silent [OF silent_draws(6)])
qed

lemma only_fast_horseshoe_logit:
  "only (hs_logit_regime X)
     (fast_horseshoe_logit S L y X mcmc_sample burnin thinning A_tau A_lambda)"
proof (cases "n_cols X < n_rows X")
  case True
  show ?thesis
    unfolding fast_horseshoe_logit_def Let_def hs_logit_regime_def
    by (simp only: True if_True)
      (intro only_rules only_silent [OF silent_lift] only_silent [OF silent_ret]
        only_silent [OF silent_draws(6)])
next
  case False
  show ?thesis
    unfolding fast_horseshoe_logit_def Let_def hs_logit_regime_def
    by (simp only: False if_False)
      (intro only_rules only_silent [OF silent_lift] only_silent [OF silent_ret]
        only_silent [OF silent_draws(6)])
qed

lemma only_fast_horseshoe_lm:
  "only (hs_lm_regime X)
     (fast_horseshoe_lm S L y X mcmc_sample burnin thinning a_sigma b_sigma A_tau A_lambda)"
proof -
  obtain U d V where svd: "svd_econ L X = (U, d, V)" by (cases "svd_econ L X") auto
  show ?thesis
  proof (cases "n_cols X < n_rows X")
    case True
    show ?thesis
      unfolding fast_horseshoe_lm_def svd Let_def prod.case hs_lm_regime_def
      by (simp only: True if_True)
        (intro only_rules only_silent [OF silent_lift] only_silent [OF silent_hs_summary])
  next
    case False
    show ?thesis
      unfolding fast_horseshoe_lm_def svd Let_def prod.case hs_lm_regime_def
      by (simp only: False if_False)
        (intro only_rules only_silent [OF silent_lift] only_silent [OF silent_hs_summary])
  qed
qed

lemma only_fast_horseshoe_ss_lm:
  "only (hs_ss_regime X)
     (fast_horseshoe_ss_lm S L y X mcmc_sample burnin thinning a_sigma b_sigma A_tau A_lambda)"
proof -
  obtain U d V where svd: "svd_econ L X = (U, d, V)" by (cases "svd_econ L X") auto
  show ?thesis
  proof (cases "n_cols X < n_rows X")
    case True
    show ?thesis
      unfolding fast_horseshoe_ss_lm_def svd Let_def prod.case hs_ss_regime_def
      by (simp only: True if_True)
        (intro only_rules only_silent [OF silent_lift] only_silent [OF silent_hs_summary])
  next
    case False
    show ?thesis
      unfolding fast_horseshoe_ss_lm_def svd Let_def prod.case hs_ss_regime_def
      by (simp only: False if_False)
        (intro only_rules only_silent [OF silent_lift] only_silent [OF silent_hs_summary])
  qed
qed

lemma only_fast_horseshoe_hd_lm:
  "only (hs_hd_regime X)
     (fast_horseshoe_hd_lm S L y X mcmc_sample burnin thinning a_sigma b_sigma A_tau A_lambda)"
proof -
  obtain U d V where svd: "svd_econ L X = (U, d, V)" by (cases "svd_econ L X") auto
  show ?thesis
  proof (cases "n_cols X < n_rows X")
    case True
    show ?thesis
      unfolding fast_horseshoe_hd_lm_def svd Let_def prod.case hs_hd_regime_def
      by (simp only: True if_True)
        (intro only_rules only_silent [OF silent_lift] only_silent [OF silent_hs_summary])
  next
    case False
    show ?thesis
      unfolding fast_horseshoe_hd_lm_def svd Let_def prod.case hs_hd_regime_def
      by (simp only: False if_False)
        (intro only_rules only_silent [OF silent_lift] only_silent [OF silent_hs_summary])
  qed
qed

text \<open>
  C5. Every fitting function compares \<open>p\<close> and \<open>n\<close> once, before its loops, and every
  kernel invocation of the run, in the burn-in and in the sampling loop, is the variant
  that the comparison selects: the observation-major one when \<open>p < n\<close> and the
  predictor-major one when \<open>p \<ge> n\<close>. This holds of a run that returns and of one that
  fails part way.
\<close>

theorem one_regime_per_run:
  "(\<exists>k. kernel_entries (trace (snd
        (fast_normal_lm S L y X mcmc_sample burnin thinning a_sigma b_sigma A_tau w)))
      = kernel_entries (trace w)
        @ replicate k (if n_cols X < n_rows X then Normal_big_n else Normal_big_p))
   \<and> (\<exists>k. kernel_entries (trace (snd
        (fast_normal_logit S L y X mcmc_sample burnin thinning A_tau w)))
      = kernel_entries (trace w)
        @ replicate k (if n_cols X < n_rows X then Logit_normal_big_n else Logit_normal_big_p))
   \<and> (\<exists>k. kernel_entries (trace (snd
        (fast_horseshoe_logit S L y X mcmc_sample burnin thinning A_tau A_lambda w)))
      = kernel_entries (trace w)
        @ replicate k (if n_cols X < n_rows X then Logit_horseshoe_big_n
                       else Logit_horseshoe_big_p))
   \<and> (\<exists>k. kernel_entries (trace (snd
        (fast_horseshoe_lm S L y X mcmc_sample burnin thinning a_sigma b_sigma A_tau A_lambda w)))
      = kernel_entries (trace w)
        @ replicate k (if n_cols X < n_rows X then Hs_big_n else Hs_big_p))
   \<and> (\<exists>k. kernel_entries (trace (snd
        (fast_horseshoe_ss_lm S L y X mcmc_sample burnin thinning a_sigma b_sigma A_tau A_lambda w)))
      = kernel_entries (trace w)
        @ replicate k (if n_cols X < n_rows X then Hs_big_n else Hs_slice_sampler))
   \<and> (\<exists>k. kernel_entries (trace (snd
        (fast_horseshoe_hd_lm S L y X mcmc_sample burnin thinning a_sigma b_sigma A_tau A_lambda w)))
      = kernel_entries (trace w)
        @ replicate k (if n_cols X < n_rows X then Hs_big_n else Hs_update))"
  using only_fast_normal_lm [of X S L y mcmc_sample burnin thinning a_sigma b_sigma A_tau]
    only_fast_normal_logit [of X S L y mcmc_sample burnin thinning A_tau]
    only_fast_horseshoe_logit [of X S L y mcmc_sample burnin thinning A_tau A_lambda]
    only_fast_horseshoe_lm [of X S L y mcmc_sample burnin thinning a_sigma b_sigma A_tau A_lambda]
    only_fast_horseshoe_ss_lm [of X S L y mcmc_sample burnin thinning a_sigma b_sigma A_tau A_lambda]
    only_fast_horseshoe_hd_lm [of X S L y mcmc_sample burnin thinning a_sigma b_sigma A_tau A_lambda]
  unfolding only_def lm_regime_def logit_regime_def hs_logit_regime_def hs_lm_regime_def
    hs_ss_regime_def hs_hd_regime_def
  by blast

section \<open>Initial noise variance of the horseshoe Gaussian fits\<close>

text \<open>
  C9. In \<open>fast_horseshoe_lm\<close>, \<open>fast_horseshoe_ss_lm\<close> and \<open>fast_horseshoe_hd_lm\<close> the
  initial noise variance is \<open>b_sigma / a_sigma\<close> only when \<open>a_sigma \<noteq> 0\<close> and is 1 when
  \<open>a_sigma = 0\<close>, the default: the quotient is never taken with a zero shape.
\<close>

theorem horseshoe_initial_sigma2_eps:
  "sigma2_eps (fast_horseshoe_lm_init a_sigma b_sigma p)
     = (if a_sigma = 0 then 1 else b_sigma / a_sigma)
   \<and> sigma2_eps (fast_horseshoe_ss_lm_init a_sigma b_sigma p)
     = (if a_sigma = 0 then 1 else b_sigma / a_sigma)
   \<and> sigma2_eps (fast_horseshoe_hd_lm_init a_sigma b_sigma p)
     = (if a_sigma = 0 then 1 else b_sigma / a_sigma)
   \<and> sigma2_eps (fast_horseshoe_lm_init 0 b_sigma p) = 1
   \<and> sigma2_eps (fast_horseshoe_ss_lm_init 0 b_sigma p) = 1
   \<and> sigma2_eps (fast_horseshoe_hd_lm_init 0 b_sigma p) = 1"
  by (simp add: fast_horseshoe_lm_init_def fast_horseshoe_ss_lm_init_def
      fast_horseshoe_hd_lm_init_def)

section \<open>A response of the wrong length\<close>

lemma and_then_lift_Inl [simp]: "and_then (lift (Inl e)) f w = (Inl e, w)"
  by (simp add: and_then_def lift_def)

lemma and_then_lift_Inr [simp]: "and_then (lift (Inr x)) f w = f x w"
  by (simp add: and_then_def lift_def)

lemma and_then_Inl: "m w = (Inl e, w') \<Longrightarrow> and_then m f w = (Inl e, w')"
  by (simp add: and_then_def)

lemma mat_vec_mismatch: "n_cols A \<noteq> length v \<Longrightarrow> mat_vec A v = Inl IncompatibleDims"
  by (simp add: mat_vec_def)

lemma vsub_mismatch: "length a \<noteq> length b \<Longrightarrow> vsub a b = Inl IncompatibleDims"
  by (simp add: vsub_def)

lemma vmul_same [simp]: "vmul d d = Inr (map2 (\<lambda>x y. x * y) d d)"
  by (simp add: vmul_def)

text \<open>
  C2, as the source has it. No fitting function tests the length of \<open>y\<close> itself; a
  mismatch is met by the size check of the first library operation that combines \<open>y\<close>
  with something of \<open>n\<close> rows. In \<open>fast_normal_lm\<close> and \<open>fast_horseshoe_lm\<close> that is
  \<open>U.t() * y\<close> (\<open>U\<close> having the \<open>n\<close> rows of \<open>X\<close>), in \<open>fast_normal_logit\<close> and
  \<open>fast_horseshoe_logit\<close> it is \<open>y - ones(n) * 0.5\<close>, and in \<open>fast_horseshoe_ss_lm\<close> and
  \<open>fast_horseshoe_hd_lm\<close> with \<open>p < n\<close> it is again \<open>U.t() * y\<close>: all of them before the
  loops, so that the run fails with the world as it was, no kernel entered and no
  variate drawn.
\<close>

theorem response_length_mismatch:
  assumes "length y \<noteq> n_rows X" and "n_rows (fst (svd_econ L X)) = n_rows X"
  shows "fast_normal_lm S L y X mcmc_sample burnin thinning a_sigma b_sigma A_tau w
           = (Inl IncompatibleDims, w)
       \<and> fast_normal_logit S L y X mcmc_sample burnin thinning A_tau w
           = (Inl IncompatibleDims, w)
       \<and> fast_horseshoe_logit S L y X mcmc_sample burnin thinning A_tau A_lambda w
           = (Inl IncompatibleDims, w)
       \<and> fast_horseshoe_lm S L y X mcmc_sample burnin thinning a_sigma b_sigma A_tau A_lambda w
           = (Inl IncompatibleDims, w)
       \<and> (n_cols X < n_rows X \<longrightarrow>
            (\<exists>e. fast_horseshoe_ss_lm S L y X mcmc_sample burnin thinning a_sigma b_sigma
                    A_tau A_lambda w = (Inl e, w))
          \<and> (\<exists>e. fast_horseshoe_hd_lm S L y X mcmc_sample burnin thinning a_sigma b_sigma
                    A_tau A_lambda w = (Inl e, w)))"
proof -
  obtain U d V where svd: "svd_econ L X = (U, d, V)" by (cases "svd_econ L X") auto
  have U: "mat_vec (mat_t U) y = Inl IncompatibleDims"
    using assms svd by (intro mat_vec_mismatch) (simp add: mat_t_def)
  have ys: "vsub y (smul (1 / 2) (vones (n_rows X))) = Inl IncompatibleDims"
    using assms(1) by (intro vsub_mismatch) (simp add: smul_def vones_def)
  have 1: "fast_normal_lm S L y X mcmc_sample burnin thinning a_sigma b_sigma A_tau w
           = (Inl IncompatibleDims, w)"
    by (simp add: fast_normal_lm_def svd U Let_def)
  have 2: "fast_normal_logit S L y X mcmc_sample burnin thinning A_tau w
           = (Inl IncompatibleDims, w)"
    by (simp add: fast_normal_logit_def ys Let_def)
  have 3: "fast_horseshoe_logit S L y X mcmc_sample burnin thinning A_tau A_lambda w
           = (Inl IncompatibleDims, w)"
    by (simp add: fast_horseshoe_logit_def ys Let_def)
  have 4: "fast_horseshoe_lm S L y X mcmc_sample burnin thinning a_sigma b_sigma A_tau A_lambda w
           = (Inl IncompatibleDims, w)"
    by (simp add: fast_horseshoe_lm_def svd U Let_def)
  have 5: "\<exists>e. fast_horseshoe_ss_lm S L y X mcmc_sample burnin thinning a_sigma b_sigma
                    A_tau A_lambda w = (Inl e, w)" if "n_cols X < n_rows X"
    using that by (simp add: fast_horseshoe_ss_lm_def svd U Let_def hs_lists_zeros_def and_then_assoc)
  have 6: "\<exists>e. fast_horseshoe_hd_lm S L y X mcmc_sample burnin thinning a_sigma b_sigma
                    A_tau A_lambda w = (Inl e, w)" if "n_cols X < n_rows X"
    using that by (simp add: fast_horseshoe_hd_lm_def svd U Let_def hs_lists_zeros_def and_then_assoc)
  show ?thesis using 1 2 3 4 5 6 by blast
qed

theorem response_length_mismatch_witness:
  "length [1 :: real] \<noteq> n_rows X_two \<and> n_rows (fst (svd_econ svd_two X_two)) = n_rows X_two
   \<and> n_cols X_two < n_rows X_two
   \<and> fast_normal_lm const_sampler svd_two [1] X_two 1 1 1 1 1 1 w_start
       = (Inl IncompatibleDims, w_start)
   \<and> fast_normal_logit const_sampler svd_two [1] X_two 1 1 1 1 w_start
       = (Inl IncompatibleDims, w_start)
   \<and> (\<exists>e. fast_horseshoe_hd_lm const_sampler svd_two [1] X_two 1 1 1 0 0 1 1 w_start
             = (Inl e, w_start))"
proof -
  have a: "length [1 :: real] \<noteq> n_rows X_two"
    and b: "n_rows (fst (svd_econ svd_two X_two)) = n_rows X_two"
    and c: "n_cols X_two < n_rows X_two"
    by (simp_all add: X_two_def svd_two_def)
  show ?thesis
    using a b c
      response_length_mismatch [OF a b, where S = const_sampler and mcmc_sample = 1
        and burnin = 1 and thinning = 1 and a_sigma = 1 and b_sigma = 1 and A_tau = 1
        and w = w_start]
      response_length_mismatch [OF a b, where S = const_sampler and mcmc_sample = 1
        and burnin = 1 and thinning = 1 and a_sigma = 0 and b_sigma = 0 and A_tau = 1
        and A_lambda = 1 and w = w_start]
    by blast
qed

text \<open>
  With \<open>p \<ge> n\<close>, \<open>fast_horseshoe_hd_lm\<close> uses \<open>y\<close> first inside its kernel: for
  \<open>X = (1)\<close> and a \<open>y\<close> of length 2 the run has entered the kernel and drawn its two
  vectors of normal variates when the size check of \<open>y - X * alpha_1\<close> fails.
\<close>

theorem response_length_mismatch_counterexample:
  "length [1, 1 :: real] \<noteq> n_rows X_one
   \<and> fast_horseshoe_hd_lm const_sampler svd_one [1, 1] X_one 1 1 1 0 0 1 1 w_start
       = (Inl IncompatibleDims,
          w_start\<lparr>trace := trace w_start @ [Enter Hs_update, Draw (Randn 1), Draw (Randn 1)]\<rparr>)"
  by (simp add: fast_horseshoe_hd_lm_def hs_lists_zeros_def fast_horseshoe_hd_lm_init_def
      hs_one_step_update_def X_one_simps Let_def and_then_def lift_def enter_def draw_randn_def
      const_sampler_def vmul_def vsub_def smul_def vones_def row_times_def mat_mul_def mat_vec_def
      mat_t_def diag_add_def upt_conv_Cons)

section \<open>The Gamma kernels keep the variance components positive\<close>

lemma draw_randg_vec_Inr:
  "draw_randg_vec S k a b w = (Inr v, w') \<Longrightarrow> v = fst (randg_vec S k a b (gen w))"
  by (auto simp: draw_randg_vec_def split: prod.splits)

lemma draw_pg_Inr:
  "draw_pg S b c w = (Inr v, w') \<Longrightarrow> v = fst (pgdraw S b c (gen w))"
  by (auto simp: draw_pg_def split: prod.splits)

lemma draw_randn_val: "draw_randn S k w = (Inr v, w') \<Longrightarrow> v = fst (randn_vec S k (gen w))"
  by (auto simp: draw_randn_def split: prod.splits)

lemma draw_randg_val:
  "draw_randg S a b w = (Inr v, w') \<Longrightarrow> v = fst (randg_dbl S a b (gen w))"
  by (auto simp: draw_randg_def split: prod.splits)

lemma list_all_map2:
  assumes "list_all P a" and "list_all Q b" and "\<And>x y. P x \<Longrightarrow> Q y \<Longrightarrow> R (f x y)"
  shows "list_all R (map2 f a b)"
  using assms(1,2)
proof (induction a arbitrary: b)
  case Nil then show ?case by simp
next
  case (Cons x xs)
  then show ?case using assms(3) by (cases b) auto
qed

lemma vadd_pos:
  assumes "vadd a b = Inr c" and "list_all (\<lambda>v. 0 < v) a" and "list_all (\<lambda>v. 0 \<le> v) b"
  shows "list_all (\<lambda>v. 0 < v) c"
proof -
  have "c = map2 (\<lambda>x y. x + y) a b" using assms(1) by (auto simp: vadd_def split: if_splits)
  then show ?thesis using assms(2,3) by (auto intro!: list_all_map2 [where P = "\<lambda>v. 0 < v" and Q = "\<lambda>v. 0 \<le> v"])
qed

lemma vdiv_pos:
  assumes "vdiv a b = Inr c" and "list_all (\<lambda>v. 0 < v) a" and "list_all (\<lambda>v. 0 < v) b"
  shows "list_all (\<lambda>v. 0 < v) c"
proof -
  have "c = map2 (\<lambda>x y. x / y) a b" using assms(1) by (auto simp: vdiv_def split: if_splits)
  then show ?thesis using assms(2,3) by (auto intro!: list_all_map2 [where P = "\<lambda>v. 0 < v" and Q = "\<lambda>v. 0 < v"])
qed

lemma half_sq_nonneg:
  assumes "0 < t"
  shows "list_all (\<lambda>v. 0 \<le> v) (vscale_div (smul 0.5 (vsq b)) t)"
  using assms by (simp add: vscale_div_def smul_def vsq_def list_all_iff)

lemma half_sq_nonneg2:
  assumes "0 < t" "0 < s"
  shows "list_all (\<lambda>v. 0 \<le> v) (vscale_div (vscale_div (smul 0.5 (vsq b)) t) s)"
  using assms by (simp add: vscale_div_def smul_def vsq_def list_all_iff)

lemma sadd_pos:
  assumes "0 \<le> c" and "list_all (\<lambda>v. 0 < v) a"
  shows "list_all (\<lambda>v. 0 < v) (sadd c a)"
  using assms by (auto simp: sadd_def list_all_iff intro: add_nonneg_pos)

lemma sqrt_inv_pos:
  assumes "list_all (\<lambda>v. 0 < v) a"
  shows "list_all (\<lambda>v. 0 < v) (vsqrt (sdiv 1 a))"
  using assms by (auto simp: vsqrt_def sdiv_def list_all_iff)

lemma local_scales_pos:
  assumes den: "vadd bl h = Inr den"
    and il: "vdiv (fst (randg_vec S p 1 1 g1)) den = Inr inv_lambda2"
    and b': "vdiv (fst (randg_vec S p 1 1 g2)) (sadd (1 / A2_lambda) inv_lambda2) = Inr b_lambda'"
    and S: "positive_sampler S" and A: "0 < A2_lambda"
    and bl: "list_all (\<lambda>v. 0 < v) bl" and nn: "list_all (\<lambda>v. 0 \<le> v) h"
  shows "list_all (\<lambda>v. 0 < v) (vsqrt (sdiv 1 inv_lambda2)) \<and> list_all (\<lambda>v. 0 < v) b_lambda'"
proof -
  have g: "list_all (\<lambda>v. 0 < v) (fst (randg_vec S p 1 1 g))" for g
    using S by (simp add: positive_sampler_def)
  have d: "list_all (\<lambda>v. 0 < v) den" by (rule vadd_pos [OF den bl nn])
  have i: "list_all (\<lambda>v. 0 < v) inv_lambda2" by (rule vdiv_pos [OF il g d])
  have "list_all (\<lambda>v. 0 < v) (sadd (1 / A2_lambda) inv_lambda2)"
    using A by (intro sadd_pos i) simp
  from vdiv_pos [OF b' g this] sqrt_inv_pos [OF i] show ?thesis by simp
qed

lemma positive_one_step_update_big_p:
  assumes S: "positive_sampler S"
    and c: "positive_state c" "positive_rates c"
    and run: "one_step_update_big_p S c ys V d d2 y X A2 a_sigma b_sigma p n w = (Inr c', w')"
  shows "positive_state c' \<and> positive_rates c'"
  using run
  unfolding one_step_update_big_p_def Let_def
  apply (elim and_then_Inr)
  apply (drule lift_Inr ret_Inr enter_Inr draw_randn_val draw_randg_val draw_randg_vec_Inr
      draw_pg_Inr)+
  apply (elim conjE)
  apply hypsubst
  using S c apply (auto simp: positive_state_def positive_rates_def positive_sampler_def)
  done

lemma positive_one_step_update_big_n:
  assumes S: "positive_sampler S"
    and c: "positive_state c" "positive_rates c"
    and run: "one_step_update_big_n S c ys V d d2 y X A2 a_sigma b_sigma p n w = (Inr c', w')"
  shows "positive_state c' \<and> positive_rates c'"
  using run
  unfolding one_step_update_big_n_def Let_def
  apply (elim and_then_Inr)
  apply (drule lift_Inr ret_Inr enter_Inr draw_randn_val draw_randg_val draw_randg_vec_Inr
      draw_pg_Inr)+
  apply (elim conjE)
  apply hypsubst
  using S c apply (auto simp: positive_state_def positive_rates_def positive_sampler_def)
  done

lemma positive_one_step_logit_normal_big_n:
  assumes S: "positive_sampler S"
    and c: "positive_state c" "positive_rates c"
    and run: "one_step_logit_normal_big_n S L c y_s Xty_s X A2_tau p n w = (Inr c', w')"
  shows "positive_state c' \<and> positive_rates c'"
  using run
  unfolding one_step_logit_normal_big_n_def Let_def
  apply (elim and_then_Inr)
  apply (drule lift_Inr ret_Inr enter_Inr draw_randn_val draw_randg_val draw_randg_vec_Inr
      draw_pg_Inr)+
  apply (elim conjE)
  apply hypsubst
  using S c apply (auto simp: positive_state_def positive_rates_def positive_sampler_def)
  done

lemma positive_one_step_logit_normal_big_p:
  assumes S: "positive_sampler S"
    and c: "positive_state c" "positive_rates c"
    and run: "one_step_logit_normal_big_p S L c y_s XXt X A2_tau p n w = (Inr c', w')"
  shows "positive_state c' \<and> positive_rates c'"
  using run
  unfolding one_step_logit_normal_big_p_def Let_def
  apply (elim and_then_Inr)
  apply (drule lift_Inr ret_Inr enter_Inr draw_randn_val draw_randg_val draw_randg_vec_Inr
      draw_pg_Inr)+
  apply (elim conjE)
  apply hypsubst
  using S c apply (auto simp: positive_state_def positive_rates_def positive_sampler_def)
  done

lemma positive_one_step_logit_horseshoe_big_n:
  assumes S: "positive_sampler S" and A: "0 < A2_lambda"
    and c: "positive_state c" "positive_rates c"
    and run: "one_step_logit_horseshoe_big_n S L c y_s Xty_s X A2_tau A2_lambda p n w = (Inr c', w')"
  shows "positive_state c' \<and> positive_rates c'"
  using run
  unfolding one_step_logit_horseshoe_big_n_def Let_def
  apply (elim and_then_Inr)
  apply (drule lift_Inr ret_Inr enter_Inr draw_randn_val draw_randg_val draw_randg_vec_Inr
      draw_pg_Inr)+
  apply (elim conjE)
  apply hypsubst
  apply (frule (2) local_scales_pos [OF _ _ _ S A])
  using c apply (simp add: positive_rates_def)
  apply (rule half_sq_nonneg; use S c in \<open>simp add: positive_state_def positive_sampler_def\<close>)
  using S c apply (auto simp: positive_state_def positive_rates_def positive_sampler_def)
  done

lemma positive_one_step_logit_horseshoe_big_p:
  assumes S: "positive_sampler S" and A: "0 < A2_lambda"
    and c: "positive_state c" "positive_rates c"
    and run: "one_step_logit_horseshoe_big_p S L c y_s X A2_tau A2_lambda p n w = (Inr c', w')"
  shows "positive_state c' \<and> positive_rates c'"
  using run
  unfolding one_step_logit_horseshoe_big_p_def Let_def
  apply (elim and_then_Inr)
  apply (drule lift_Inr ret_Inr enter_Inr draw_randn_val draw_randg_val draw_randg_vec_Inr
      draw_pg_Inr)+
  apply (elim conjE)
  apply hypsubst
  apply (frule (2) local_scales_pos [OF _ _ _ S A])
  using c apply (simp add: positive_rates_def)
  apply (rule half_sq_nonneg; use S c in \<open>simp add: positive_state_def positive_sampler_def\<close>)
  using S c apply (auto simp: positive_state_def positive_rates_def positive_sampler_def)
  done

lemma positive_hs_one_step_update_big_p:
  assumes S: "positive_sampler S" and A: "0 < A2_lambda"
    and c: "positive_state c" "positive_rates c"
    and run: "hs_one_step_update_big_p S L c ys V d d2 y X VD A2_tau A2_lambda a_sigma b_sigma p n w = (Inr c', w')"
  shows "positive_state c' \<and> positive_rates c'"
  using run
  unfolding hs_one_step_update_big_p_def Let_def
  apply (elim and_then_Inr)
  apply (drule lift_Inr ret_Inr enter_Inr draw_randn_val draw_randg_val draw_randg_vec_Inr
      draw_pg_Inr)+
  apply (elim conjE)
  apply hypsubst
  apply (frule (2) local_scales_pos [OF _ _ _ S A])
  using c apply (simp add: positive_rates_def)
  apply (rule half_sq_nonneg2; use S c in \<open>simp add: positive_state_def positive_sampler_def\<close>)
  using S c apply (auto simp: positive_state_def positive_rates_def positive_sampler_def)
  done

lemma positive_hs_one_step_update_big_n:
  assumes S: "positive_sampler S" and A: "0 < A2_lambda"
    and c: "positive_state c" "positive_rates c"
    and run: "hs_one_step_update_big_n S L c dys V d2 y X A2 A2_lambda a_sigma b_sigma p n w = (Inr c', w')"
  shows "positive_state c' \<and> positive_rates c'"
  using run
  unfolding hs_one_step_update_big_n_def Let_def
  apply (elim and_then_Inr)
  apply (drule lift_Inr ret_Inr enter_Inr draw_randn_val draw_randg_val draw_randg_vec_Inr
      draw_pg_Inr)+
  apply (elim conjE)
  apply hypsubst
  apply (frule (2) local_scales_pos [OF _ _ _ S A])
  using c apply (simp add: positive_rates_def)
  apply (rule half_sq_nonneg2; use S c in \<open>simp add: positive_state_def positive_sampler_def\<close>)
  using S c apply (auto simp: positive_state_def positive_rates_def positive_sampler_def)
  done

lemma positive_hs_one_step_update:
  assumes S: "positive_sampler S" and A: "0 < A2_lambda"
    and c: "positive_state c" "positive_rates c"
    and run: "hs_one_step_update S L c y X A2 A2_lambda a_sigma b_sigma p n w = (Inr c', w')"
  shows "positive_state c' \<and> positive_rates c'"
  using run
  unfolding hs_one_step_update_def Let_def
  apply (elim and_then_Inr)
  apply (drule lift_Inr ret_Inr enter_Inr draw_randn_val draw_randg_val draw_randg_vec_Inr
      draw_pg_Inr)+
  apply (elim conjE)
  apply hypsubst
  apply (frule (2) local_scales_pos [OF _ _ _ S A])
  using c apply (simp add: positive_rates_def)
  apply (rule half_sq_nonneg2; use S c in \<open>simp add: positive_state_def positive_sampler_def\<close>)
  using S c apply (auto simp: positive_state_def positive_rates_def positive_sampler_def)
  done

lemma gamma_kernels_positive:
  assumes "step \<in> gamma_kernels S L" and "positive_sampler S"
    and "positive_state c" and "positive_rates c" and "step c w = (Inr c', w')"
  shows "positive_state c' \<and> positive_rates c'"
  using assms
proof (induction rule: gamma_kernels.induct)
  case normal_big_p
  then show ?case by (intro positive_one_step_update_big_p)
next
  case normal_big_n
  then show ?case by (intro positive_one_step_update_big_n)
next
  case logit_normal_big_n
  then show ?case by (intro positive_one_step_logit_normal_big_n)
next
  case logit_normal_big_p
  then show ?case by (intro positive_one_step_logit_normal_big_p)
next
  case logit_horseshoe_big_n
  then show ?case by (intro positive_one_step_logit_horseshoe_big_n)
next
  case logit_horseshoe_big_p
  then show ?case by (intro positive_one_step_logit_horseshoe_big_p)
next
  case hs_big_p
  then show ?case by (intro positive_hs_one_step_update_big_p)
next
  case hs_big_n
  then show ?case by (intro positive_hs_one_step_update_big_n)
next
  case hs_update
  then show ?case by (intro positive_hs_one_step_update)
qed

lemma repeat_positive:
  assumes "step \<in> gamma_kernels S L" and "positive_sampler S"
    and "positive_state c \<and> positive_rates c" and "repeat k step c w = (Inr c', w')"
  shows "positive_state c' \<and> positive_rates c'"
  using assms(3,4)
proof (induction k arbitrary: c w)
  case 0
  then show ?case by (simp add: ret_def)
next
  case (Suc k)
  from Suc.prems(2) obtain c1 w1 where
    1: "step c w = (Inr c1, w1)" and 2: "repeat k step c1 w1 = (Inr c', w')"
    by (auto elim: and_then_Inr)
  have "positive_state c1 \<and> positive_rates c1"
    using gamma_kernels_positive [OF assms(1,2) _ _ 1] Suc.prems(1) by blast
  then show ?case using 2 by (rule Suc.IH)
qed

lemma sampling_loop_positive:
  assumes step: "step \<in> gamma_kernels S L" and S: "positive_sampler S"
    and store: "\<And>iter c l l'. positive_state c \<Longrightarrow> J iter l \<Longrightarrow> store iter c l = Inr l'
                  \<Longrightarrow> J (Suc iter) l'"
    and c: "positive_state c \<and> positive_rates c" and l: "J iter l"
    and run: "sampling_loop m thinning step store iter (c, l) w = (Inr (c', l'), w')"
  shows "(positive_state c' \<and> positive_rates c') \<and> J (iter + m) l'"
  using c l run
proof (induction m arbitrary: iter c l w)
  case 0
  then show ?case by (simp add: ret_def)
next
  case (Suc m)
  from Suc.prems(3) obtain c1 w1 l1 where
    1: "repeat thinning step c w = (Inr c1, w1)" and
    2: "store iter c1 l = Inr l1" and
    3: "sampling_loop m thinning step store (Suc iter) (c1, l1) w1 = (Inr (c', l'), w')"
    by (auto elim!: and_then_Inr dest!: lift_Inr)
  have c1: "positive_state c1 \<and> positive_rates c1"
    by (rule repeat_positive [OF step S Suc.prems(1) 1])
  have l1: "J (Suc iter) l1"
    using store [OF _ Suc.prems(2) 2] c1 by blast
  from Suc.IH [OF c1 l1 3] show ?case by simp
qed

lemma set_at_pos:
  assumes "set_at v iter x = Inr v'" and "pos_vec_upto iter v" and "0 < x"
  shows "pos_vec_upto (Suc iter) v'"
proof -
  have i: "iter < length v" and v': "v' = v[iter := x]"
    using assms(1) by (auto simp: set_at_def split: if_splits)
  have "take (Suc iter) v' = take iter v @ [x]"
    using i by (simp add: v' take_Suc_conv_app_nth)
  then show ?thesis using assms(2,3) by (simp add: pos_vec_upto_def)
qed

lemma set_col_pos:
  assumes "set_col M iter x = Inr M'" and "pos_cols_upto iter M" and "list_all (\<lambda>v. 0 < v) x"
  shows "pos_cols_upto (Suc iter) M'"
proof -
  have "col M' j = col M j" if "j < iter" for j
    using col_set_col(5) [OF assms(1), of j] that by simp
  then have "list_all (\<lambda>j. list_all (\<lambda>x. 0 < x) (col M' j)) [0..<iter]"
    using assms(2) by (simp add: pos_cols_upto_def list_all_iff)
  then show ?thesis
    using col_set_col(4) [OF assms(1)] assms(3) by (simp add: pos_cols_upto_def)
qed

lemma lm_store_pos:
  assumes "positive_state c" and "pos_lm_lists iter l" and "lm_store iter c l = Inr l'"
  shows "pos_lm_lists (Suc iter) l'"
  using assms
  by (auto simp: lm_store_def pos_lm_lists_def positive_state_def split: sum.splits
      intro: set_at_pos)

lemma logit_store_pos:
  assumes "positive_state c" and "pos_logit_lists iter l" and "logit_store iter c l = Inr l'"
  shows "pos_logit_lists (Suc iter) l'"
  using assms
  by (auto simp: logit_store_def pos_logit_lists_def positive_state_def split: sum.splits
      intro: set_at_pos)

lemma hs_logit_store_pos:
  assumes "positive_state c" and "pos_hs_logit_lists iter l" and "hs_logit_store iter c l = Inr l'"
  shows "pos_hs_logit_lists (Suc iter) l'"
  using assms
  by (auto simp: hs_logit_store_def pos_hs_logit_lists_def positive_state_def split: sum.splits
      intro: set_at_pos set_col_pos)

lemma hs_store_pos:
  assumes "positive_state c" and "pos_hs_lists iter l" and "hs_store iter c l = Inr l'"
  shows "pos_hs_lists (Suc iter) l'"
  using assms
  by (auto simp: hs_store_def pos_hs_lists_def positive_state_def split: sum.splits
      intro: set_at_pos set_col_pos)

lemma loops_positive:
  assumes burn: "repeat b step c0 w = (Inr c1, w1)"
    and loop: "sampling_loop m t step store 0 (c1, l0) w1 = (Inr cl, w2)"
    and step: "step \<in> gamma_kernels S L" and S: "positive_sampler S"
    and store: "\<And>iter c l l'. positive_state c \<Longrightarrow> J iter l \<Longrightarrow> store iter c l = Inr l'
                  \<Longrightarrow> J (Suc iter) l'"
    and c0: "positive_state c0 \<and> positive_rates c0" and l0: "J 0 l0"
  shows "J m (snd cl) \<and> positive_state (fst cl)"
proof -
  have c1: "positive_state c1 \<and> positive_rates c1"
    by (rule repeat_positive [OF step S c0 burn])
  obtain c2 l2 where cl: "cl = (c2, l2)" by (cases cl)
  from sampling_loop_positive [where J = J, OF step S store c1 l0 loop [unfolded cl]]
  show ?thesis by (simp add: cl)
qed

lemma pos_upto_0 [simp]:
  "pos_vec_upto 0 v" "pos_cols_upto 0 M"
  by (simp_all add: pos_vec_upto_def pos_cols_upto_def)

lemma square_pos: "A \<noteq> 0 \<Longrightarrow> 0 < A * A" for A :: real
  by (rule linorder_cases [of A 0]) (simp_all add: mult_neg_neg)

lemma set_at_length: "set_at v i x = Inr v' \<Longrightarrow> length v' = length v"
  by (auto simp: set_at_def split: if_splits)

lemma pos_vec_upto_all: "pos_vec_upto (length v) v = list_all (\<lambda>x. 0 < x) v"
  by (simp add: pos_vec_upto_def)

lemma lm_store_inv:
  assumes "positive_state c" and "lm_lists_inv N iter l" and "lm_store iter c l = Inr l'"
  shows "lm_lists_inv N (Suc iter) l'"
proof -
  have "pos_lm_lists (Suc iter) l'"
    by (rule lm_store_pos [OF assms(1) _ assms(3)]) (use assms(2) in \<open>simp add: lm_lists_inv_def\<close>)
  moreover have "length (sigma2_eps_list l') = N \<and> length (tau2_list l') = N"
    using assms(2,3)
    by (auto simp: lm_store_def lm_lists_inv_def split: sum.splits dest: set_at_length)
  ultimately show ?thesis by (simp add: lm_lists_inv_def)
qed

lemma logit_store_inv:
  assumes "positive_state c" and "logit_lists_inv N iter l" and "logit_store iter c l = Inr l'"
  shows "logit_lists_inv N (Suc iter) l'"
proof -
  have "pos_logit_lists (Suc iter) l'"
    by (rule logit_store_pos [OF assms(1) _ assms(3)]) (use assms(2) in \<open>simp add: logit_lists_inv_def\<close>)
  moreover have "length (lg_tau2_list l') = N"
    using assms(2,3)
    by (auto simp: logit_store_def logit_lists_inv_def split: sum.splits dest: set_at_length)
  ultimately show ?thesis by (simp add: logit_lists_inv_def)
qed

lemma hs_logit_store_inv:
  assumes "positive_state c" and "hs_logit_lists_inv N iter l"
    and "hs_logit_store iter c l = Inr l'"
  shows "hs_logit_lists_inv N (Suc iter) l'"
proof -
  have "pos_hs_logit_lists (Suc iter) l'"
    by (rule hs_logit_store_pos [OF assms(1) _ assms(3)]) (use assms(2) in \<open>simp add: hs_logit_lists_inv_def\<close>)
  moreover have "n_cols (hl_lambda_list l') = N \<and> length (hl_tau2_list l') = N"
    using assms(2,3)
    by (auto simp: hs_logit_store_def hs_logit_lists_inv_def split: sum.splits
        dest: set_at_length col_set_col(1))
  ultimately show ?thesis by (simp add: hs_logit_lists_inv_def)
qed

lemma hs_store_inv:
  assumes "positive_state c" and "hs_lists_inv N iter l" and "hs_store iter c l = Inr l'"
  shows "hs_lists_inv N (Suc iter) l'"
proof -
  have "pos_hs_lists (Suc iter) l'"
    by (rule hs_store_pos [OF assms(1) _ assms(3)]) (use assms(2) in \<open>simp add: hs_lists_inv_def\<close>)
  moreover have "n_cols (hs_lambda_list l') = N \<and> length (hs_sigma2_eps_list l') = N
                 \<and> length (hs_tau2_list l') = N"
    using assms(2,3)
    by (auto simp: hs_store_def hs_lists_inv_def split: sum.splits
        dest: set_at_length col_set_col(1))
  ultimately show ?thesis by (simp add: hs_lists_inv_def)
qed

lemma lists_inv_start:
  "lm_lists_inv N 0 \<lparr>betacoef_list = B, sigma2_eps_list = zeros N, tau2_list = zeros N\<rparr>"
  "logit_lists_inv N 0 \<lparr>lg_betacoef_list = B, lg_tau2_list = zeros N\<rparr>"
  "hs_logit_lists_inv N 0 \<lparr>hl_betacoef_list = B, hl_lambda_list = mat_zeros p N,
                           hl_tau2_list = zeros N\<rparr>"
  "hs_lists_inv N 0 \<lparr>hs_betacoef_list = B, hs_lambda_list = mat_zeros p N,
                     hs_sigma2_eps_list = zeros N, hs_tau2_list = zeros N\<rparr>"
  by (simp_all add: lm_lists_inv_def logit_lists_inv_def hs_logit_lists_inv_def hs_lists_inv_def
      pos_lm_lists_def pos_logit_lists_def pos_hs_logit_lists_def pos_hs_lists_def zeros_def
      mat_zeros_def)

lemma lists_inv_end:
  "lm_lists_inv N N l \<Longrightarrow>
     list_all (\<lambda>x. 0 < x) (sigma2_eps_list l) \<and> list_all (\<lambda>x. 0 < x) (tau2_list l)"
  "logit_lists_inv N N ll \<Longrightarrow> list_all (\<lambda>x. 0 < x) (lg_tau2_list ll)"
  "hs_logit_lists_inv N N hl \<Longrightarrow>
     pos_cols (hl_lambda_list hl) \<and> list_all (\<lambda>x. 0 < x) (hl_tau2_list hl)"
  "hs_lists_inv N N h \<Longrightarrow>
     pos_cols (hs_lambda_list h) \<and> list_all (\<lambda>x. 0 < x) (hs_sigma2_eps_list h)
     \<and> list_all (\<lambda>x. 0 < x) (hs_tau2_list h)"
  by (auto simp: lm_lists_inv_def logit_lists_inv_def hs_logit_lists_inv_def hs_lists_inv_def
      pos_lm_lists_def pos_logit_lists_def pos_hs_logit_lists_def pos_hs_lists_def pos_cols_def
      pos_vec_upto_def)

lemma fast_normal_lm_positive:
  assumes S: "positive_sampler S" and ab: "0 < b_sigma / a_sigma" and A: "A_tau \<noteq> 0"
    and run: "fast_normal_lm S L y X mcmc_sample burnin thinning a_sigma b_sigma A_tau w
                = (Inr fit, w')"
  shows "list_all (\<lambda>x. 0 < x) (sigma2_eps_list (mcmc fit))
       \<and> list_all (\<lambda>x. 0 < x) (tau2_list (mcmc fit))"
proof -
  from fast_normal_lm_Inr [OF run] obtain U d V d2 ys cb wb c' where
    burn: "repeat (nat burnin)
           (lm_kernel S ys V d d2 y X (A_tau * A_tau) a_sigma b_sigma (n_cols X) (n_rows X))
           (lm_init a_sigma b_sigma A_tau) w = (Inr cb, wb)"
    and loop: "sampling_loop (nat mcmc_sample) (nat thinning)
           (lm_kernel S ys V d d2 y X (A_tau * A_tau) a_sigma b_sigma (n_cols X) (n_rows X))
           lm_store 0
           (cb, \<lparr>betacoef_list = mat_zeros (n_cols X) (nat mcmc_sample),
                 sigma2_eps_list = zeros (nat mcmc_sample),
                 tau2_list = zeros (nat mcmc_sample)\<rparr>) wb = (Inr (c', mcmc fit), w')"
    by blast
  have step: "lm_kernel S ys V d d2 y X (A_tau * A_tau) a_sigma b_sigma (n_cols X) (n_rows X)
                \<in> gamma_kernels S L"
    by (simp add: lm_kernel_def gamma_kernels.normal_big_p gamma_kernels.normal_big_n)
  have c0: "positive_state (lm_init a_sigma b_sigma A_tau)
            \<and> positive_rates (lm_init a_sigma b_sigma A_tau)"
    using ab square_pos [OF A] by (simp add: lm_init_def positive_state_def positive_rates_def)
  have "lm_lists_inv (nat mcmc_sample) (nat mcmc_sample) (snd (c', mcmc fit))
        \<and> positive_state (fst (c', mcmc fit))"
  proof (rule loops_positive [where J = "lm_lists_inv (nat mcmc_sample)", OF burn loop step S _ c0])
    show "lm_lists_inv (nat mcmc_sample) (Suc iter) l'"
      if "positive_state c" "lm_lists_inv (nat mcmc_sample) iter l" "lm_store iter c l = Inr l'"
      for iter c l l'
      using that by (rule lm_store_inv)
    show "lm_lists_inv (nat mcmc_sample) 0
            \<lparr>betacoef_list = mat_zeros (n_cols X) (nat mcmc_sample),
             sigma2_eps_list = zeros (nat mcmc_sample), tau2_list = zeros (nat mcmc_sample)\<rparr>"
      by (rule lists_inv_start)
  qed
  then show ?thesis by (auto dest: lists_inv_end(1))
qed

lemma fast_normal_logit_positive:
  assumes S: "positive_sampler S"
    and hyp: "0 < A_tau * A_tau"
    and run: "fast_normal_logit S L y X mcmc_sample burnin thinning A_tau w = (Inr fit, w')"
  shows "list_all (\<lambda>x. 0 < x) (lg_tau2_list (lg_mcmc fit))"
proof -
  show ?thesis
  proof (cases "n_cols X < n_rows X")
    case True
    show ?thesis
      using run unfolding fast_normal_logit_def Let_def
      apply (simp only: True if_True)
      apply (elim and_then_Inr)
      apply (drule lift_Inr ret_Inr draw_pg_Inr)+
      apply (elim conjE)
      apply (frule (1) loops_positive [where J = "logit_lists_inv (nat mcmc_sample)" and S = S and L = L])
           apply (rule gamma_kernels.intros)
          apply (rule S)
         apply (erule (2) logit_store_inv)
      using S hyp
        apply (simp add: positive_state_def positive_rates_def positive_sampler_def vones_def
          list_all_iff fast_horseshoe_lm_init_def fast_horseshoe_ss_lm_init_def
          fast_horseshoe_hd_lm_init_def)
       apply (auto simp: hs_lists_zeros_def lists_inv_start split: if_splits)[1]
      apply simp
      apply (auto dest: lists_inv_end(2))
      done
  next
    case False
    show ?thesis
      using run unfolding fast_normal_logit_def Let_def
      apply (simp only: False if_False)
      apply (elim and_then_Inr)
      apply (drule lift_Inr ret_Inr draw_pg_Inr)+
      apply (elim conjE)
      apply (frule (1) loops_positive [where J = "logit_lists_inv (nat mcmc_sample)" and S = S and L = L])
           apply (rule gamma_kernels.intros)
          apply (rule S)
         apply (erule (2) logit_store_inv)
      using S hyp
        apply (simp add: positive_state_def positive_rates_def positive_sampler_def vones_def
          list_all_iff fast_horseshoe_lm_init_def fast_horseshoe_ss_lm_init_def
          fast_horseshoe_hd_lm_init_def)
       apply (auto simp: hs_lists_zeros_def lists_inv_start split: if_splits)[1]
      apply simp
      apply (auto dest: lists_inv_end(2))
      done
  qed
qed

lemma fast_horseshoe_logit_positive:
  assumes S: "positive_sampler S" and Al: "A_lambda \<noteq> 0"
    and hyp: "0 < A_tau * A_tau" "0 < n_cols X"
    and run: "fast_horseshoe_logit S L y X mcmc_sample burnin thinning A_tau A_lambda w = (Inr fit, w')"
  shows "pos_cols (hl_lambda_list (hl_mcmc fit)) \<and> list_all (\<lambda>x. 0 < x) (hl_tau2_list (hl_mcmc fit))"
proof -
  show ?thesis
  proof (cases "n_cols X < n_rows X")
    case True
    show ?thesis
      using run unfolding fast_horseshoe_logit_def Let_def
      apply (simp only: True if_True)
      apply (elim and_then_Inr)
      apply (drule lift_Inr ret_Inr draw_pg_Inr)+
      apply (elim conjE)
      apply (frule (1) loops_positive [where J = "hs_logit_lists_inv (nat mcmc_sample)" and S = S and L = L])
           apply (rule gamma_kernels.intros, rule square_pos [OF Al])
          apply (rule S)
         apply (erule (2) hs_logit_store_inv)
      using S hyp
        apply (simp add: positive_state_def positive_rates_def positive_sampler_def vones_def
          list_all_iff fast_horseshoe_lm_init_def fast_horseshoe_ss_lm_init_def
          fast_horseshoe_hd_lm_init_def)
       apply (auto simp: hs_lists_zeros_def lists_inv_start split: if_splits)[1]
      apply simp
      apply (auto dest: lists_inv_end(3))
      done
  next
    case False
    show ?thesis
      using run unfolding fast_horseshoe_logit_def Let_def
      apply (simp only: False if_False)
      apply (elim and_then_Inr)
      apply (drule lift_Inr ret_Inr draw_pg_Inr)+
      apply (elim conjE)
      apply (frule (1) loops_positive [where J = "hs_logit_lists_inv (nat mcmc_sample)" and S = S and L = L])
           apply (rule gamma_kernels.intros, rule square_pos [OF Al])
          apply (rule S)
         apply (erule (2) hs_logit_store_inv)
      using S hyp
        apply (simp add: positive_state_def positive_rates_def positive_sampler_def vones_def
          list_all_iff fast_horseshoe_lm_init_def fast_horseshoe_ss_lm_init_def
          fast_horseshoe_hd_lm_init_def)
       apply (auto simp: hs_lists_zeros_def lists_inv_start split: if_splits)[1]
      apply simp
      apply (auto dest: lists_inv_end(3))
      done
  qed
qed

lemma hs_summary_Inr: "hs_summary X l w = (Inr fit, w') \<Longrightarrow> hs_mcmc fit = l"
  unfolding hs_summary_def
  apply (elim and_then_Inr)
  apply (drule lift_Inr ret_Inr)+
  apply auto
  done

lemma fast_horseshoe_lm_positive:
  assumes S: "positive_sampler S" and Al: "A_lambda \<noteq> 0"
    and hyp: "a_sigma \<noteq> 0 \<longrightarrow> 0 < b_sigma / a_sigma" "0 < n_cols X"
    and run: "fast_horseshoe_lm S L y X mcmc_sample burnin thinning a_sigma b_sigma A_tau A_lambda w = (Inr fit, w')"
  shows "pos_cols (hs_lambda_list (hs_mcmc fit)) \<and> list_all (\<lambda>x. 0 < x) (hs_sigma2_eps_list (hs_mcmc fit))
       \<and> list_all (\<lambda>x. 0 < x) (hs_tau2_list (hs_mcmc fit))"
proof -
  obtain U d V where svd: "svd_econ L X = (U, d, V)" by (cases "svd_econ L X") auto
  show ?thesis
  proof (cases "n_cols X < n_rows X")
    case True
    show ?thesis
      using run unfolding fast_horseshoe_lm_def svd Let_def prod.case
      apply (simp only: True if_True)
      apply (elim and_then_Inr)
      apply (drule lift_Inr ret_Inr draw_pg_Inr)+
      apply (elim conjE)
      apply (frule (1) loops_positive [where J = "hs_lists_inv (nat mcmc_sample)" and S = S and L = L])
           apply (rule gamma_kernels.intros, rule square_pos [OF Al])
          apply (rule S)
         apply (erule (2) hs_store_inv)
      using S hyp
        apply (simp add: positive_state_def positive_rates_def positive_sampler_def vones_def
          list_all_iff fast_horseshoe_lm_init_def fast_horseshoe_ss_lm_init_def
          fast_horseshoe_hd_lm_init_def)
       apply (auto simp: hs_lists_zeros_def lists_inv_start split: if_splits)[1]
      apply (drule hs_summary_Inr)
      apply (auto dest: lists_inv_end(4))
      done
  next
    case False
    show ?thesis
      using run unfolding fast_horseshoe_lm_def svd Let_def prod.case
      apply (simp only: False if_False)
      apply (elim and_then_Inr)
      apply (drule lift_Inr ret_Inr draw_pg_Inr)+
      apply (elim conjE)
      apply (frule (1) loops_positive [where J = "hs_lists_inv (nat mcmc_sample)" and S = S and L = L])
           apply (rule gamma_kernels.intros, rule square_pos [OF Al])
          apply (rule S)
         apply (erule (2) hs_store_inv)
      using S hyp
        apply (simp add: positive_state_def positive_rates_def positive_sampler_def vones_def
          list_all_iff fast_horseshoe_lm_init_def fast_horseshoe_ss_lm_init_def
          fast_horseshoe_hd_lm_init_def)
       apply (auto simp: hs_lists_zeros_def lists_inv_start split: if_splits)[1]
      apply (drule hs_summary_Inr)
      apply (auto dest: lists_inv_end(4))
      done
  qed
qed

lemma fast_horseshoe_hd_lm_positive:
  assumes S: "positive_sampler S" and Al: "A_lambda \<noteq> 0"
    and hyp: "a_sigma \<noteq> 0 \<longrightarrow> 0 < b_sigma / a_sigma" "0 < n_cols X"
    and run: "fast_horseshoe_hd_lm S L y X mcmc_sample burnin thinning a_sigma b_sigma A_tau A_lambda w = (Inr fit, w')"
  shows "pos_cols (hs_lambda_list (hs_mcmc fit)) \<and> list_all (\<lambda>x. 0 < x) (hs_sigma2_eps_list (hs_mcmc fit))
       \<and> list_all (\<lambda>x. 0 < x) (hs_tau2_list (hs_mcmc fit))"
proof -
  obtain U d V where svd: "svd_econ L X = (U, d, V)" by (cases "svd_econ L X") auto
  show ?thesis
  proof (cases "n_cols X < n_rows X")
    case True
    show ?thesis
      using run unfolding fast_horseshoe_hd_lm_def svd Let_def prod.case
      apply (simp only: True if_True)
      apply (elim and_then_Inr)
      apply (drule lift_Inr ret_Inr draw_pg_Inr)+
      apply (elim conjE)
      apply (frule (1) loops_positive [where J = "hs_lists_inv (nat mcmc_sample)" and S = S and L = L])
           apply (rule gamma_kernels.intros, rule square_pos [OF Al])
          apply (rule S)
         apply (erule (2) hs_store_inv)
      using S hyp
        apply (simp add: positive_state_def positive_rates_def positive_sampler_def vones_def
          list_all_iff fast_horseshoe_lm_init_def fast_horseshoe_ss_lm_init_def
          fast_horseshoe_hd_lm_init_def)
       apply (auto simp: hs_lists_zeros_def lists_inv_start split: if_splits)[1]
      apply (drule hs_summary_Inr)
      apply (auto dest: lists_inv_end(4))
      done
  next
    case False
    show ?thesis
      using run unfolding fast_horseshoe_hd_lm_def svd Let_def prod.case
      apply (simp only: False if_False)
      apply (elim and_then_Inr)
      apply (drule lift_Inr ret_Inr draw_pg_Inr)+
      apply (elim conjE)
      apply (frule (1) loops_positive [where J = "hs_lists_inv (nat mcmc_sample)" and S = S and L = L])
           apply (rule gamma_kernels.intros, rule square_pos [OF Al])
          apply (rule S)
         apply (erule (2) hs_store_inv)
      using S hyp
        apply (simp add: positive_state_def positive_rates_def positive_sampler_def vones_def
          list_all_iff fast_horseshoe_lm_init_def fast_horseshoe_ss_lm_init_def
          fast_horseshoe_hd_lm_init_def)
       apply (auto simp: hs_lists_zeros_def lists_inv_start split: if_splits)[1]
      apply (drule hs_summary_Inr)
      apply (auto dest: lists_inv_end(4))
      done
  qed
qed

lemma fast_horseshoe_ss_lm_positive:
  assumes S: "positive_sampler S" and Al: "A_lambda \<noteq> 0"
    and hyp: "a_sigma \<noteq> 0 \<longrightarrow> 0 < b_sigma / a_sigma" "0 < n_cols X" "n_cols X < n_rows X"
    and run: "fast_horseshoe_ss_lm S L y X mcmc_sample burnin thinning a_sigma b_sigma A_tau A_lambda w = (Inr fit, w')"
  shows "pos_cols (hs_lambda_list (hs_mcmc fit)) \<and> list_all (\<lambda>x. 0 < x) (hs_sigma2_eps_list (hs_mcmc fit))
       \<and> list_all (\<lambda>x. 0 < x) (hs_tau2_list (hs_mcmc fit))"
proof -
  obtain U d V where svd: "svd_econ L X = (U, d, V)" by (cases "svd_econ L X") auto
  show ?thesis
  proof (cases "n_cols X < n_rows X")
    case True
    show ?thesis
      using run unfolding fast_horseshoe_ss_lm_def svd Let_def prod.case
      apply (simp only: True if_True)
      apply (elim and_then_Inr)
      apply (drule lift_Inr ret_Inr draw_pg_Inr)+
      apply (elim conjE)
      apply (frule (1) loops_positive [where J = "hs_lists_inv (nat mcmc_sample)" and S = S and L = L])
           apply (rule gamma_kernels.intros, rule square_pos [OF Al])
          apply (rule S)
         apply (erule (2) hs_store_inv)
      using S hyp
        apply (simp add: positive_state_def positive_rates_def positive_sampler_def vones_def
          list_all_iff fast_horseshoe_lm_init_def fast_horseshoe_ss_lm_init_def
          fast_horseshoe_hd_lm_init_def)
       apply (auto simp: hs_lists_zeros_def lists_inv_start split: if_splits)[1]
      apply (drule hs_summary_Inr)
      apply (auto dest: lists_inv_end(4))
      done
  next
    case False
    show ?thesis
      using hyp False by simp
  qed
qed

end
